(* ===== verification/Prelude.thy ===== *)
theory Prelude
  imports "HOL-Library.Word"
begin

text \<open>
  Shared vocabulary of the development: the machine integers of the ESP32-S3 target, byte
  buffers with checked copies, the faults that stand for undefined behaviour of C, the error
  numbers of the Zephyr C library, the observable world (clock and CAN bus log), and the
  generic locales that several components instantiate.
\<close>

unbundle bit_operations_syntax

section \<open>Machine integers and buffers\<close>

type_synonym u8 = "8 word"
type_synonym u16 = "16 word"
type_synonym u32 = "32 word"
type_synonym u64 = "64 word"
type_synonym bytes = "u8 list"

text \<open>
  What C leaves undefined is a value of its own: an access outside an array, a call through a
  null function pointer, a division by zero, a float turned into an integer type it does not fit.
  A routine that can run into one returns a sum.
\<close>

datatype fault = Out_Of_Bounds | Null_Call | Div_By_Zero | Bad_Conversion

type_synonym 'a res = "fault + 'a"

named_theorems mem_simps \<open>facts about checked buffer accesses\<close>

definition res_bind :: "'a res \<Rightarrow> ('a \<Rightarrow> 'b res) \<Rightarrow> 'b res" where
  "res_bind m k = (case m of Inl e \<Rightarrow> Inl e | Inr x \<Rightarrow> k x)"

lemma res_bind_simps [simp]:
  "res_bind (Inl e) k = Inl e"
  "res_bind (Inr x) k = k x"
  by (simp_all add: res_bind_def)

lemma res_bind_cong [fundef_cong]:
  "m = m' \<Longrightarrow> (\<And>x. m' = Inr x \<Longrightarrow> k x = k' x) \<Longrightarrow> res_bind m k = res_bind m' k'"
  by (cases m') auto

lemma res_bind_Inr_iff: "res_bind m k = Inr y \<longleftrightarrow> (\<exists>x. m = Inr x \<and> k x = Inr y)"
  by (cases m) auto

text \<open>Rules to show that a routine does not fault, branch by branch.\<close>

named_theorems total_intros \<open>absence of faults\<close>

lemma total_if [total_intros]:
  "(P \<Longrightarrow> \<not> isl a) \<Longrightarrow> (\<not> P \<Longrightarrow> \<not> isl b) \<Longrightarrow> \<not> isl (if P then a else b)"
  by simp

lemma total_bind [total_intros]:
  "\<not> isl m \<Longrightarrow> (\<And>x. m = Inr x \<Longrightarrow> \<not> isl (k x)) \<Longrightarrow> \<not> isl (res_bind m k)"
  by (cases m) simp_all

lemma total_Inr [total_intros]: "\<not> isl (Inr x)"
  by simp

lemma total_split [total_intros]: "(\<And>x y. p = (x, y) \<Longrightarrow> \<not> isl (f x y)) \<Longrightarrow> \<not> isl (case p of (x, y) \<Rightarrow> f x y)"
  by (cases p) simp

lemma not_islD: "\<not> isl m \<Longrightarrow> \<exists>x. m = Inr x"
  by (cases m) simp_all

text \<open>\<open>memcpy(dst + off, src, length src)\<close> into an array of \<open>length dst\<close> elements.\<close>

definition memcpy_at :: "'a list \<Rightarrow> nat \<Rightarrow> 'a list \<Rightarrow> 'a list res" where
  "memcpy_at dst off src =
     (if off + length src \<le> length dst
      then Inr (take off dst @ src @ drop (off + length src) dst)
      else Inl Out_Of_Bounds)"

text \<open>The \<open>n\<close> elements from \<open>off\<close> on, read from an array.\<close>

definition mem_read :: "'a list \<Rightarrow> nat \<Rightarrow> nat \<Rightarrow> 'a list res" where
  "mem_read xs off n =
     (if off + n \<le> length xs then Inr (take n (drop off xs)) else Inl Out_Of_Bounds)"

text \<open>One element of an array.\<close>

definition mem_get :: "'a list \<Rightarrow> nat \<Rightarrow> 'a res" where
  "mem_get xs i = (if i < length xs then Inr (xs ! i) else Inl Out_Of_Bounds)"

lemma memcpy_at_ok [mem_simps]:
  "off + length src \<le> length dst \<Longrightarrow>
     memcpy_at dst off src = Inr (take off dst @ src @ drop (off + length src) dst)"
  by (simp add: memcpy_at_def)

lemma memcpy_at_fault [mem_simps]:
  "length dst < off + length src \<Longrightarrow> memcpy_at dst off src = Inl Out_Of_Bounds"
  by (simp add: memcpy_at_def)

lemma not_isl_mem [simp]:
  "isl (memcpy_at dst off src) \<longleftrightarrow> length dst < off + length src"
  "isl (mem_read xs off n) \<longleftrightarrow> length xs < off + n"
  "isl (mem_get xs i) \<longleftrightarrow> length xs \<le> i"
  by (auto simp: memcpy_at_def mem_read_def mem_get_def)

lemma memcpy_at_length: "memcpy_at dst off src = Inr d \<Longrightarrow> length d = length dst"
  by (auto simp: memcpy_at_def split: if_splits)

lemma mem_read_ok [mem_simps]:
  "off + n \<le> length xs \<Longrightarrow> mem_read xs off n = Inr (take n (drop off xs))"
  by (simp add: mem_read_def)

lemma mem_get_ok [mem_simps]: "i < length xs \<Longrightarrow> mem_get xs i = Inr (xs ! i)"
  by (simp add: mem_get_def)

lemma mem_read_length: "mem_read xs off n = Inr ys \<Longrightarrow> length ys = n"
  by (auto simp: mem_read_def split: if_splits)

text \<open>Appending to the written prefix of a buffer: the step of every chunked copy.\<close>

lemma memcpy_at_extends:
  assumes "take off dst = pre" and "off + length src \<le> length dst"
  shows "\<exists>d. memcpy_at dst off src = Inr d \<and> take (off + length src) d = pre @ src \<and>
             length d = length dst \<and> drop (off + length src) d = drop (off + length src) dst"
proof -
  have "length pre = off" using assms by auto
  then show ?thesis using assms by (simp add: memcpy_at_def)
qed

section \<open>Words\<close>

lemma unat_u8_less [simp]: "unat (x :: u8) < 256"
  using unsigned_less [of x, where ?'a = nat] by simp

lemma unat_u16_less [simp]: "unat (x :: u16) < 65536"
  using unsigned_less [of x, where ?'a = nat] by simp

lemma unat_u32_less [simp]: "unat (x :: u32) < 4294967296"
  using unsigned_less [of x, where ?'a = nat] by simp

lemma unat_of_nat_word: "n < 2 ^ LENGTH('w) \<Longrightarrow> unat (word_of_nat n :: 'w::len word) = n"
  by (simp add: unsigned_of_nat take_bit_nat_eq_self)

lemma unat_of_nat_u8: "n < 256 \<Longrightarrow> unat (word_of_nat n :: u8) = n"
  by (simp add: unat_of_nat_word)

lemma unat_of_nat_u16: "n < 65536 \<Longrightarrow> unat (word_of_nat n :: u16) = n"
  by (simp add: unat_of_nat_word)

lemma unat_of_nat_u32: "n < 4294967296 \<Longrightarrow> unat (word_of_nat n :: u32) = n"
  by (simp add: unat_of_nat_word)

lemma uint_of_nat_word: "n < 2 ^ LENGTH('w) \<Longrightarrow> uint (word_of_nat n :: 'w::len word) = int n"
  by (simp add: unsigned_of_nat take_bit_nat_eq_self)

lemma uint_of_nat_u8: "n < 256 \<Longrightarrow> uint (word_of_nat n :: u8) = int n"
  by (simp add: uint_of_nat_word)

lemma uint_of_nat_u16: "n < 65536 \<Longrightarrow> uint (word_of_nat n :: u16) = int n"
  by (simp add: uint_of_nat_word)

lemmas unat_of_nat_small = unat_of_nat_u8 unat_of_nat_u16 unat_of_nat_u32
lemmas uint_of_nat_small = uint_of_nat_u8 uint_of_nat_u16

text \<open>Elapsed time is read modulo the width of the counter.\<close>

lemma unat_word_diff_of_nat:
  assumes "a \<le> b" and "b - a < 2 ^ LENGTH('w::len)"
  shows "unat (word_of_nat b - word_of_nat a :: 'w word) = b - a"
proof -
  have "word_of_nat b - word_of_nat a = (word_of_nat (b - a) :: 'w word)"
    using assms(1) by (simp add: of_nat_diff)
  then show ?thesis using assms(2) by (simp add: unat_of_nat_word)
qed

section \<open>Chunks\<close>

text \<open>A list cut into pieces of \<open>n\<close> elements, the last one possibly shorter.\<close>

function chunks :: "nat \<Rightarrow> 'a list \<Rightarrow> 'a list list" where
  "chunks n xs = (if n = 0 \<or> xs = [] then [] else take n xs # chunks n (drop n xs))"
  by pat_completeness auto
termination
  by (relation "measure (\<lambda>(n, xs). length xs)") auto

declare chunks.simps [simp del]

lemma chunks_Nil [simp]: "chunks n [] = []"
  by (simp add: chunks.simps)

lemma chunks_step: "0 < n \<Longrightarrow> xs \<noteq> [] \<Longrightarrow> chunks n xs = take n xs # chunks n (drop n xs)"
  by (subst chunks.simps) simp

lemma concat_chunks: "0 < n \<Longrightarrow> concat (chunks n xs) = xs"
  by (induction n xs rule: chunks.induct) (subst chunks.simps, auto)

lemma length_chunks: "0 < n \<Longrightarrow> length (chunks n xs) = (length xs + n - 1) div n"
proof (induction n xs rule: chunks.induct)
  case (1 n xs)
  show ?case
  proof (cases "xs = []")
    case True
    with "1.prems" show ?thesis by simp
  next
    case False
    have IH: "length (chunks n (drop n xs)) = (length xs - n + n - 1) div n"
      using "1.IH" "1.prems" False by simp
    show ?thesis
    proof (cases "n \<le> length xs")
      case True
      then have "(length xs + n - 1) div n = Suc ((length xs - n + n - 1) div n)"
        using "1.prems" by (simp add: le_div_geq)
      then show ?thesis using IH "1.prems" False by (simp add: chunks_step)
    next
      case short: False
      then have "(length xs + n - 1) div n = 1"
        using False by (cases xs) (auto simp: div_if)
      then show ?thesis using short False "1.prems" by (simp add: chunks_step)
    qed
  qed
qed

lemma nth_chunks:
  "0 < n \<Longrightarrow> i < length (chunks n xs) \<Longrightarrow> chunks n xs ! i = take n (drop (i * n) xs)"
proof (induction i arbitrary: xs)
  case 0
  then show ?case by (cases "xs = []") (simp_all add: chunks_step)
next
  case (Suc i)
  then have "xs \<noteq> []" by auto
  with Suc show ?case by (simp add: chunks_step add.commute)
qed

section \<open>Error numbers\<close>

text \<open>The values of Zephyr's minimal C library.\<close>

definition EAGAIN :: int where "EAGAIN = 11"
definition ENOMEM :: int where "ENOMEM = 12"
definition ENODEV :: int where "ENODEV = 19"
definition EINVAL :: int where "EINVAL = 22"
definition ENOSPC :: int where "ENOSPC = 28"
definition ETIMEDOUT :: int where "ETIMEDOUT = 116"
definition EMSGSIZE :: int where "EMSGSIZE = 122"

lemmas errno_defs = EAGAIN_def ENOMEM_def ENODEV_def EINVAL_def ENOSPC_def ETIMEDOUT_def EMSGSIZE_def

text \<open>What the format \<^verbatim>\<open>%d\<close> makes of a natural number.\<close>

fun decimal :: "nat \<Rightarrow> string" where
  "decimal n = (if n < 10 then [char_of (48 + n)] else decimal (n div 10) @ [char_of (48 + n mod 10)])"

declare decimal.simps [simp del]

section \<open>State machines\<close>

text \<open>
  The contract every component with a state invariant offers: one step keeps the invariant. A
  run is a fold of the step function over a list of events.
\<close>

locale invariant_machine =
  fixes step :: "'s \<Rightarrow> 'e \<Rightarrow> 's"
    and inv :: "'s \<Rightarrow> bool"
  assumes step_inv: "inv s \<Longrightarrow> inv (step s e)"
begin

lemma run_inv: "inv s \<Longrightarrow> inv (foldl step s es)"
  by (induction es arbitrary: s) (auto intro: step_inv)

lemma run_prefix_inv: "inv s \<Longrightarrow> inv (foldl step s (take n es))"
  by (rule run_inv)

end

text \<open>Steps that can fault: the run stops at the first fault.\<close>

fun res_run :: "('s \<Rightarrow> 'e \<Rightarrow> 's res) \<Rightarrow> 's \<Rightarrow> 'e list \<Rightarrow> 's res" where
  "res_run step s [] = Inr s"
| "res_run step s (e # es) = res_bind (step s e) (\<lambda>s'. res_run step s' es)"

lemma res_run_append: "res_run step s (es @ es') = res_bind (res_run step s es) (\<lambda>s'. res_run step s' es')"
proof (induction es arbitrary: s)
  case Nil
  then show ?case by simp
next
  case (Cons e es)
  then show ?case by (cases "step s e") simp_all
qed

text \<open>
  The weaker contract: a step keeps the invariant or stops with one of the allowed faults.
\<close>

locale fallible_machine =
  fixes step :: "'s \<Rightarrow> 'e \<Rightarrow> 's res"
    and inv :: "'s \<Rightarrow> bool"
    and ok_event :: "'e \<Rightarrow> bool"
    and allowed :: "fault \<Rightarrow> bool"
  assumes step_ok: "inv s \<Longrightarrow> ok_event e \<Longrightarrow> step s e = Inr s' \<Longrightarrow> inv s'"
    and step_fault: "inv s \<Longrightarrow> ok_event e \<Longrightarrow> step s e = Inl x \<Longrightarrow> allowed x"
begin

lemma run_ok: "inv s \<Longrightarrow> list_all ok_event es \<Longrightarrow> res_run step s es = Inr s' \<Longrightarrow> inv s'"
proof (induction es arbitrary: s)
  case Nil
  then show ?case by simp
next
  case (Cons e es)
  then obtain u where "step s e = Inr u" "res_run step u es = Inr s'"
    by (auto simp: res_bind_Inr_iff)
  with Cons show ?case by (auto intro: step_ok)
qed

lemma run_fault: "inv s \<Longrightarrow> list_all ok_event es \<Longrightarrow> res_run step s es = Inl x \<Longrightarrow> allowed x"
proof (induction es arbitrary: s)
  case Nil
  then show ?case by simp
next
  case (Cons e es)
  show ?case
  proof (cases "step s e")
    case (Inl y)
    then show ?thesis using Cons.prems by (auto intro: step_fault)
  next
    case (Inr u)
    then show ?thesis using Cons by (auto intro: step_ok)
  qed
qed

lemma run_total:
  assumes "inv s" and "list_all ok_event es" and "\<And>x. \<not> allowed x"
  shows "\<exists>s'. res_run step s es = Inr s' \<and> inv s'"
  using assms run_fault run_ok by (cases "res_run step s es") blast+

end

text \<open>
  The exact contract: in a state with the invariant, a step faults if and only if \<open>bad\<close> says so,
  and otherwise keeps the invariant.
\<close>

locale guarded_machine =
  fixes step :: "'s \<Rightarrow> 'e \<Rightarrow> 's res"
    and inv :: "'s \<Rightarrow> bool"
    and ok_event :: "'e \<Rightarrow> bool"
    and bad :: "'s \<Rightarrow> 'e \<Rightarrow> bool"
  assumes guarded_ok: "inv s \<Longrightarrow> ok_event e \<Longrightarrow> step s e = Inr s' \<Longrightarrow> inv s'"
    and guarded_fault: "inv s \<Longrightarrow> ok_event e \<Longrightarrow> isl (step s e) \<longleftrightarrow> bad s e"
begin

lemma run_inv: "inv s \<Longrightarrow> list_all ok_event es \<Longrightarrow> res_run step s es = Inr s' \<Longrightarrow> inv s'"
proof (induction es arbitrary: s)
  case (Cons e es)
  then obtain u where "step s e = Inr u" "res_run step u es = Inr s'"
    by (auto simp: res_bind_Inr_iff)
  with Cons show ?case by (auto intro: guarded_ok)
qed simp

text \<open>A run faults exactly when it reaches a state in which the next event is bad.\<close>

lemma run_fault_iff:
  assumes "inv s" and "list_all ok_event es"
  shows "isl (res_run step s es) \<longleftrightarrow>
    (\<exists>n < length es. \<exists>u. res_run step s (take n es) = Inr u \<and> bad u (es ! n))"
  using assms
proof (induction es arbitrary: s)
  case (Cons e es)
  show ?case
  proof (cases "step s e")
    case (Inl x)
    then have "bad s e" using guarded_fault [of s e] Cons.prems by simp
    then show ?thesis using Inl by auto
  next
    case (Inr t)
    then have "\<not> bad s e" "inv t" using guarded_fault [of s e] guarded_ok Cons.prems by auto
    then show ?thesis using Cons.IH [of t] Cons.prems(2) Inr by (auto simp: less_Suc_eq_0_disj)
  qed
qed simp

end

sublocale invariant_machine \<subseteq> total: fallible_machine "\<lambda>s e. Inr (step s e)" inv "\<lambda>_. True" "\<lambda>_. False"
  by unfold_locales (auto intro: step_inv)

section \<open>Registration tables\<close>

text \<open>
  Nine components keep a fixed array and a count of live entries, and register by writing the
  next free entry when there is one. The contract is over the list of live entries.
\<close>

locale bounded_table =
  fixes cap :: nat
    and items :: "'s \<Rightarrow> 'a list"
    and register :: "'a \<Rightarrow> 's \<Rightarrow> 's"
  assumes register_free: "length (items s) < cap \<Longrightarrow> items (register a s) = items s @ [a]"
    and register_full: "cap \<le> length (items s) \<Longrightarrow> items (register a s) = items s"
begin

lemma register_bound: "length (items s) \<le> cap \<Longrightarrow> length (items (register a s)) \<le> cap"
  by (cases "length (items s) < cap") (simp_all add: register_free register_full)

text \<open>Registrations are kept in order until the table is full; the rest is dropped.\<close>

lemma fold_register:
  "length (items s) \<le> cap \<Longrightarrow>
     items (fold register as s) = items s @ take (cap - length (items s)) as"
proof (induction as arbitrary: s)
  case Nil
  then show ?case by simp
next
  case (Cons a as)
  note IH = Cons.IH [OF register_bound [OF Cons.prems]]
  show ?case
  proof (cases "length (items s) < cap")
    case True
    then have "cap - length (items s) = Suc (cap - Suc (length (items s)))" by simp
    then show ?thesis using IH True by (simp add: register_free)
  next
    case False
    then show ?thesis using IH Cons.prems by (simp add: register_full)
  qed
qed

lemma fold_register_bound:
  "length (items s) \<le> cap \<Longrightarrow> length (items (fold register as s)) \<le> cap"
  by (simp add: fold_register)

lemma fold_register_fits:
  "length (items s) + length as \<le> cap \<Longrightarrow> items (fold register as s) = items s @ as"
  by (simp add: fold_register)

end

end
