(* ===== verification/Binary32.thy ===== *)
theory Binary32
  imports Prelude
begin

text \<open>
  The \<^verbatim>\<open>float\<close> of the target, IEEE 754 binary32, as its 32 bits: decoding to an exact integer
  (the value in units of \<open>2 ^ -149\<close>), comparison, the conversion of small natural numbers, and the
  little-endian bytes \<^verbatim>\<open>memcpy\<close> moves in and out of frames.
\<close>

type_synonym f32 = u32

definition f32_sign :: "f32 \<Rightarrow> bool" where "f32_sign b \<longleftrightarrow> 2 ^ 31 \<le> unat b"
definition f32_exp :: "f32 \<Rightarrow> nat" where "f32_exp b = unat b div 2 ^ 23 mod 256"
definition f32_frac :: "f32 \<Rightarrow> nat" where "f32_frac b = unat b mod 2 ^ 23"

definition f32_is_nan :: "f32 \<Rightarrow> bool" where
  "f32_is_nan b \<longleftrightarrow> f32_exp b = 255 \<and> f32_frac b \<noteq> 0"

text \<open>The magnitude in units of \<open>2 ^ -149\<close>; the infinities come out larger than every finite value.\<close>

definition f32_magnitude :: "f32 \<Rightarrow> nat" where
  "f32_magnitude b = (if f32_exp b = 0 then f32_frac b else (2 ^ 23 + f32_frac b) * 2 ^ (f32_exp b - 1))"

definition f32_scaled :: "f32 \<Rightarrow> int" where
  "f32_scaled b = (if f32_sign b then - int (f32_magnitude b) else int (f32_magnitude b))"

definition f32_less :: "f32 \<Rightarrow> f32 \<Rightarrow> bool" where
  "f32_less a b \<longleftrightarrow> \<not> f32_is_nan a \<and> \<not> f32_is_nan b \<and> f32_scaled a < f32_scaled b"

section \<open>Naturals below \<open>2 ^ 24\<close>\<close>

fun log2_floor :: "nat \<Rightarrow> nat" where
  "log2_floor n = (if n < 2 then 0 else Suc (log2_floor (n div 2)))"

declare log2_floor.simps [simp del]

definition f32_of_nat :: "nat \<Rightarrow> f32" where
  "f32_of_nat n =
     (if n = 0 then 0
      else let e = log2_floor n in word_of_nat ((127 + e) * 2 ^ 23 + (n * 2 ^ (23 - e) - 2 ^ 23)))"

lemma log2_floor_bounds: "0 < n \<Longrightarrow> 2 ^ log2_floor n \<le> n \<and> n < 2 ^ (log2_floor n + 1)"
proof (induction n rule: log2_floor.induct)
  case (1 n)
  show ?case
  proof (cases "n < 2")
    case True
    then show ?thesis using "1.prems" by (simp add: log2_floor.simps)
  next
    case False
    then have "2 ^ log2_floor (n div 2) \<le> n div 2 \<and> n div 2 < 2 ^ (log2_floor (n div 2) + 1)"
      using "1.IH" by simp
    then show ?thesis using False by (simp add: log2_floor.simps [of n]) linarith
  qed
qed

lemma log2_floor_small: "0 < n \<Longrightarrow> n < 2 ^ 24 \<Longrightarrow> log2_floor n \<le> 23"
proof -
  assume n: "0 < n" "n < 2 ^ 24"
  have "(2::nat) ^ log2_floor n < 2 ^ 24" using log2_floor_bounds [OF n(1)] n(2) by linarith
  then have "\<not> 24 \<le> log2_floor n"
    using power_increasing [of 24 "log2_floor n" "2::nat"] by linarith
  then show ?thesis by simp
qed

text \<open>The conversion is exact.\<close>

lemma f32_of_nat_exact:
  assumes "n < 2 ^ 24"
  shows "f32_scaled (f32_of_nat n) = int n * 2 ^ 149" and "\<not> f32_is_nan (f32_of_nat n)"
proof -
  have "f32_scaled (f32_of_nat n) = int n * 2 ^ 149 \<and> \<not> f32_is_nan (f32_of_nat n)"
  proof (cases "n = 0")
    case True
    then show ?thesis
      by (simp add: f32_of_nat_def f32_scaled_def f32_magnitude_def f32_exp_def f32_frac_def f32_sign_def f32_is_nan_def)
  next
    case False
    define e where "e = log2_floor n"
    define m where "m = n * 2 ^ (23 - e) - 2 ^ 23"
    have e: "e \<le> 23" using False assms log2_floor_small by (simp add: e_def)
    have lo: "2 ^ e \<le> n" and hi: "n < 2 * 2 ^ e" using False log2_floor_bounds [of n] by (simp_all add: e_def)
    have two: "(2::nat) ^ e * 2 ^ (23 - e) = 2 ^ 23" using e by (simp flip: power_add)
    have lo': "2 ^ 23 \<le> n * 2 ^ (23 - e)" using mult_le_mono1 [OF lo, of "2 ^ (23 - e)"] two by simp
    have "n * 2 ^ (23 - e) < 2 * 2 ^ e * 2 ^ (23 - e)" using hi by simp
    then have hi': "n * 2 ^ (23 - e) < 2 * 2 ^ 23" using two by (simp only: mult.assoc)
    have m: "m < 2 ^ 23" "2 ^ 23 + m = n * 2 ^ (23 - e)" using lo' hi' by (simp_all add: m_def)
    have b: "f32_of_nat n = word_of_nat ((127 + e) * 2 ^ 23 + m)" using False by (simp add: f32_of_nat_def e_def m_def Let_def)
    have "(127 + e) * 2 ^ 23 + m < 2 ^ 31" using e m(1) by simp
    then have u: "unat (f32_of_nat n) = (127 + e) * 2 ^ 23 + m" and s: "\<not> f32_sign (f32_of_nat n)"
      using unat_of_nat_u32 [of "(127 + e) * 2 ^ 23 + m"] by (simp_all add: b f32_sign_def)
    have x: "f32_exp (f32_of_nat n) = 127 + e" "f32_frac (f32_of_nat n) = m"
      using m(1) e mod_mult_self3 [of "127 + e" "2 ^ 23" m] div_mult_self3 [of "2 ^ 23" "127 + e" m]
      by (simp_all only: f32_exp_def f32_frac_def u) simp_all
    have "2 ^ (23 - e) * 2 ^ (126 + e) = (2::nat) ^ 149" using e by (simp flip: power_add)
    moreover have "f32_magnitude (f32_of_nat n) = (2 ^ 23 + m) * 2 ^ (126 + e)"
      by (simp add: f32_magnitude_def x)
    ultimately have "f32_magnitude (f32_of_nat n) = n * 2 ^ 149"
      by (simp only: m(2) mult.assoc)
    then show ?thesis using e by (simp add: f32_scaled_def s f32_is_nan_def x)
  qed
  then show "f32_scaled (f32_of_nat n) = int n * 2 ^ 149" and "\<not> f32_is_nan (f32_of_nat n)" by simp_all
qed

section \<open>Bytes\<close>

definition f32_of_bytes :: "bytes \<Rightarrow> f32" where
  "f32_of_bytes b = word_of_nat (unat (b ! 0) + 2 ^ 8 * unat (b ! 1) + 2 ^ 16 * unat (b ! 2) + 2 ^ 24 * unat (b ! 3))"

definition bytes_of_f32 :: "f32 \<Rightarrow> bytes" where
  "bytes_of_f32 x = map (\<lambda>i. word_of_nat (unat x div 2 ^ (8 * i) mod 256)) [0..<4]"

lemma length_bytes_of_f32 [simp]: "length (bytes_of_f32 x) = 4"
  by (simp add: bytes_of_f32_def)

lemma f32_bytes_inverse: "f32_of_bytes (bytes_of_f32 x @ r) = x"
proof -
  have digits: "n mod 256 + 2 ^ 8 * (n div 2 ^ 8 mod 256) + 2 ^ 16 * (n div 2 ^ 16 mod 256) + 2 ^ 24 * (n div 2 ^ 24 mod 256) = n"
    if "n < 2 ^ 32" for n :: nat
  proof -
    have 1: "n div 16777216 mod 256 = n div 16777216" using that by (simp add: less_mult_imp_div_less)
    have 2: "n div 65536 mod 256 + 256 * (n div 16777216) = n div 65536"
      using div_mult2_eq [of n 65536 256] mod_mult_div_eq [of "n div 65536" 256] by simp
    have 3: "n div 256 mod 256 + 256 * (n div 65536) = n div 256"
      using div_mult2_eq [of n 256 256] mod_mult_div_eq [of "n div 256" 256] by simp
    have 4: "n mod 256 + 256 * (n div 256) = n" by simp
    have "n mod 256 + 256 * (n div 256 mod 256) + 65536 * (n div 65536 mod 256) + 16777216 * (n div 16777216 mod 256) = n"
      using 1 2 3 4 by linarith
    then show ?thesis using 1 by simp
  qed
  have u: "unat (word_of_nat (k mod 256) :: u8) = k mod 256" for k by (simp add: unat_of_nat_small)
  have nth: "(bytes_of_f32 x @ r) ! i = word_of_nat (unat x div 2 ^ (8 * i) mod 256)" if "i < 4" for i
    using that by (simp add: bytes_of_f32_def nth_append)
  have "f32_of_bytes (bytes_of_f32 x @ r) = word_of_nat (unat x mod 256 + 2 ^ 8 * (unat x div 2 ^ 8 mod 256) +
      2 ^ 16 * (unat x div 2 ^ 16 mod 256) + 2 ^ 24 * (unat x div 2 ^ 24 mod 256))"
    using nth [of 0] nth [of 1] nth [of 2] nth [of 3] by (simp only: f32_of_bytes_def u) simp
  also have "\<dots> = word_of_nat (unat x)" by (subst digits) simp_all
  finally show ?thesis by simp
qed

end
