(* ===== verification/Can_Bus.thy ===== *)
theory Can_Bus
  imports Prelude
begin

text \<open>
  The CAN bus as the firmware sees it: the frame of \<^verbatim>\<open>struct can_frame\<close>, the identifiers of
  \<^verbatim>\<open>common/can_protocol/can_ids.h\<close>, the driver call \<^verbatim>\<open>can_send\<close> of Zephyr as a parameter, the
  helpers of \<^verbatim>\<open>common/sensor_utils/sensor_common.c\<close> and \<^verbatim>\<open>common/can_protocol/can_fd.c\<close>.
\<close>

section \<open>Frames and the driver\<close>

text \<open>
  No project file sets \<^verbatim>\<open>CONFIG_CAN_FD_MODE\<close>, so the data array of a frame has eight bytes. A
  frame that reaches a routine through a pointer carries its array with it: the length of
  \<open>fdata\<close> is the size of that array.
\<close>

definition CAN_MAX_DLEN :: nat where "CAN_MAX_DLEN = 8"

record can_frame =
  fid :: u32
  dlc :: u8
  fflags :: u8
  fdata :: bytes

definition wf_frame :: "can_frame \<Rightarrow> bool" where
  "wf_frame f \<longleftrightarrow> length (fdata f) = CAN_MAX_DLEN"

definition CAN_FRAME_IDE :: u8 where "CAN_FRAME_IDE = 1"
definition CAN_FRAME_FDF :: u8 where "CAN_FRAME_FDF = 4"

text \<open>
  What the outside can observe: the uptime in milliseconds and the frames handed to the driver,
  each with the time of the call. \<^verbatim>\<open>k_sleep\<close> lets the clock run; \<^verbatim>\<open>k_uptime_get_32\<close> reads it
  modulo \<open>2 ^ 32\<close>.
\<close>

record world =
  uptime :: nat
  bus_log :: "(nat \<times> can_frame) list"

definition k_sleep :: "nat \<Rightarrow> world \<Rightarrow> world" where
  "k_sleep ms w = w\<lparr>uptime := uptime w + ms\<rparr>"

definition k_uptime_get_32 :: "world \<Rightarrow> u32" where
  "k_uptime_get_32 w = word_of_nat (uptime w)"

text \<open>
  The CAN controller and its driver are outside the repository: a device answers a frame with
  the driver's return code, which may depend on everything sent before.
\<close>

type_synonym can_dev = "(nat \<times> can_frame) list \<Rightarrow> can_frame \<Rightarrow> int"

definition can_send :: "can_dev \<Rightarrow> can_frame \<Rightarrow> world \<Rightarrow> int \<times> world" where
  "can_send dev f w = (dev (bus_log w) f, w\<lparr>bus_log := bus_log w @ [(uptime w, f)]\<rparr>)"

section \<open>The transmit interface\<close>

text \<open>
  What the protocol layers rely on: a send adds exactly its frame to what the bus has seen, and
  waiting adds nothing.
\<close>

locale can_tx =
  fixes tx :: "'f \<Rightarrow> 'w \<Rightarrow> int \<times> 'w"
    and wait :: "nat \<Rightarrow> 'w \<Rightarrow> 'w"
    and frames :: "'w \<Rightarrow> 'f list"
    and clock :: "'w \<Rightarrow> nat"
  assumes frames_tx: "frames (snd (tx f w)) = frames w @ [f]"
    and clock_tx: "clock (snd (tx f w)) = clock w"
    and frames_wait: "frames (wait n w) = frames w"
    and clock_wait: "clock (wait n w) = clock w + n"
begin

lemmas tx_simps = frames_tx clock_tx frames_wait clock_wait

text \<open>A paced burst: every frame followed by the same gap.\<close>

lemma paced_burst:
  "frames (fold (\<lambda>f w. wait n (snd (tx f w))) fs w) = frames w @ fs \<and>
   clock (fold (\<lambda>f w. wait n (snd (tx f w))) fs w) = clock w + n * length fs"
  by (induction fs arbitrary: w) (simp_all add: tx_simps)

end

definition sent_frames :: "world \<Rightarrow> can_frame list" where
  "sent_frames w = map snd (bus_log w)"

interpretation bus: can_tx "can_send dev" k_sleep sent_frames uptime
  by unfold_locales (simp_all add: can_send_def k_sleep_def sent_frames_def)

lemma bus_log_can_send [simp]:
  "bus_log (snd (can_send dev f w)) = bus_log w @ [(uptime w, f)]"
  "fst (can_send dev f w) = dev (bus_log w) f"
  "uptime (snd (can_send dev f w)) = uptime w"
  by (simp_all add: can_send_def)

lemma k_sleep_simps [simp]:
  "bus_log (k_sleep n w) = bus_log w"
  "uptime (k_sleep n w) = uptime w + n"
  by (simp_all add: k_sleep_def)

section \<open>Message identifiers\<close>

definition CAN_ID_BATTERY :: u32 where "CAN_ID_BATTERY = 0x51"
definition CAN_ID_COLLISION :: u32 where "CAN_ID_COLLISION = 0x52"
definition CAN_ID_TEMP :: u32 where "CAN_ID_TEMP = 0x53"
definition CAN_ID_GPS :: u32 where "CAN_ID_GPS = 0x54"
definition CAN_ID_BRAKE :: u32 where "CAN_ID_BRAKE = 0x55"
definition CAN_ID_TPMS :: u32 where "CAN_ID_TPMS = 0x56"
definition CAN_ID_SPEED :: u32 where "CAN_ID_SPEED = 0x57"

lemmas can_id_defs = CAN_ID_BATTERY_def CAN_ID_COLLISION_def CAN_ID_TEMP_def CAN_ID_GPS_def
  CAN_ID_BRAKE_def CAN_ID_TPMS_def CAN_ID_SPEED_def

section \<open>Sensor helpers\<close>

datatype node_error = NODE_SUCCESS | NODE_ERROR_CAN_INIT | NODE_ERROR_SENSOR_INIT | NODE_ERROR_TASK_CREATE

definition sensor_init :: "bool \<Rightarrow> node_error" where
  "sensor_init device_is_ready = (if \<not> device_is_ready then NODE_ERROR_SENSOR_INIT else NODE_SUCCESS)"

text \<open>The frame is zero-initialised by its designated initialiser.\<close>

definition send_sensor_data ::
  "can_dev \<Rightarrow> u32 \<Rightarrow> bytes \<Rightarrow> u8 \<Rightarrow> world \<Rightarrow> (int \<times> world) res" where
  "send_sensor_data dev can_id data len w =
     res_bind (mem_read data 0 (unat len)) (\<lambda>src.
     res_bind (memcpy_at (replicate CAN_MAX_DLEN 0) 0 src) (\<lambda>d.
       Inr (can_send dev \<lparr>fid = can_id, dlc = len, fflags = 0, fdata = d\<rparr> w)))"

lemma send_sensor_data_ok:
  assumes "unat len = length data" and "length data \<le> 8"
  shows "send_sensor_data dev i data len w =
    Inr (can_send dev \<lparr>fid = i, dlc = len, fflags = 0,
                       fdata = data @ replicate (8 - length data) 0\<rparr> w)"
  using assms by (simp add: send_sensor_data_def mem_simps CAN_MAX_DLEN_def)

section \<open>CAN FD frames\<close>

record can_fd_frame =
  fd_id :: u32
  fd_flags :: u8
  fd_len :: u8
  fd_data :: bytes

text \<open>The calls of \<^verbatim>\<open>can_fd_init\<close> to the driver; their results are dropped.\<close>

record can_timing =
  sjw :: nat
  prop_seg :: nat
  phase_seg1 :: nat
  phase_seg2 :: nat
  prescaler :: nat

datatype can_setup = Set_Timing can_timing | Set_Mode_FD

definition can_fd_init :: "int \<times> can_setup list" where
  "can_fd_init =
     (0, [Set_Timing \<lparr>sjw = 1, prop_seg = 0, phase_seg1 = 15, phase_seg2 = 4, prescaler = 1\<rparr>, Set_Mode_FD])"

text \<open>
  \<open>junk\<close> is the content of the uninitialised local frame before the copy.
\<close>

definition can_fd_send :: "can_dev \<Rightarrow> bytes \<Rightarrow> can_fd_frame \<Rightarrow> world \<Rightarrow> (int \<times> world) res" where
  "can_fd_send dev junk frame w =
     res_bind (mem_read (fd_data frame) 0 (unat (fd_len frame))) (\<lambda>src.
     res_bind (memcpy_at junk 0 src) (\<lambda>d.
       Inr (can_send dev \<lparr>fid = fd_id frame, dlc = fd_len frame,
                          fflags = CAN_FRAME_FDF OR fd_flags frame, fdata = d\<rparr> w)))"

lemma can_fd_send_overflow:
  assumes "length junk = CAN_MAX_DLEN" and "8 < unat (fd_len frame)"
  shows "can_fd_send dev junk frame w = Inl Out_Of_Bounds"
  using assms
  by (auto simp: can_fd_send_def mem_read_def memcpy_at_def CAN_MAX_DLEN_def)

end
