(* ===== verification/Can_Auth.thy ===== *)
theory Can_Auth
  imports Can_Bus
begin

text \<open>
  Message authentication of \<^verbatim>\<open>common/security/can_auth.c\<close>: a CMAC over the identifier and the
  payload, truncated to eight bytes and appended to the data array of the frame. The CMAC of
  mbedTLS is the parameter \<open>cmac\<close>: key and message to a block of sixteen bytes.
\<close>

definition MAC_LENGTH :: nat where "MAC_LENGTH = 8"

definition auth_key :: bytes where
  "auth_key = [0x01, 0x23, 0x45, 0x67, 0x89, 0xAB, 0xCD, 0xEF,
               0xFE, 0xDC, 0xBA, 0x98, 0x76, 0x54, 0x32, 0x10]"

text \<open>The four bytes of the identifier as they lie in the memory of a little-endian target.\<close>

definition id_bytes :: "u32 \<Rightarrow> bytes" where
  "id_bytes x = [ucast x, ucast (drop_bit 8 x), ucast (drop_bit 16 x), ucast (drop_bit 24 x)]"

type_synonym cmac_fn = "bytes \<Rightarrow> bytes \<Rightarrow> bytes"

definition authenticate_can_message :: "cmac_fn \<Rightarrow> can_frame \<Rightarrow> (int \<times> can_frame) res" where
  "authenticate_can_message cmac f =
     res_bind (mem_read (fdata f) 0 (unat (dlc f))) (\<lambda>payload.
     res_bind (mem_read (cmac auth_key (id_bytes (fid f) @ payload)) 0 MAC_LENGTH) (\<lambda>mac.
     res_bind (memcpy_at (fdata f) (unat (dlc f)) mac) (\<lambda>d.
       Inr (0, f\<lparr>fdata := d, dlc := dlc f + word_of_nat MAC_LENGTH\<rparr>))))"

definition verify_can_message :: "cmac_fn \<Rightarrow> can_frame \<Rightarrow> (int \<times> can_frame) res" where
  "verify_can_message cmac f =
     (let n = dlc f - word_of_nat MAC_LENGTH in
     res_bind (mem_read (fdata f) (unat n) MAC_LENGTH) (\<lambda>received_mac.
     res_bind (mem_read (fdata f) 0 (unat n)) (\<lambda>payload.
     res_bind (mem_read (cmac auth_key (id_bytes (fid f) @ payload)) 0 MAC_LENGTH) (\<lambda>mac.
       Inr (if mac = received_mac then 0 else -1, f\<lparr>dlc := n\<rparr>)))))"

lemmas auth_defs = authenticate_can_message_def verify_can_message_def MAC_LENGTH_def

text \<open>\<open>frame_payload f\<close> is what the receiver takes as the data of a frame.\<close>

definition frame_payload :: "can_frame \<Rightarrow> bytes" where
  "frame_payload f = take (unat (dlc f)) (fdata f)"

definition frame_tag :: "cmac_fn \<Rightarrow> can_frame \<Rightarrow> bytes" where
  "frame_tag cmac f = take MAC_LENGTH (cmac auth_key (id_bytes (fid f) @ frame_payload f))"

lemma unat_dlc_minus_mac:
  "8 \<le> unat (n :: u8) \<Longrightarrow> unat (n - 8) = unat n - 8"
  by (subst unat_sub) (simp_all add: word_le_nat_alt)

lemma unat_dlc_plus_mac:
  "unat (n :: u8) + 8 < 256 \<Longrightarrow> unat (n + 8) = unat n + 8"
  by (simp add: unat_word_ariths)

lemma short_dlc_wraps: "unat (n :: u8) < 8 \<Longrightarrow> 248 \<le> unat (n - 8)"
  by (simp add: unat_sub_if_size word_size word_le_nat_alt)

lemma authenticate_ok:
  assumes "\<And>k m. length (cmac k m) = 16"
    and "unat (dlc f) + 8 \<le> length (fdata f)"
  shows "authenticate_can_message cmac f =
    Inr (0, f\<lparr>fdata := frame_payload f @ frame_tag cmac f @ drop (unat (dlc f) + 8) (fdata f),
              dlc := dlc f + 8\<rparr>)"
  using assms by (simp add: auth_defs mem_simps frame_payload_def frame_tag_def min_def)

lemma authenticate_overflow:
  assumes "\<And>k m. length (cmac k m) = 16"
    and "unat (dlc f) \<le> length (fdata f)" and "length (fdata f) < unat (dlc f) + 8"
  shows "authenticate_can_message cmac f = Inl Out_Of_Bounds"
  using assms by (simp add: auth_defs mem_simps)

lemma verify_ok:
  assumes "\<And>k m. length (cmac k m) = 16"
    and "8 \<le> unat (dlc f)" and "unat (dlc f) \<le> length (fdata f)"
  shows "verify_can_message cmac f =
    Inr (if take 8 (drop (unat (dlc f) - 8) (fdata f)) = frame_tag cmac (f\<lparr>dlc := dlc f - 8\<rparr>)
         then 0 else -1, f\<lparr>dlc := dlc f - 8\<rparr>)"
  using assms
  by (auto simp: auth_defs Let_def mem_simps unat_dlc_minus_mac frame_payload_def frame_tag_def)

lemma verify_short_faults:
  assumes "unat (dlc f) < 8" and "length (fdata f) < 256"
  shows "verify_can_message cmac f = Inl Out_Of_Bounds"
  using assms short_dlc_wraps [OF assms(1)]
  by (simp add: auth_defs Let_def mem_read_def)

text \<open>C20: A frame with room for the tag that was authenticated passes verification, and the receiver
  gets back the identifier and the payload that were authenticated.\<close>

theorem authenticate_verify_roundtrip:
  assumes mac: "\<And>k m. length (cmac k m) = 16"
    and room: "unat (dlc f) + 8 \<le> length (fdata f)" "length (fdata f) < 256"
    and auth: "authenticate_can_message cmac f = Inr (rc, g)"
  shows "\<exists>h. verify_can_message cmac g = Inr (0, h) \<and> dlc h = dlc f \<and>
             fid h = fid f \<and> frame_payload h = frame_payload f"
proof -
  note auth' = auth [unfolded authenticate_ok [OF mac room(1)]]
  have pl: "length (frame_payload f) = unat (dlc f)" and tg: "length (frame_tag cmac f) = 8"
    using room mac by (simp_all add: frame_payload_def frame_tag_def MAC_LENGTH_def)
  have g: "dlc g = dlc f + 8" "fid g = fid f"
      "fdata g = frame_payload f @ frame_tag cmac f @ drop (unat (dlc f) + 8) (fdata f)"
    using auth' by auto
  have n: "unat (dlc g) = unat (dlc f) + 8"
    using g room by (simp add: unat_dlc_plus_mac)
  have h: "frame_payload (g\<lparr>dlc := dlc g - 8\<rparr>) = frame_payload f"
    using g pl by (simp add: frame_payload_def)
  have tag: "frame_tag cmac (g\<lparr>dlc := dlc g - 8\<rparr>) = frame_tag cmac f"
    using h g(2) by (simp add: frame_tag_def)
  have "verify_can_message cmac g = Inr (0, g\<lparr>dlc := dlc g - 8\<rparr>)"
    using n g pl tg tag room verify_ok [OF mac, of g] by simp
  then show ?thesis using g h by simp
qed

theorem authenticate_verify_roundtrip_witness:
  "\<exists>h. verify_can_message (\<lambda>k m. replicate 16 (last m))
      \<lparr>fid = 0x55, dlc = 10, fflags = 4, fdata = [1, 2] @ replicate 8 2 @ replicate 54 0\<rparr> = Inr (0, h) \<and>
    dlc h = 2 \<and> frame_payload h = [1, 2]"
proof -
  have "authenticate_can_message (\<lambda>k m. replicate 16 (last m))
      \<lparr>fid = 0x55, dlc = 2, fflags = 4, fdata = [1, 2] @ replicate 62 0\<rparr> =
    Inr (0, \<lparr>fid = 0x55, dlc = 10, fflags = 4, fdata = [1, 2] @ replicate 8 2 @ replicate 54 0\<rparr>)"
    by (simp add: auth_defs mem_simps)
  from authenticate_verify_roundtrip [OF _ _ _ this] show ?thesis
    by (auto simp: frame_payload_def)
qed

text \<open>C21: Verification is sound: a frame it accepts is exactly what authentication makes of the
  stripped frame it returns, tag and all.\<close>

theorem verify_accepts_only_authenticated:
  assumes mac: "\<And>k m. length (cmac k m) = 16"
    and room: "8 \<le> unat (dlc f)" "unat (dlc f) \<le> length (fdata f)"
    and ok: "verify_can_message cmac f = Inr (0, h)"
  shows "authenticate_can_message cmac h = Inr (0, f)"
proof -
  have h: "h = f\<lparr>dlc := dlc f - 8\<rparr>"
    and tag: "take 8 (drop (unat (dlc f) - 8) (fdata f)) = frame_tag cmac h"
    using ok unfolding verify_ok [OF mac room] by (auto split: if_splits)
  have n: "unat (dlc h) = unat (dlc f) - 8" using h room by (simp add: unat_dlc_minus_mac)
  have "fdata f = take (unat (dlc h)) (fdata f) @ take 8 (drop (unat (dlc h)) (fdata f)) @
      drop (unat (dlc h) + 8) (fdata f)"
    by (metis add.commute append_take_drop_id drop_drop)
  then have "frame_payload h @ frame_tag cmac h @ drop (unat (dlc h) + 8) (fdata h) = fdata f"
    using tag n h by (simp add: frame_payload_def)
  moreover have "unat (dlc h) + 8 \<le> length (fdata h)" using n h room by simp
  ultimately show ?thesis using authenticate_ok [OF mac, of h] h by simp
qed

theorem verify_accepts_only_authenticated_witness:
  "authenticate_can_message (\<lambda>k m. replicate 16 (last m))
      \<lparr>fid = 0x55, dlc = 2, fflags = 4, fdata = [1, 2] @ replicate 8 2\<rparr> =
    Inr (0, \<lparr>fid = 0x55, dlc = 10, fflags = 4, fdata = [1, 2] @ replicate 8 2\<rparr>)"
  by (rule verify_accepts_only_authenticated) (simp_all add: auth_defs mem_simps Let_def)

text \<open>On a classic frame with its eight data bytes the scheme leaves no room for a payload:
  authentication stays inside the frame only when the frame is empty, and verification only when
  all eight bytes are the tag; a shorter frame makes the unsigned length wrap and the tag is read
  far behind the frame.\<close>

lemma classic_frame_has_no_room:
  assumes "\<And>k m. length (cmac k m) = 16" and "wf_frame f"
  shows "((\<exists>r. authenticate_can_message cmac f = Inr r) \<longleftrightarrow> dlc f = 0) \<and>
    ((\<exists>r. verify_can_message cmac f = Inr r) \<longleftrightarrow> dlc f = 8)"
proof -
  have len: "length (fdata f) = 8" using assms(2) by (simp add: wf_frame_def CAN_MAX_DLEN_def)
  have "(\<exists>r. authenticate_can_message cmac f = Inr r) \<longleftrightarrow> dlc f = 0"
  proof (cases "dlc f = 0")
    case False
    then have "0 < unat (dlc f)" by (simp add: unat_gt_0)
    then show ?thesis
      using False len assms(1) by (auto simp: auth_defs mem_read_def memcpy_at_def)
  qed (use authenticate_ok [OF assms(1), of f] len in simp)
  moreover have "(\<exists>r. verify_can_message cmac f = Inr r) \<longleftrightarrow> dlc f = 8"
  proof (cases "unat (dlc f) < 8")
    case True
    then show ?thesis using verify_short_faults [of f cmac] len by auto
  next
    case False
    show ?thesis
    proof (cases "unat (dlc f) = 8")
      case True
      then show ?thesis
        using len verify_ok [where cmac = cmac and f = f, OF assms(1)] by (simp add: word_unat_eq_iff)
    next
      case neq: False
      then show ?thesis
        using False len
        by (auto simp: auth_defs Let_def mem_read_def unat_dlc_minus_mac word_unat_eq_iff)
    qed
  qed
  ultimately show ?thesis by blast
qed

lemma classic_frame_has_no_room_witness:
  "\<not> (\<exists>r. authenticate_can_message (\<lambda>k m. replicate 16 0)
        \<lparr>fid = 1, dlc = 1, fflags = 0, fdata = replicate 8 0\<rparr> = Inr r)"
  using classic_frame_has_no_room [of "\<lambda>k m. replicate 16 0" "\<lparr>fid = 1, dlc = 1, fflags = 0, fdata = replicate 8 0\<rparr>"]
  by (simp add: wf_frame_def CAN_MAX_DLEN_def)

end
