(* ===== verification/Isotp.thy ===== *)
theory Isotp
  imports Can_Bus
begin

text \<open>
  The ISO-TP transport of \<^verbatim>\<open>common/can_protocol/isotp.c\<close> and \<^verbatim>\<open>isotp.h\<close>. A C pair of pointer
  and length is a list and a length; the receive queue of the controller is the list of the
  answers the blocking calls of \<^verbatim>\<open>can_receive\<close> get, each with the uptime at its return.
\<close>

section \<open>Constants and contexts\<close>

definition ISOTP_SINGLE_FRAME :: u8 where "ISOTP_SINGLE_FRAME = 0x00"
definition ISOTP_FIRST_FRAME :: u8 where "ISOTP_FIRST_FRAME = 0x01"
definition ISOTP_CONSECUTIVE :: u8 where "ISOTP_CONSECUTIVE = 0x02"
definition ISOTP_FLOW_CONTROL :: u8 where "ISOTP_FLOW_CONTROL = 0x03"

definition ISO_TP_TIMEOUT_MS :: u32 where "ISO_TP_TIMEOUT_MS = 1000"
definition ISO_TP_BLOCK_SIZE :: nat where "ISO_TP_BLOCK_SIZE = 8"
definition ISO_TP_STM :: nat where "ISO_TP_STM = 10"

lemmas isotp_consts = ISOTP_SINGLE_FRAME_def ISOTP_FIRST_FRAME_def ISOTP_CONSECUTIVE_def
  ISOTP_FLOW_CONTROL_def ISO_TP_TIMEOUT_MS_def ISO_TP_BLOCK_SIZE_def ISO_TP_STM_def

record isotp_ctx =
  rx_id :: u32
  tx_id :: u32

record isotp_tx_ctx =
  seq_id :: u8
  tx_data :: bytes
  remaining :: nat
  total_len :: nat

definition isotp_init :: "bool \<Rightarrow> int" where
  "isotp_init device_is_ready = (if \<not> device_is_ready then - ENODEV else 0)"

section \<open>Sending\<close>

definition isotp_send_consecutive ::
  "can_dev \<Rightarrow> isotp_tx_ctx \<Rightarrow> u32 \<Rightarrow> world \<Rightarrow> (isotp_tx_ctx \<times> world) res" where
  "isotp_send_consecutive dev t i w =
     (let len = min 7 (remaining t) in
     res_bind (mem_read (tx_data t) 0 len) (\<lambda>src.
     res_bind (memcpy_at ((ISOTP_CONSECUTIVE OR seq_id t) # replicate 7 0) 1 src) (\<lambda>d.
       Inr (t\<lparr>tx_data := drop len (tx_data t), remaining := remaining t - len,
              seq_id := (seq_id t + 1) AND 0x0F\<rparr>,
            snd (can_send dev \<lparr>fid = i, dlc = 8, fflags = 0, fdata = d\<rparr> w)))))"

lemma isotp_send_consecutive_remaining:
  "isotp_send_consecutive dev t i w = Inr (t', w') \<Longrightarrow> remaining t' = remaining t - min 7 (remaining t)"
  by (auto simp: isotp_send_consecutive_def Let_def res_bind_Inr_iff)

text \<open>The \<^verbatim>\<open>while (tx_ctx.remaining > 0)\<close> loop of \<^verbatim>\<open>isotp_send\<close>.\<close>

function isotp_send_loop :: "can_dev \<Rightarrow> isotp_tx_ctx \<Rightarrow> u32 \<Rightarrow> world \<Rightarrow> world res" where
  "isotp_send_loop dev t i w =
     (if 0 < remaining t
      then (case isotp_send_consecutive dev t i w of
              Inl e \<Rightarrow> Inl e
            | Inr (t', w') \<Rightarrow> isotp_send_loop dev t' i (k_sleep ISO_TP_STM w'))
      else Inr w)"
  by pat_completeness auto
termination
  by (relation "measure (\<lambda>(dev, t, i, w). remaining t)")
     (auto dest: isotp_send_consecutive_remaining)

declare isotp_send_loop.simps [simp del]

definition isotp_send :: "can_dev \<Rightarrow> isotp_ctx \<Rightarrow> bytes \<Rightarrow> nat \<Rightarrow> world \<Rightarrow> (int \<times> world) res" where
  "isotp_send dev ctx data len w =
     (if len \<le> 7 then
        res_bind (mem_read data 0 len) (\<lambda>src.
        res_bind (memcpy_at ((ISOTP_SINGLE_FRAME OR word_of_nat len) # replicate 7 0) 1 src) (\<lambda>d.
          Inr (can_send dev \<lparr>fid = tx_id ctx, dlc = word_of_nat (len + 1), fflags = 0, fdata = d\<rparr> w)))
      else
        res_bind (mem_read data 0 6) (\<lambda>src.
        res_bind (memcpy_at ((ISOTP_FIRST_FRAME OR (word_of_nat (len div 256) AND 0x0F)) #
                             (word_of_nat len AND 0xFF) # replicate 6 0) 2 src) (\<lambda>d.
        res_bind (isotp_send_loop dev
                    \<lparr>seq_id = 0, tx_data = drop 6 data, remaining = len - 6, total_len = len\<rparr>
                    (tx_id ctx)
                    (snd (can_send dev \<lparr>fid = tx_id ctx, dlc = 8, fflags = 0, fdata = d\<rparr> w)))
          (\<lambda>w'. Inr (0, w')))))"

section \<open>Receiving\<close>

type_synonym inbox = "(nat \<times> can_frame option) list"

definition can_receive :: "inbox \<Rightarrow> world \<Rightarrow> can_frame option \<times> inbox \<times> world" where
  "can_receive ib w =
     (case ib of
        [] \<Rightarrow> (None, [], k_sleep (unat ISO_TP_TIMEOUT_MS) w)
      | (t, r) # ib' \<Rightarrow> (r, ib', w\<lparr>uptime := t\<rparr>))"

definition fc_frame :: "u32 \<Rightarrow> nat \<Rightarrow> can_frame" where
  "fc_frame i bs = \<lparr>fid = i, dlc = 3, fflags = 0,
     fdata = [ISOTP_FLOW_CONTROL, word_of_nat bs, word_of_nat ISO_TP_STM, 0, 0, 0, 0, 0]\<rparr>"

text \<open>
  The \<^verbatim>\<open>while (remaining > 0)\<close> loop of \<^verbatim>\<open>isotp_receive\<close>; \<open>off\<close> is how far \<^verbatim>\<open>dest\<close> has moved into
  the caller's buffer.
\<close>

function isotp_recv_loop ::
  "can_dev \<Rightarrow> isotp_ctx \<Rightarrow> u32 \<Rightarrow> nat \<Rightarrow> inbox \<Rightarrow> bytes \<Rightarrow> nat \<Rightarrow> nat \<Rightarrow> u8 \<Rightarrow> world
     \<Rightarrow> (int \<times> bytes \<times> world) res" where
  "isotp_recv_loop dev ctx start tot ib dest off rem expected w =
     (if rem = 0 then Inr (int tot, dest, w)
      else if ISO_TP_TIMEOUT_MS < k_uptime_get_32 w - start then Inr (- ETIMEDOUT, dest, w)
      else (case can_receive ib w of
        (None, ib', w') \<Rightarrow> Inr (- ETIMEDOUT, dest, w')
      | (Some f, ib', w') \<Rightarrow>
          res_bind (mem_get (fdata f) 0) (\<lambda>b.
          if b AND 0xF0 \<noteq> ISOTP_CONSECUTIVE then Inr (- EINVAL, dest, w')
          else if b AND 0x0F \<noteq> expected then Inr (- EINVAL, dest, w')
          else
            res_bind (mem_read (fdata f) 1 (min 7 rem)) (\<lambda>src.
            res_bind (memcpy_at dest off src) (\<lambda>dest'.
            let off' = off + min 7 rem; rem' = rem - min 7 rem;
                expected' = (expected + 1) AND 0x0F in
            if 0 < ISO_TP_BLOCK_SIZE \<and> unat expected' mod ISO_TP_BLOCK_SIZE = 0 \<and> 0 < rem' then
              (let (ret, w'') = can_send dev
                      (fc_frame (tx_id ctx) (min ISO_TP_BLOCK_SIZE ((rem' + 6) div 7))) w' in
               if ret \<noteq> 0 then Inr (ret, dest', w'')
               else isotp_recv_loop dev ctx start tot ib' dest' off' rem' expected' w'')
            else isotp_recv_loop dev ctx start tot ib' dest' off' rem' expected' w')))))"
  by pat_completeness auto
termination
  by (relation "measure (\<lambda>(dev, ctx, start, tot, ib, dest, off, rem, expected, w). rem)") auto

declare isotp_recv_loop.simps [simp del]

definition isotp_receive ::
  "can_dev \<Rightarrow> isotp_ctx \<Rightarrow> inbox \<Rightarrow> bytes \<Rightarrow> nat \<Rightarrow> world \<Rightarrow> (int \<times> bytes \<times> world) res" where
  "isotp_receive dev ctx ib dest len w =
     (let start = k_uptime_get_32 w in
      case can_receive ib w of
        (None, ib', w') \<Rightarrow> Inr (- ETIMEDOUT, dest, w')
      | (Some f, ib', w') \<Rightarrow>
          if fid f AND rx_id ctx \<noteq> rx_id ctx then Inr (- EINVAL, dest, w')
          else
            res_bind (mem_get (fdata f) 0) (\<lambda>b0.
            if b0 AND 0xF0 = ISOTP_SINGLE_FRAME then
              (let recv_len = unat (b0 AND 0x0F) in
               if recv_len = 0 \<or> 7 < recv_len then Inr (- EMSGSIZE, dest, w')
               else if len < recv_len then Inr (- ENOSPC, dest, w')
               else
                 res_bind (mem_read (fdata f) 1 recv_len) (\<lambda>src.
                 res_bind (memcpy_at dest 0 src) (\<lambda>dest'. Inr (int recv_len, dest', w'))))
            else if b0 AND 0xF0 = ISOTP_FIRST_FRAME then
              res_bind (mem_get (fdata f) 1) (\<lambda>b1.
              let tot = unat (b0 AND 0x0F) * 256 + unat b1 in
              if len < tot \<or> tot < 8 then Inr (- EMSGSIZE, dest, w')
              else
                res_bind (mem_read (fdata f) 2 6) (\<lambda>src.
                res_bind (memcpy_at dest 0 src) (\<lambda>dest'.
                let (ret, w'') = can_send dev (fc_frame (tx_id ctx) ISO_TP_BLOCK_SIZE) w' in
                if ret \<noteq> 0 then Inr (ret, dest', w'')
                else isotp_recv_loop dev ctx start tot ib' dest' 6 (tot - 6) 1 w'')))
            else Inr (- EINVAL, dest, w')))"


section \<open>What is sent\<close>

text \<open>
  The frames a message of more than seven bytes is cut into, as a function of the message
  alone: the \<open>k\<close>-th consecutive frame carries the \<open>k\<close>-th piece of seven bytes, padded with
  zeros, under the header of its counter.
\<close>

definition cf_frame :: "u32 \<Rightarrow> u8 \<Rightarrow> bytes \<Rightarrow> can_frame" where
  "cf_frame i s c = \<lparr>fid = i, dlc = 8, fflags = 0,
     fdata = (ISOTP_CONSECUTIVE OR s) # c @ replicate (7 - length c) 0\<rparr>"

fun cf_frames :: "u32 \<Rightarrow> u8 \<Rightarrow> bytes list \<Rightarrow> can_frame list" where
  "cf_frames i s [] = []"
| "cf_frames i s (c # cs) = cf_frame i s c # cf_frames i ((s + 1) AND 0x0F) cs"

definition ff_frame :: "u32 \<Rightarrow> bytes \<Rightarrow> can_frame" where
  "ff_frame i data = \<lparr>fid = i, dlc = 8, fflags = 0,
     fdata = (ISOTP_FIRST_FRAME OR (word_of_nat (length data div 256) AND 0x0F)) #
             (word_of_nat (length data) AND 0xFF) # take 6 data\<rparr>"

definition isotp_segments :: "u32 \<Rightarrow> bytes \<Rightarrow> can_frame list" where
  "isotp_segments i data = ff_frame i data # cf_frames i 0 (chunks 7 (drop 6 data))"

text \<open>The payload bytes of a first frame and its consecutive frames.\<close>

definition segments_payload :: "can_frame list \<Rightarrow> bytes" where
  "segments_payload fs = drop 2 (fdata (hd fs)) @ concat (map (\<lambda>f. drop 1 (fdata f)) (tl fs))"

lemma length_cf_frames [simp]: "length (cf_frames i s cs) = length cs"
  by (induction i s cs rule: cf_frames.induct) simp_all

lemma cf_frames_payload:
  "\<exists>pad. concat (map (\<lambda>f. drop 1 (fdata f)) (cf_frames i s (chunks 7 xs))) = xs @ pad"
proof (induction "7::nat" xs arbitrary: s rule: chunks.induct)
  case (1 xs)
  show ?case
  proof (cases "xs = []")
    case True
    then show ?thesis by simp
  next
    case False
    obtain pad where pad: "concat (map (\<lambda>f. drop 1 (fdata f))
        (cf_frames i ((s + 1) AND 0x0F) (chunks 7 (drop 7 xs)))) = drop 7 xs @ pad"
      using "1.hyps" [of "(s + 1) AND 0x0F"] False by auto
    show ?thesis
    proof (cases "length xs \<le> 7")
      case True
      then show ?thesis using pad False
        by (simp add: chunks_step cf_frame_def)
    next
      case long: False
      then show ?thesis using pad False
        by (simp add: chunks_step cf_frame_def min_def flip: append_assoc)
    qed
  qed
qed

lemma isotp_send_consecutive_eq:
  assumes "tx_data t = xs" and "remaining t = length xs"
  shows "isotp_send_consecutive dev t i w =
    Inr (t\<lparr>tx_data := drop 7 xs, remaining := length xs - min 7 (length xs),
           seq_id := (seq_id t + 1) AND 0x0F\<rparr>,
         snd (can_send dev (cf_frame i (seq_id t) (take 7 xs)) w))"
  using assms
  by (cases "length xs \<le> 7")
     (simp_all add: isotp_send_consecutive_def cf_frame_def mem_simps min_def)

lemma isotp_send_loop_eq:
  assumes "tx_data t = xs" and "remaining t = length xs"
  shows "\<exists>w'. isotp_send_loop dev t i w = Inr w' \<and>
    sent_frames w' = sent_frames w @ cf_frames i (seq_id t) (chunks 7 xs) \<and>
    uptime w' = uptime w + ISO_TP_STM * length (chunks 7 xs)"
  using assms
proof (induction "7::nat" xs arbitrary: t w rule: chunks.induct)
  case (1 xs)
  show ?case
  proof (cases "xs = []")
    case True
    then show ?thesis using "1.prems" by (subst isotp_send_loop.simps) simp
  next
    case False
    let ?t = "t\<lparr>tx_data := drop 7 xs, remaining := length xs - min 7 (length xs),
                seq_id := (seq_id t + 1) AND 0x0F\<rparr>"
    let ?w = "k_sleep ISO_TP_STM (snd (can_send dev (cf_frame i (seq_id t) (take 7 xs)) w))"
    have "remaining ?t = length (drop 7 xs)" by simp
    then obtain w' where w': "isotp_send_loop dev ?t i ?w = Inr w'"
      "sent_frames w' = sent_frames ?w @ cf_frames i (seq_id ?t) (chunks 7 (drop 7 xs))"
      "uptime w' = uptime ?w + ISO_TP_STM * length (chunks 7 (drop 7 xs))"
      using "1.hyps" [of ?t ?w] False by auto
    have "isotp_send_loop dev t i w = isotp_send_loop dev ?t i ?w"
      using "1.prems" False
      by (subst isotp_send_loop.simps) (simp add: isotp_send_consecutive_eq)
    then show ?thesis using w' False
      by (simp add: chunks_step bus.tx_simps)
  qed
qed

lemma isotp_send_multi:
  assumes "length data = len" and "7 < len"
  shows "\<exists>w'. isotp_send dev ctx data len w = Inr (0, w') \<and>
    sent_frames w' = sent_frames w @ isotp_segments (tx_id ctx) data \<and>
    uptime w' = uptime w + ISO_TP_STM * ((len - 6 + 6) div 7)"
proof -
  let ?t = "\<lparr>seq_id = 0, tx_data = drop 6 data, remaining = len - 6, total_len = len\<rparr>"
  let ?w = "snd (can_send dev (ff_frame (tx_id ctx) data) w)"
  obtain w' where "isotp_send_loop dev ?t (tx_id ctx) ?w = Inr w'"
    "sent_frames w' = sent_frames ?w @ cf_frames (tx_id ctx) 0 (chunks 7 (drop 6 data))"
    "uptime w' = uptime ?w + ISO_TP_STM * length (chunks 7 (drop 6 data))"
    using isotp_send_loop_eq [of ?t "drop 6 data" dev "tx_id ctx" ?w] assms by auto
  moreover have "isotp_send dev ctx data len w =
      res_bind (isotp_send_loop dev ?t (tx_id ctx) ?w) (\<lambda>w'. Inr (0, w'))"
    using assms by (simp add: isotp_send_def mem_simps ff_frame_def min_def)
  ultimately show ?thesis using assms
    by (simp add: isotp_segments_def bus.tx_simps length_chunks)
qed

lemma isotp_segments_payload:
  assumes "7 < length data"
  shows "take (length data) (segments_payload (isotp_segments i data)) = data"
proof -
  obtain pad where "concat (map (\<lambda>f. drop 1 (fdata f)) (cf_frames i 0 (chunks 7 (drop 6 data))))
      = drop 6 data @ pad"
    using cf_frames_payload by blast
  then have "segments_payload (isotp_segments i data) = data @ pad"
    by (simp add: segments_payload_def isotp_segments_def ff_frame_def)
  then show ?thesis by simp
qed

section \<open>What is received\<close>

definition sf_frame :: "u32 \<Rightarrow> bytes \<Rightarrow> can_frame" where
  "sf_frame i data = \<lparr>fid = i, dlc = word_of_nat (length data + 1), fflags = 0,
     fdata = (ISOTP_SINGLE_FRAME OR word_of_nat (length data)) # data @ replicate (7 - length data) 0\<rparr>"

lemma isotp_send_single:
  assumes "length data = len" and "len \<le> 7"
  shows "isotp_send dev ctx data len w = Inr (can_send dev (sf_frame (tx_id ctx) data) w)"
  using assms by (simp add: isotp_send_def sf_frame_def mem_simps)

lemma single_header:
  assumes "len \<le> 7"
  shows "(ISOTP_SINGLE_FRAME OR word_of_nat len) AND 0xF0 = ISOTP_SINGLE_FRAME"
    and "unat ((ISOTP_SINGLE_FRAME OR word_of_nat len) AND 0x0F) = len"
proof -
  have "len \<in> {0, 1, 2, 3, 4, 5, 6, 7}" using assms by auto
  then show "(ISOTP_SINGLE_FRAME OR word_of_nat len) AND 0xF0 = ISOTP_SINGLE_FRAME"
    and "unat ((ISOTP_SINGLE_FRAME OR word_of_nat len) AND 0x0F) = len"
    by (auto simp: isotp_consts)
qed

text \<open>
  The frame types of \<^verbatim>\<open>isotp.h\<close> are small numbers, while the receiver compares them with the
  high nibble: no byte is ever classified as a first or a consecutive frame.
\<close>

lemma high_nibble_even: "\<not> bit ((b :: u8) AND 0xF0) 0" "\<not> bit ((b :: u8) AND 0xF0) 1"
  by (simp_all add: bit_and_iff bit_numeral_rec)

lemma never_first_frame: "(b :: u8) AND 0xF0 \<noteq> ISOTP_FIRST_FRAME"
proof
  assume "b AND 0xF0 = ISOTP_FIRST_FRAME"
  then show False using high_nibble_even [of b] by (simp add: isotp_consts)
qed

lemma never_consecutive: "(b :: u8) AND 0xF0 \<noteq> ISOTP_CONSECUTIVE"
proof
  assume "b AND 0xF0 = ISOTP_CONSECUTIVE"
  then show False using high_nibble_even(2) [of b]
    by (simp add: isotp_consts bit_numeral_rec)
qed

lemma isotp_receive_single:
  assumes "fid f AND rx_id ctx = rx_id ctx" and "length (fdata f) = 8"
    and "fdata f ! 0 AND 0xF0 = ISOTP_SINGLE_FRAME" and "unat (fdata f ! 0 AND 0x0F) = n"
    and "0 < n" and "n \<le> 7" and "n \<le> len" and "length dest = len"
  shows "isotp_receive dev ctx ((t, Some f) # ib) dest len w =
    Inr (int n, take n (drop 1 (fdata f)) @ drop n dest, w\<lparr>uptime := t\<rparr>)"
  using assms by (simp add: isotp_receive_def can_receive_def mem_simps Let_def)

text \<open>
  Every outcome of a reception: no fault, nothing sent, at most seven bytes delivered, and
  those are the payload of the one frame looked at.
\<close>

definition single_frame_outcome :: "inbox \<Rightarrow> bytes \<Rightarrow> int \<Rightarrow> bytes \<Rightarrow> bool" where
  "single_frame_outcome ib dest rc dest' \<longleftrightarrow>
     (if 0 < rc
      then rc \<le> 7 \<and> (\<exists>t f ib'. ib = (t, Some f) # ib' \<and> unat (fdata f ! 0 AND 0x0F) = nat rc \<and>
             dest' = take (nat rc) (drop 1 (fdata f)) @ drop (nat rc) dest)
      else rc \<in> {- ETIMEDOUT, - EINVAL, - EMSGSIZE, - ENOSPC} \<and> dest' = dest)"

lemma isotp_receive_outcome:
  assumes "\<forall>(t, r) \<in> set ib. \<forall>f. r = Some f \<longrightarrow> wf_frame f" and "length dest = len"
  shows "\<exists>rc dest' w'. isotp_receive dev ctx ib dest len w = Inr (rc, dest', w') \<and>
           bus_log w' = bus_log w \<and> single_frame_outcome ib dest rc dest'"
proof (cases ib)
  case Nil
  then show ?thesis
    by (simp add: isotp_receive_def can_receive_def single_frame_outcome_def errno_defs)
next
  case (Cons a ib')
  obtain t r where a: "a = (t, r)" by (cases a)
  show ?thesis
  proof (cases r)
    case None
    then show ?thesis using Cons a
      by (simp add: isotp_receive_def can_receive_def single_frame_outcome_def errno_defs)
  next
    case (Some f)
    then have wf: "length (fdata f) = 8"
      using assms(1) Cons a by (simp add: wf_frame_def CAN_MAX_DLEN_def)
    obtain n where n: "unat (fdata f ! 0 AND 0x0F) = n" by simp
    show ?thesis
    proof (cases "fid f AND rx_id ctx = rx_id ctx \<and> fdata f ! 0 AND 0xF0 = ISOTP_SINGLE_FRAME \<and>
                  0 < n \<and> n \<le> 7 \<and> n \<le> len")
      case True
      then have "isotp_receive dev ctx ib dest len w =
          Inr (int n, take n (drop 1 (fdata f)) @ drop n dest, w\<lparr>uptime := t\<rparr>)"
        using isotp_receive_single [OF _ wf _ n] Cons a Some assms(2) by simp
      then show ?thesis using True Cons a Some n by (simp add: single_frame_outcome_def)
    next
      case False
      then show ?thesis using Cons a Some wf n never_first_frame [of "fdata f ! 0"]
        by (auto simp: isotp_receive_def can_receive_def mem_simps Let_def
                       single_frame_outcome_def errno_defs)
    qed
  qed
qed

text \<open>\<open>arrive t fs\<close>: the frames of a sender, queued at the receiver at one time.\<close>

definition arrive :: "nat \<Rightarrow> can_frame list \<Rightarrow> inbox" where
  "arrive t fs = map (\<lambda>f. (t, Some f)) fs"

lemma first_header_short:
  assumes "7 < length data" and "length data < 256"
  shows "fdata (ff_frame i data) ! 0 = 1" and "fdata (ff_frame i data) ! 1 = word_of_nat (length data)"
    and "length (fdata (ff_frame i data)) = 8"
proof -
  have m: "(word_of_nat (length data) :: u8) AND 255 = word_of_nat (length data)"
    by (rule bit_word_eqI) (auto simp: bit_and_iff bit_numeral_rec less_Suc_eq numeral_eq_Suc)
  show "fdata (ff_frame i data) ! 0 = 1" "fdata (ff_frame i data) ! 1 = word_of_nat (length data)"
    and "length (fdata (ff_frame i data)) = 8"
    using assms m by (simp_all add: ff_frame_def isotp_consts)
qed

section \<open>Properties\<close>

lemma low_nibble: "(x :: u8) AND 0x0F = take_bit 4 x"
  by (simp add: take_bit_eq_mask mask_eq_exp_minus_1)

lemma unat_low_nibble: "unat ((x :: u8) AND 0x0F) = unat x mod 16"
  by (simp add: low_nibble take_bit_eq_mod unat_mod)

lemma counter_step: "((s :: u8) + 1 AND 0x0F) + word_of_nat k AND 0x0F = s + word_of_nat (Suc k) AND 0x0F"
proof -
  have m: "x mod 256 mod 16 = x mod 16" for x :: nat by (rule mod_mod_cancel) simp
  have "unat ((s + 1 AND 0x0F) + word_of_nat k AND 0x0F) = unat (s + word_of_nat (Suc k) AND 0x0F)"
    unfolding unat_low_nibble unat_word_ariths by (simp add: unat_of_nat m mod_simps ac_simps del: of_nat_Suc)
  then show ?thesis by (simp only: word_unat_eq_iff)
qed

lemma nth_cf_frames:
  "k < length cs \<Longrightarrow> s AND 0x0F = s \<Longrightarrow> cf_frames i s cs ! k = cf_frame i (s + word_of_nat k AND 0x0F) (cs ! k)"
proof (induction cs arbitrary: s k)
  case (Cons c cs)
  show ?case
  proof (cases k)
    case 0
    then show ?thesis using Cons.prems by simp
  next
    case (Suc j)
    then show ?thesis using Cons.IH [of j "(s + 1) AND 0x0F"] Cons.prems counter_step [of s j]
      by (simp add: low_nibble)
  qed
qed simp

text \<open>
  C18: Segmentation, byte for byte. A message of more than seven bytes is sent without a fault,
  whatever the driver answers, as one first frame and the consecutive frames for the rest in pieces
  of seven. The first frame has the type 1 and the upper four bits of the length in its first byte,
  the lower eight bits in its second and the first six bytes of the message; the \<open>k\<close>-th consecutive
  frame has the type 2 joined with the counter \<open>k\<close> modulo 16, which starts at 0, and its piece,
  padded with zeros. The sender pauses ten milliseconds per consecutive frame. Both type numbers sit
  in the low half of their byte, where the length and the counter are.
\<close>
theorem isotp_send_segments:
  assumes "length data = len" and "7 < len"
  shows "\<exists>w' fs. isotp_send dev ctx data len w = Inr (0, w') \<and>
    sent_frames w' = sent_frames w @ fs \<and>
    length fs = 1 + len div 7 \<and>
    fs ! 0 = \<lparr>fid = tx_id ctx, dlc = 8, fflags = 0,
      fdata = (1 OR (word_of_nat (len div 256) AND 0x0F)) # (word_of_nat len AND 0xFF) # take 6 data\<rparr> \<and>
    (\<forall>k < len div 7. fs ! (k + 1) = \<lparr>fid = tx_id ctx, dlc = 8, fflags = 0,
      fdata = (2 OR (word_of_nat k AND 0x0F)) # take 7 (drop (6 + 7 * k) data) @
        replicate (7 - length (take 7 (drop (6 + 7 * k) data))) 0\<rparr>) \<and>
    take len (segments_payload fs) = data \<and>
    uptime w' = uptime w + 10 * (len div 7)"
proof -
  let ?fs = "isotp_segments (tx_id ctx) data"
  have len: "length (chunks 7 (drop 6 data)) = len div 7" using assms by (simp add: length_chunks)
  have "length ?fs = 1 + len div 7" by (simp add: isotp_segments_def len)
  moreover have "?fs ! 0 = \<lparr>fid = tx_id ctx, dlc = 8, fflags = 0,
      fdata = (1 OR (word_of_nat (len div 256) AND 0x0F)) # (word_of_nat len AND 0xFF) # take 6 data\<rparr>"
    using assms(1) by (simp add: isotp_segments_def ff_frame_def isotp_consts)
  moreover have "?fs ! (k + 1) = cf_frame (tx_id ctx) (word_of_nat k AND 0x0F) (take 7 (drop (6 + 7 * k) data))"
    if "k < len div 7" for k
    using that len by (simp add: isotp_segments_def nth_cf_frames nth_chunks ac_simps)
  ultimately show ?thesis
    using isotp_send_multi [OF assms, of dev ctx w] isotp_segments_payload [of data "tx_id ctx"] assms
    by (auto simp: ISO_TP_STM_def cf_frame_def isotp_consts)
qed

theorem isotp_send_segments_witness:
  "\<exists>w' fs. isotp_send (\<lambda>_ _. 0) \<lparr>rx_id = 2, tx_id = 1\<rparr> [1, 2, 3, 4, 5, 6, 7, 8, 9, 10] 10
      \<lparr>uptime = 0, bus_log = []\<rparr> = Inr (0, w') \<and> sent_frames w' = fs \<and> length fs = 2 \<and>
      map fdata fs = [[1, 10, 1, 2, 3, 4, 5, 6], [2, 7, 8, 9, 10, 0, 0, 0]] \<and> uptime w' = 10"
proof -
  define data :: bytes where "data = [1, 2, 3, 4, 5, 6, 7, 8, 9, 10]"
  have "length data = 10" "7 < (10 :: nat)" by (simp_all add: data_def)
  from isotp_send_segments [OF this, of "\<lambda>_ _. 0" "\<lparr>rx_id = 2, tx_id = 1\<rparr>" "\<lparr>uptime = 0, bus_log = []\<rparr>"]
  obtain w' fs where w': "isotp_send (\<lambda>_ _. 0) \<lparr>rx_id = 2, tx_id = 1\<rparr> data 10 \<lparr>uptime = 0, bus_log = []\<rparr> = Inr (0, w')"
    "sent_frames w' = fs" "uptime w' = 10" "length fs = 2"
    and f: "fdata (fs ! 0) = 1 # 10 # take 6 data"
      "fdata (fs ! 1) = 2 # take 7 (drop 6 data) @ replicate (7 - length (take 7 (drop 6 data))) 0"
    by (auto simp: sent_frames_def)
  have g: "fdata (fs ! 0) = [1, 10, 1, 2, 3, 4, 5, 6]" "fdata (fs ! 1) = [2, 7, 8, 9, 10, 0, 0, 0]"
    unfolding f by (simp_all add: data_def numeral_eq_Suc)
  have "fs = [fs ! 0, fs ! 1]" using w'(4) by (auto simp: length_Suc_conv numeral_2_eq_2)
  then have "map fdata fs = [fdata (fs ! 0), fdata (fs ! 1)]" by (metis list.map)
  then show ?thesis using w'(1,2,3) g by (auto simp: data_def)
qed

text \<open>
  C19: Single-frame round trip. A message of one to seven bytes is one frame on the bus, and a
  receiver whose identifier bits are all set in the sender's identifier, with room for the
  message, gets exactly its bytes and its length.
\<close>
theorem isotp_single_roundtrip:
  assumes "0 < length data" and "length data \<le> 7"
    and "tx_id c AND rx_id c' = rx_id c'" and "length data \<le> length dest"
  shows "\<exists>f. isotp_send dev c data (length data) w = Inr (can_send dev f w) \<and>
    isotp_receive dev' c' (arrive t [f]) dest (length dest) w' =
      Inr (int (length data), data @ drop (length data) dest, w'\<lparr>uptime := t\<rparr>)"
proof (intro exI conjI)
  let ?f = "sf_frame (tx_id c) data"
  show "isotp_send dev c data (length data) w = Inr (can_send dev ?f w)"
    using assms by (simp add: isotp_send_single)
  show "isotp_receive dev' c' (arrive t [?f]) dest (length dest) w' =
      Inr (int (length data), data @ drop (length data) dest, w'\<lparr>uptime := t\<rparr>)"
    using assms isotp_receive_single [of ?f c' "length data" "length dest" dest dev' t "[]" w']
      single_header [of "length data"]
    by (simp add: arrive_def sf_frame_def)
qed

theorem isotp_single_roundtrip_witness:
  "\<exists>f. isotp_send (\<lambda>_ _. 0) \<lparr>rx_id = 1, tx_id = 0x51\<rparr> [7, 8, 9] 3 \<lparr>uptime = 0, bus_log = []\<rparr> =
         Inr (can_send (\<lambda>_ _. 0) f \<lparr>uptime = 0, bus_log = []\<rparr>) \<and>
       isotp_receive (\<lambda>_ _. 0) \<lparr>rx_id = 0x51, tx_id = 1\<rparr> (arrive 5 [f]) [0, 0, 0, 0] 4
         \<lparr>uptime = 0, bus_log = []\<rparr> = Inr (3, [7, 8, 9, 0], \<lparr>uptime = 5, bus_log = []\<rparr>)"
  using isotp_single_roundtrip [of "[7, 8, 9]" "\<lparr>rx_id = 1, tx_id = 0x51\<rparr>"
      "\<lparr>rx_id = 0x51, tx_id = 1\<rparr>" "[0, 0, 0, 0]" "\<lambda>_ _. 0" "\<lparr>uptime = 0, bus_log = []\<rparr>"
      "\<lambda>_ _. 0" 5 "\<lparr>uptime = 0, bus_log = []\<rparr>"]
  by (simp add: eval_nat_numeral)

text \<open>
  No multi-frame reception. Whatever frames arrive and however long the buffer is, a
  reception never touches memory outside the buffer, never sends a flow control frame, and
  delivers at most seven bytes, which are the payload of the first frame that arrived: the code
  for first and consecutive frames is never reached.
\<close>
lemma isotp_receive_single_frames_only:
  assumes "\<forall>(t, r) \<in> set ib. \<forall>f. r = Some f \<longrightarrow> wf_frame f"
  shows "\<exists>rc dest' w'. isotp_receive dev ctx ib dest (length dest) w = Inr (rc, dest', w') \<and>
    bus_log w' = bus_log w \<and> single_frame_outcome ib dest rc dest'"
  using isotp_receive_outcome [OF assms refl] .

lemma isotp_receive_single_frames_only_witness:
  "\<exists>rc dest' w'. isotp_receive (\<lambda>_ _. 0) \<lparr>rx_id = 1, tx_id = 2\<rparr>
      (arrive 3 (isotp_segments 1 (replicate 20 7))) (replicate 20 0) 20
      \<lparr>uptime = 0, bus_log = []\<rparr> = Inr (rc, dest', w') \<and> bus_log w' = [] \<and> rc \<le> 7"
proof -
  have seg: "isotp_segments 1 (replicate 20 7) =
      [\<lparr>fid = 1, dlc = 8, fflags = 0, fdata = [1, 20, 7, 7, 7, 7, 7, 7]\<rparr>,
       \<lparr>fid = 1, dlc = 8, fflags = 0, fdata = [2, 7, 7, 7, 7, 7, 7, 7]\<rparr>,
       \<lparr>fid = 1, dlc = 8, fflags = 0, fdata = [3, 7, 7, 7, 7, 7, 7, 7]\<rparr>]"
    by code_simp
  have "\<forall>(t, r) \<in> set (arrive 3 (isotp_segments 1 (replicate 20 7))). \<forall>f. r = Some f \<longrightarrow> wf_frame f"
    by (simp add: seg arrive_def wf_frame_def CAN_MAX_DLEN_def)
  from isotp_receive_single_frames_only [OF this, of "\<lambda>_ _. 0" "\<lparr>rx_id = 1, tx_id = 2\<rparr>"
      "replicate 20 0" "\<lparr>uptime = 0, bus_log = []\<rparr>"]
  show ?thesis
    by (auto simp: single_frame_outcome_def errno_defs split: if_splits)
qed

text \<open>
  A segmented message is misread. When the frames that the sender makes of a message of 8 to
  255 bytes arrive at a matching receiver, it reports success with one byte, the length field
  of the first frame, instead of the message.
\<close>
lemma isotp_multi_frame_misread:
  assumes "8 \<le> length data" and "length data < 256"
    and "i AND rx_id ctx = rx_id ctx" and "0 < length dest"
  shows "isotp_receive dev ctx (arrive t (isotp_segments i data)) dest (length dest) w =
    Inr (1, word_of_nat (length data) # drop 1 dest, w\<lparr>uptime := t\<rparr>)"
proof -
  note hdr = first_header_short [of data i]
  have n: "unat (fdata (ff_frame i data) ! 0 AND 0x0F) = 1"
    and ty: "fdata (ff_frame i data) ! 0 AND 0xF0 = ISOTP_SINGLE_FRAME"
    using hdr assms by (simp_all add: isotp_consts)
  have "take 1 (drop 1 (fdata (ff_frame i data))) = [word_of_nat (length data)]"
    using hdr assms by (simp add: take_Suc_conv_app_nth)
  then show ?thesis
    using isotp_receive_single [OF _ _ ty n, of ctx "length dest" dest dev t] hdr assms
    by (simp add: arrive_def isotp_segments_def ff_frame_def)
qed

lemma isotp_multi_frame_misread_witness:
  "isotp_receive (\<lambda>_ _. 0) \<lparr>rx_id = 1, tx_id = 2\<rparr> (arrive 3 (isotp_segments 1 (replicate 20 7)))
     (replicate 20 0) 20 \<lparr>uptime = 0, bus_log = []\<rparr> =
   Inr (1, 20 # replicate 19 0, \<lparr>uptime = 3, bus_log = []\<rparr>)"
  using isotp_multi_frame_misread [of "replicate 20 7" 1 "\<lparr>rx_id = 1, tx_id = 2\<rparr>" "replicate 20 0"
      "\<lambda>_ _. 0" 3 "\<lparr>uptime = 0, bus_log = []\<rparr>"]
  by simp

end
