(* ===== verification/J1939.thy ===== *)
theory J1939
  imports Can_Bus
begin

text \<open>
  The J1939 layer of \<^verbatim>\<open>common/can_protocol/j1939.c\<close> and \<^verbatim>\<open>j1939.h\<close>: identifiers, the table of
  PGN handlers, and both sides of the transport protocol (RTS, CTS, data packets,
  acknowledgement, abort). Handlers are function pointers into code that is not in the
  repository: a handler is a number, the null pointer is \<open>None\<close>, and a call is recorded with the
  bytes it is given.
\<close>

section \<open>Constants and state\<close>

definition J1939_PGN_TP_CM :: u32 where "J1939_PGN_TP_CM = 0xEC00"
definition J1939_PGN_TP_DT :: u32 where "J1939_PGN_TP_DT = 0xEB00"
definition TP_CM_RTS :: u8 where "TP_CM_RTS = 0x10"
definition TP_CM_CTS :: u8 where "TP_CM_CTS = 0x11"
definition TP_CM_EndOfMsgAck :: u8 where "TP_CM_EndOfMsgAck = 0x13"
definition TP_CM_BAM :: u8 where "TP_CM_BAM = 0x20"
definition TP_CM_Abort :: u8 where "TP_CM_Abort = 0xFF"
definition J1939_PRIORITY_MEDIUM :: u8 where "J1939_PRIORITY_MEDIUM = 0x03"
definition MAX_PGN_HANDLERS :: nat where "MAX_PGN_HANDLERS = 32"
definition TP_MAX_PACKETS :: u8 where "TP_MAX_PACKETS = 255"
definition TP_TIMEOUT_MS :: u32 where "TP_TIMEOUT_MS = 750"
definition TP_BUFFER_SIZE :: nat where "TP_BUFFER_SIZE = 1785"

lemmas tp_consts = J1939_PGN_TP_CM_def J1939_PGN_TP_DT_def TP_CM_RTS_def TP_CM_CTS_def
  TP_CM_EndOfMsgAck_def TP_CM_BAM_def TP_CM_Abort_def

record pgn_handler =
  h_pgn :: u32
  h_fun :: "nat option"

record tp_session =
  tp_pgn :: u32
  total_size :: u16
  num_packets :: u8
  next_packet :: u8
  start_time :: u32

record j1939_ctx =
  source_address :: u8
  dest_address :: u8
  session :: tp_session
  tp_in_progress :: bool

text \<open>
  The file's static data beside one context: the live part of the handler table, the reassembly
  buffer, the semaphore's count, the handler calls made so far, and the world.
\<close>

record j1939 =
  jctx :: j1939_ctx
  pgn_handlers :: "pgn_handler list"
  tp_buffer :: bytes
  tp_sem :: nat
  calls :: "(nat \<times> bytes \<times> u16) list"
  jworld :: world

section \<open>Identifiers, filter, handler table\<close>

definition build_j1939_id :: "u32 \<Rightarrow> u8 \<Rightarrow> u8 \<Rightarrow> u8 \<Rightarrow> u32" where
  "build_j1939_id pgn priority sa da =
     push_bit 26 (ucast priority) OR push_bit 8 pgn OR ucast sa"

definition frame_pgn :: "can_frame \<Rightarrow> u32" where
  "frame_pgn f = drop_bit 8 (fid f) AND 0x1FFFF"

record can_filter =
  filter_id :: u32
  filter_mask :: u32
  filter_flags :: u8

definition CAN_FILTER_IDE :: u8 where "CAN_FILTER_IDE = 1"

definition j1939_filter :: "j1939_ctx \<Rightarrow> can_filter" where
  "j1939_filter c = \<lparr>filter_id = ucast (source_address c), filter_mask = 0xFF,
                     filter_flags = CAN_FILTER_IDE\<rparr>"

text \<open>A controller passes a frame when it agrees with the filter in the bits of the mask.\<close>

definition filter_matches :: "can_filter \<Rightarrow> u32 \<Rightarrow> bool" where
  "filter_matches flt i \<longleftrightarrow> i AND filter_mask flt = filter_id flt AND filter_mask flt"

definition j1939_init :: "bool \<Rightarrow> (can_filter \<Rightarrow> int) \<Rightarrow> j1939 \<Rightarrow> int \<times> j1939" where
  "j1939_init device_is_ready add_rx_filter s =
     (if \<not> device_is_ready then (- ENODEV, s)
      else (add_rx_filter (j1939_filter (jctx s)),
            s\<lparr>jctx := (jctx s)\<lparr>tp_in_progress := False\<rparr>,
              pgn_handlers := map (\<lambda>_. \<lparr>h_pgn = 0, h_fun = None\<rparr>) (pgn_handlers s)\<rparr>))"

definition j1939_register_pgn_handler :: "u32 \<Rightarrow> nat option \<Rightarrow> j1939 \<Rightarrow> int \<times> j1939" where
  "j1939_register_pgn_handler pgn h s =
     (if MAX_PGN_HANDLERS \<le> length (pgn_handlers s) then (- ENOMEM, s)
      else (0, s\<lparr>pgn_handlers := pgn_handlers s @ [\<lparr>h_pgn = pgn, h_fun = h\<rparr>]\<rparr>))"

interpretation pgn_table: bounded_table MAX_PGN_HANDLERS pgn_handlers
    "\<lambda>h s. snd (j1939_register_pgn_handler (h_pgn h) (h_fun h) s)"
  by unfold_locales (auto simp: j1939_register_pgn_handler_def)

section \<open>Sending\<close>

definition j1939_send_pgn ::
  "can_dev \<Rightarrow> j1939_ctx \<Rightarrow> u32 \<Rightarrow> bytes \<Rightarrow> u8 \<Rightarrow> world \<Rightarrow> (int \<times> world) res" where
  "j1939_send_pgn dev c pgn data len w =
     res_bind (mem_read data 0 (unat len)) (\<lambda>src.
     res_bind (memcpy_at (replicate CAN_MAX_DLEN 0) 0 src) (\<lambda>d.
       Inr (can_send dev
              \<lparr>fid = build_j1939_id pgn J1939_PRIORITY_MEDIUM (source_address c) (dest_address c),
               dlc = len, fflags = CAN_FRAME_IDE, fdata = d\<rparr> w)))"

definition pgn_bytes :: "u32 \<Rightarrow> bytes" where
  "pgn_bytes pgn = [ucast (pgn AND 0xFF), ucast (drop_bit 8 pgn AND 0xFF),
                    ucast (drop_bit 16 pgn AND 0xFF)]"

text \<open>
  The data packets. \<open>junk i\<close> is the content of the uninitialised local array in round \<open>i\<close>; the
  counter \<^verbatim>\<open>uint8_t i\<close> stays below \<open>n\<close>, which is at most 255.
\<close>

function tp_send_loop ::
  "can_dev \<Rightarrow> j1939_ctx \<Rightarrow> (nat \<Rightarrow> bytes) \<Rightarrow> bytes \<Rightarrow> nat \<Rightarrow> nat \<Rightarrow> nat \<Rightarrow> world \<Rightarrow> (int \<times> world) res"
  where
  "tp_send_loop dev c junk data len n i w =
     (if i < n then
        res_bind (mem_read data (i * 7) (min 7 (len - i * 7))) (\<lambda>src.
        res_bind (memcpy_at ((junk i)[0 := word_of_nat (i + 1)]) 1 src) (\<lambda>packet.
        res_bind (j1939_send_pgn dev c J1939_PGN_TP_DT packet 8 w) (\<lambda>(ret, w').
          if ret < 0 then Inr (ret, w')
          else tp_send_loop dev c junk data len n (i + 1) (k_sleep 50 w'))))
      else Inr (0, w))"
  by pat_completeness auto
termination
  by (relation "measure (\<lambda>(dev, c, junk, data, len, n, i, w). n - i)") auto

declare tp_send_loop.simps [simp del]

definition tp_num_packets :: "u16 \<Rightarrow> u8" where
  "tp_num_packets len = word_of_nat ((unat len + 6) div 7)"

definition j1939_send_tp_data ::
  "can_dev \<Rightarrow> j1939_ctx \<Rightarrow> (nat \<Rightarrow> bytes) \<Rightarrow> u32 \<Rightarrow> bytes \<Rightarrow> u16 \<Rightarrow> world \<Rightarrow> (int \<times> world) res" where
  "j1939_send_tp_data dev c junk pgn data len w =
     (if len \<le> 8 then j1939_send_pgn dev c pgn data (ucast len) w
      else
        (let rts_msg = [TP_CM_RTS, ucast (len AND 0xFF), ucast (drop_bit 8 len AND 0xFF),
                        tp_num_packets len, 0xFF] @ pgn_bytes pgn in
         res_bind (j1939_send_pgn dev c J1939_PGN_TP_CM rts_msg 8 w) (\<lambda>(ret, w').
           if ret < 0 then Inr (ret, w')
           else tp_send_loop dev c junk data (unat len) (unat (tp_num_packets len)) 0 w')))"

section \<open>Receiving\<close>

text \<open>Sends from the receive path; their return code is dropped.\<close>

definition tp_reply :: "can_dev \<Rightarrow> bytes \<Rightarrow> j1939 \<Rightarrow> j1939 res" where
  "tp_reply dev msg s =
     res_bind (j1939_send_pgn dev (jctx s) J1939_PGN_TP_CM msg 8 (jworld s))
       (\<lambda>(_, w). Inr (s\<lparr>jworld := w\<rparr>))"

definition abort_msg :: "u8 \<Rightarrow> bytes" where
  "abort_msg code = [TP_CM_Abort, code, 0xFF, 0xFF, 0, 0, 0, 0]"

definition end_session :: "j1939 \<Rightarrow> j1939" where
  "end_session s = s\<lparr>jctx := (jctx s)\<lparr>tp_in_progress := False\<rparr>\<rparr>"

definition k_sem_give :: "j1939 \<Rightarrow> j1939" where
  "k_sem_give s = s\<lparr>tp_sem := min 1 (tp_sem s + 1)\<rparr>"

text \<open>The first live entry for the PGN is called; a null pointer there is a fault.\<close>

definition call_handler :: "u32 \<Rightarrow> bytes \<Rightarrow> u16 \<Rightarrow> j1939 \<Rightarrow> j1939 res" where
  "call_handler pgn data len s =
     (case find (\<lambda>h. h_pgn h = pgn) (pgn_handlers s) of
        None \<Rightarrow> Inr s
      | Some h \<Rightarrow> (case h_fun h of
            None \<Rightarrow> Inl Null_Call
          | Some k \<Rightarrow> Inr (s\<lparr>calls := calls s @ [(k, take (unat len) data, len)]\<rparr>)))"

definition rts_size :: "can_frame \<Rightarrow> u16" where
  "rts_size f = ucast (fdata f ! 1) OR push_bit 8 (ucast (fdata f ! 2))"

definition rts_pgn :: "can_frame \<Rightarrow> u32" where
  "rts_pgn f = ucast (fdata f ! 5) OR push_bit 8 (ucast (fdata f ! 6)) OR push_bit 16 (ucast (fdata f ! 7))"

definition rts_invalid :: "u16 \<Rightarrow> u8 \<Rightarrow> bool" where
  "rts_invalid sz n \<longleftrightarrow>
     TP_BUFFER_SIZE < unat sz \<or> sz = 0 \<or> n = 0 \<or> TP_MAX_PACKETS < n \<or>
     unat sz \<noteq> (unat n - 1) * 7 + (if unat sz mod 7 \<noteq> 0 then unat sz mod 7 else 7)"

definition handle_tp_rts :: "can_dev \<Rightarrow> can_frame \<Rightarrow> j1939 \<Rightarrow> j1939 res" where
  "handle_tp_rts dev f s =
     (if tp_in_progress (jctx s) then tp_reply dev (abort_msg 0x01) s
      else
        (let sz = rts_size f; n = fdata f ! 3; pgn = rts_pgn f in
         if rts_invalid sz n then tp_reply dev (abort_msg 0x02) s
         else
           tp_reply dev ([TP_CM_CTS, n, 1, 0xFF, 0xFF] @ pgn_bytes pgn)
             (s\<lparr>jctx := (jctx s)\<lparr>
                  session := \<lparr>tp_pgn = pgn, total_size = sz, num_packets = n, next_packet = 1,
                              start_time = k_uptime_get_32 (jworld s)\<rparr>,
                  tp_in_progress := True\<rparr>\<rparr>)))"

definition tp_abort :: "can_dev \<Rightarrow> u8 \<Rightarrow> j1939 \<Rightarrow> j1939 res" where
  "tp_abort dev code s = res_bind (tp_reply dev (abort_msg code) s) (\<lambda>s'. Inr (end_session s'))"

text \<open>The tail of \<^verbatim>\<open>handle_tp_dt\<close>: acknowledgement, handler, end of the session.\<close>

definition tp_complete :: "can_dev \<Rightarrow> u16 \<Rightarrow> u8 \<Rightarrow> j1939 \<Rightarrow> j1939 res" where
  "tp_complete dev offset len s =
     (let ts = session (jctx s) in
      if int (unat (total_size ts)) \<noteq> int (unat offset) + int (unat len) then tp_abort dev 0x06 s
      else
        res_bind (tp_reply dev
            ([TP_CM_EndOfMsgAck, ucast (total_size ts AND 0xFF),
              ucast (drop_bit 8 (total_size ts) AND 0xFF), num_packets ts, 0xFF] @
             pgn_bytes (tp_pgn ts)) s) (\<lambda>s1.
        res_bind (call_handler (tp_pgn ts) (tp_buffer s1) (total_size ts) s1) (\<lambda>s2.
          Inr (k_sem_give (end_session s2)))))"

definition handle_tp_dt :: "can_dev \<Rightarrow> can_frame \<Rightarrow> j1939 \<Rightarrow> j1939 res" where
  "handle_tp_dt dev f s =
     (let ts = session (jctx s) in
      if \<not> tp_in_progress (jctx s) then Inr s
      else if TP_TIMEOUT_MS < k_uptime_get_32 (jworld s) - start_time ts then tp_abort dev 0x03 s
      else if fdata f ! 0 \<noteq> next_packet ts then tp_abort dev 0x04 s
      else
        (let offset = (word_of_int ((uint (fdata f ! 0) - 1) * 7) :: u16);
             len = (word_of_int (min 7 (uint (total_size ts) - uint offset)) :: u8) in
         if uint (total_size ts) < uint offset + uint len then tp_abort dev 0x05 s
         else
           res_bind (mem_read (fdata f) 1 (unat len)) (\<lambda>src.
           res_bind (memcpy_at (tp_buffer s) (unat offset) src) (\<lambda>buf.
             let s' = s\<lparr>tp_buffer := buf,
                        jctx := (jctx s)\<lparr>session := ts\<lparr>next_packet := next_packet ts + 1\<rparr>\<rparr>\<rparr> in
             if num_packets ts < next_packet ts + 1 then tp_complete dev offset len s'
             else Inr s'))))"

definition j1939_process_message :: "can_dev \<Rightarrow> can_frame \<Rightarrow> j1939 \<Rightarrow> j1939 res" where
  "j1939_process_message dev f s =
     (let pgn = frame_pgn f in
      if pgn = J1939_PGN_TP_CM then
        (let cmd = fdata f ! 0 in
         if cmd = TP_CM_RTS then handle_tp_rts dev f s
         else if cmd = TP_CM_CTS then Inr s
         else if cmd = TP_CM_EndOfMsgAck then Inr (k_sem_give (end_session s))
         else if cmd = TP_CM_BAM then Inr s
         else if cmd = TP_CM_Abort then Inr (k_sem_give (end_session s))
         else Inr s)
      else if pgn = J1939_PGN_TP_DT then handle_tp_dt dev f s
      else call_handler pgn (fdata f) (ucast (dlc f)) s)"

text \<open>A frame arrives at a time: the clock is set and the frame is processed.\<close>

definition at_time :: "nat \<Rightarrow> j1939 \<Rightarrow> j1939" where
  "at_time t s = s\<lparr>jworld := (jworld s)\<lparr>uptime := t\<rparr>\<rparr>"

definition j1939_arrival :: "can_dev \<Rightarrow> j1939 \<Rightarrow> nat \<times> can_frame \<Rightarrow> j1939 res" where
  "j1939_arrival dev s e = j1939_process_message dev (snd e) (at_time (fst e) s)"

end
