(* ===== verification/J1939_Transfer.thy ===== *)
theory J1939_Transfer
  imports J1939
begin

text \<open>
  What the J1939 transport protocol does end to end: the frames a sender emits, the session a
  receiver keeps, and the two put together. The message is cut into packets of seven bytes;
  \<open>n\<close> is the number of packets and \<open>i\<close> the number already received.
\<close>

section \<open>Identifiers\<close>

lemma frame_pgn_build:
  assumes "pgn AND 0x1FFFF = pgn"
  shows "drop_bit 8 (build_j1939_id pgn J1939_PRIORITY_MEDIUM sa da) AND 0x1FFFF = pgn"
proof (rule bit_word_eqI)
  fix n assume "n < LENGTH(32)"
  have m: "(0x1FFFF :: u32) = mask 17" by (simp add: mask_eq_exp_minus_1)
  have "bit pgn n \<Longrightarrow> n < 17"
    using arg_cong [OF assms, of "\<lambda>x. bit x n"] by (simp add: m bit_simps)
  moreover have "\<not> bit sa (n + 8)"
    using bit_imp_le_length [of sa "n + 8"] by auto
  ultimately show "bit (drop_bit 8 (build_j1939_id pgn J1939_PRIORITY_MEDIUM sa da) AND 0x1FFFF) n = bit pgn n"
    using \<open>n < LENGTH(32)\<close>
    by (auto simp: build_j1939_id_def m bit_simps add.commute)
qed

lemma build_low_byte: "build_j1939_id pgn p sa da AND 0xFF = ucast sa"
proof (rule bit_word_eqI)
  fix n assume n: "n < LENGTH(32)"
  have m: "(0xFF :: u32) = mask 8" by (simp add: mask_eq_exp_minus_1)
  have "bit sa n \<Longrightarrow> n < 8"
    using bit_imp_le_length [of sa n] by auto
  then show "bit (build_j1939_id pgn p sa da AND 0xFF) n = bit (ucast sa :: u32) n"
    using n by (auto simp: build_j1939_id_def m bit_simps)
qed

lemma ucast_u8_inject: "(ucast (a :: u8) :: u32) = ucast b \<longleftrightarrow> a = b"
proof
  assume eq: "(ucast a :: u32) = ucast b"
  show "a = b"
  proof (rule bit_word_eqI)
    fix n assume "n < LENGTH(8)"
    then show "bit a n = bit b n"
      using arg_cong [OF eq, of "\<lambda>x. bit x n"] by (simp add: bit_simps)
  qed
qed simp

lemma ucast_and_ff: "ucast (a :: u8) AND 0xFF = (ucast a :: u32)"
proof (rule bit_word_eqI)
  fix n assume "n < LENGTH(32)"
  have m: "(0xFF :: u32) = mask 8" by (simp add: mask_eq_exp_minus_1)
  show "bit (ucast a AND 0xFF :: u32) n = bit (ucast a :: u32) n"
    using bit_imp_le_length [of a n] by (auto simp: m bit_simps)
qed

section \<open>The sender\<close>

definition tp_frame :: "j1939_ctx \<Rightarrow> u32 \<Rightarrow> bytes \<Rightarrow> can_frame" where
  "tp_frame c pgn msg =
     \<lparr>fid = build_j1939_id pgn J1939_PRIORITY_MEDIUM (source_address c) (dest_address c),
      dlc = 8, fflags = CAN_FRAME_IDE, fdata = msg\<rparr>"

lemma frame_pgn_tp_frame: "pgn AND 0x1FFFF = pgn \<Longrightarrow> frame_pgn (tp_frame c pgn msg) = pgn"
  by (simp add: frame_pgn_def tp_frame_def frame_pgn_build)

lemma j1939_send_pgn_8:
  "length msg = 8 \<Longrightarrow> j1939_send_pgn dev c pgn msg 8 w = Inr (can_send dev (tp_frame c pgn msg) w)"
  by (simp add: j1939_send_pgn_def tp_frame_def mem_simps CAN_MAX_DLEN_def)

definition dt_packet :: "bytes \<Rightarrow> (nat \<Rightarrow> bytes) \<Rightarrow> nat \<Rightarrow> bytes" where
  "dt_packet data junk i =
     word_of_nat (i + 1) # take 7 (drop (i * 7) data) @ drop (1 + min 7 (length data - i * 7)) (junk i)"

lemma length_dt_packet: "length (junk i) = 8 \<Longrightarrow> length (dt_packet data junk i) = 8"
  by (simp add: dt_packet_def)

definition rts_msg :: "u32 \<Rightarrow> bytes \<Rightarrow> bytes" where
  "rts_msg pgn data = [TP_CM_RTS, ucast (word_of_nat (length data) AND 0xFF :: u16),
      ucast (drop_bit 8 (word_of_nat (length data)) AND 0xFF :: u16),
      word_of_nat ((length data + 6) div 7), 0xFF] @ pgn_bytes pgn"

lemma packet_start: "i < (len + 6) div 7 \<Longrightarrow> i * 7 < (len :: nat)"
  by linarith

lemma tp_packet_filled:
  assumes "i * 7 \<le> length data" and "length (junk i) = 8"
  shows "memcpy_at ((junk i)[0 := word_of_nat (i + 1)]) 1 (take (min 7 (length data - i * 7)) (drop (i * 7) data))
    = Inr (dt_packet data junk i)"
proof -
  obtain x xs where "junk i = x # xs" using assms(2) by (cases "junk i") auto
  then show ?thesis using assms
    by (simp add: dt_packet_def memcpy_at_def min_def)
qed

lemma tp_send_loop_eq:
  assumes "\<And>log f. 0 \<le> dev log f" and "\<And>k. length (junk k) = 8"
    and "n \<le> (length data + 6) div 7" and "i \<le> n"
  shows "\<exists>w'. tp_send_loop dev c junk data (length data) n i w = Inr (0, w') \<and>
    bus_log w' = bus_log w @
      map (\<lambda>k. (uptime w + 50 * (k - i), tp_frame c J1939_PGN_TP_DT (dt_packet data junk k))) [i..<n]"
  using assms(4)
proof (induction "n - i" arbitrary: i w)
  case 0
  then show ?case by (subst tp_send_loop.simps) simp
next
  case (Suc m)
  then have i: "i < n" "i * 7 < length data" using packet_start assms(3) by auto
  let ?f = "tp_frame c J1939_PGN_TP_DT (dt_packet data junk i)"
  let ?w = "k_sleep 50 (snd (can_send dev ?f w))"
  have step: "tp_send_loop dev c junk data (length data) n i w =
      tp_send_loop dev c junk data (length data) n (i + 1) ?w"
    using i assms(1) [of "bus_log w" ?f] assms(2) [of i] tp_packet_filled [of i data junk]
    by (subst tp_send_loop.simps)
       (simp add: mem_simps j1939_send_pgn_8 length_dt_packet can_send_def)
  have "m = n - (i + 1)" "i + 1 \<le> n" using Suc.hyps(2) i by auto
  from Suc.hyps(1) [OF this, of ?w]
  obtain w' where w': "tp_send_loop dev c junk data (length data) n (i + 1) ?w = Inr (0, w')"
    "bus_log w' = bus_log ?w @
      map (\<lambda>k. (uptime ?w + 50 * (k - (i + 1)), tp_frame c J1939_PGN_TP_DT (dt_packet data junk k))) [i + 1..<n]"
    by blast
  have "uptime w + 50 + 50 * (k - (i + 1)) = uptime w + 50 * (k - i)" if "k \<in> set [i + 1..<n]" for k
    using that by auto
  then have "map (\<lambda>k. (uptime ?w + 50 * (k - (i + 1)), tp_frame c J1939_PGN_TP_DT (dt_packet data junk k))) [i + 1..<n]
      = map (\<lambda>k. (uptime w + 50 * (k - i), tp_frame c J1939_PGN_TP_DT (dt_packet data junk k))) [i + 1..<n]"
    by simp
  then show ?case using step w' i by (simp add: upt_conv_Cons)
qed

text \<open>
  What a transfer of more than eight bytes puts on the bus when no send fails: the request and
  then one packet every fifty milliseconds.
\<close>

definition tp_transfer :: "j1939_ctx \<Rightarrow> (nat \<Rightarrow> bytes) \<Rightarrow> u32 \<Rightarrow> bytes \<Rightarrow> nat \<Rightarrow> (nat \<times> can_frame) list" where
  "tp_transfer c junk pgn data t =
     (t, tp_frame c J1939_PGN_TP_CM (rts_msg pgn data)) #
     map (\<lambda>k. (t + 50 * k, tp_frame c J1939_PGN_TP_DT (dt_packet data junk k)))
         [0..<(length data + 6) div 7]"

lemma length_pgn_bytes [simp]: "length (pgn_bytes pgn) = 3"
  by (simp add: pgn_bytes_def)

lemma j1939_send_tp_data_eq:
  assumes dev: "\<And>log f. 0 \<le> dev log f" and junk: "\<And>k. length (junk k) = 8"
    and len: "8 < length data" "length data \<le> 1785"
  shows "\<exists>w'. j1939_send_tp_data dev c junk pgn data (word_of_nat (length data)) w = Inr (0, w') \<and>
    bus_log w' = bus_log w @ tp_transfer c junk pgn data (uptime w)"
proof -
  let ?l = "word_of_nat (length data) :: u16"
  let ?n = "(length data + 6) div 7"
  have l: "unat ?l = length data" using len by (simp add: unat_of_nat_small)
  then have n: "tp_num_packets ?l = word_of_nat ?n" "unat (tp_num_packets ?l) = ?n"
    using len by (simp_all add: tp_num_packets_def unat_of_nat_small)
  have big: "\<not> ?l \<le> 8" using l len by (simp add: word_le_nat_alt)
  let ?f = "tp_frame c J1939_PGN_TP_CM (rts_msg pgn data)"
  let ?w = "snd (can_send dev ?f w)"
  have "j1939_send_tp_data dev c junk pgn data ?l w =
      tp_send_loop dev c junk data (length data) ?n 0 ?w"
    using big l n dev [of "bus_log w" ?f]
    by (simp add: j1939_send_tp_data_def Let_def rts_msg_def j1939_send_pgn_8 can_send_def)
  then show ?thesis
    using tp_send_loop_eq [of dev junk ?n data 0 c ?w] dev junk
    by (auto simp: tp_transfer_def)
qed

section \<open>The receiver\<close>

lemma tp_reply_ok:
  "length msg = 8 \<Longrightarrow> tp_reply dev msg s =
     Inr (s\<lparr>jworld := snd (can_send dev (tp_frame (jctx s) J1939_PGN_TP_CM msg) (jworld s))\<rparr>)"
  by (simp add: tp_reply_def j1939_send_pgn_8 can_send_def)

lemma length_abort_msg [simp]: "length (abort_msg c) = 8"
  by (simp add: abort_msg_def)

lemma tp_abort_ok:
  "tp_abort dev code s =
     Inr (end_session (s\<lparr>jworld :=
       snd (can_send dev (tp_frame (jctx s) J1939_PGN_TP_CM (abort_msg code)) (jworld s))\<rparr>))"
  by (simp add: tp_abort_def tp_reply_ok)

text \<open>
  A request is accepted exactly when its packet count is the number of pieces of seven the size
  needs, and the size fits the reassembly buffer.
\<close>

lemma packet_count:
  assumes "0 < (n :: nat)" and "0 < s"
  shows "s = (n - 1) * 7 + (if s mod 7 \<noteq> 0 then s mod 7 else 7) \<longleftrightarrow> n = (s + 6) div 7"
proof -
  define q r where "q = s div 7" and "r = s mod 7"
  have s: "s = q * 7 + r" and r: "r < 7" by (simp_all add: q_def r_def)
  have m: "s mod 7 = r" by (simp add: r_def)
  show ?thesis
  proof (cases "r = 0")
    case True
    then have "(s + 6) div 7 = q" using s by simp
    then show ?thesis using True s m assms by auto
  next
    case False
    have "(q * 7 + (r + 6)) div 7 = q + (r + 6) div 7" by simp
    moreover have "(r + 6) div 7 = 1" using r False by (intro div_nat_eqI) auto
    ultimately have "(s + 6) div 7 = q + 1" using s by (simp add: add.assoc)
    then show ?thesis using False s m assms by auto
  qed
qed

lemma rts_invalid_iff:
  "rts_invalid sz n \<longleftrightarrow>
     \<not> (0 < unat sz \<and> unat sz \<le> 1785 \<and> unat n = (unat sz + 6) div 7)"
proof (cases "sz = 0 \<or> n = 0 \<or> 1785 < unat sz")
  case True
  then show ?thesis by (auto simp: rts_invalid_def TP_BUFFER_SIZE_def)
next
  case False
  then have pos: "0 < unat sz" "0 < unat n" by (simp_all add: unat_gt_0)
  have nomax: "\<not> TP_MAX_PACKETS < n"
    by (simp add: TP_MAX_PACKETS_def word_less_nat_alt not_less) (use unat_u8_less [of n] in linarith)
  have "unat sz = (unat n - 1) * 7 + (if unat sz mod 7 \<noteq> 0 then unat sz mod 7 else 7) \<longleftrightarrow>
      unat n = (unat sz + 6) div 7"
    by (rule packet_count [OF pos(2) pos(1)])
  then show ?thesis using False nomax pos by (auto simp: rts_invalid_def TP_BUFFER_SIZE_def)
qed

text \<open>\<open>i\<close> packets of a message are in the buffer, and the session expects the next one.\<close>

definition tp_receiving :: "u32 \<Rightarrow> bytes \<Rightarrow> nat \<Rightarrow> nat \<Rightarrow> j1939 \<Rightarrow> bool" where
  "tp_receiving pgn data t0 i s \<longleftrightarrow>
     tp_in_progress (jctx s) \<and>
     session (jctx s) = \<lparr>tp_pgn = pgn, total_size = word_of_nat (length data),
       num_packets = word_of_nat ((length data + 6) div 7), next_packet = word_of_nat (i + 1),
       start_time = word_of_nat t0\<rparr> \<and>
     length (tp_buffer s) = TP_BUFFER_SIZE \<and> take (7 * i) (tp_buffer s) = take (7 * i) data"

lemma at_time_simps [simp]:
  "jctx (at_time t s) = jctx s" "pgn_handlers (at_time t s) = pgn_handlers s"
  "tp_buffer (at_time t s) = tp_buffer s" "calls (at_time t s) = calls s"
  "tp_sem (at_time t s) = tp_sem s"
  "bus_log (jworld (at_time t s)) = bus_log (jworld s)"
  "k_uptime_get_32 (jworld (at_time t s)) = word_of_nat t"
  by (simp_all add: at_time_def k_uptime_get_32_def)

lemma pgn_masks [simp]:
  "J1939_PGN_TP_DT AND 0x1FFFF = J1939_PGN_TP_DT"
  "J1939_PGN_TP_CM AND 0x1FFFF = J1939_PGN_TP_CM"
  "J1939_PGN_TP_DT \<noteq> J1939_PGN_TP_CM"
  by (simp_all add: tp_consts)

lemma arrival_dt:
  "j1939_arrival dev s (t, tp_frame c J1939_PGN_TP_DT p) =
     handle_tp_dt dev (tp_frame c J1939_PGN_TP_DT p) (at_time t s)"
  by (simp add: j1939_arrival_def j1939_process_message_def frame_pgn_tp_frame)

lemma tp_frame_data: "fdata (tp_frame c pgn p) = p"
  by (simp add: tp_frame_def)

lemma dt_packet_0: "dt_packet data junk i ! 0 = word_of_nat (i + 1)"
  by (simp add: dt_packet_def)

text \<open>In time and in sequence, a packet is copied to its place.\<close>

lemma dt_copied:
  assumes rcv: "tp_receiving pgn data t0 i s"
    and i: "i < (length data + 6) div 7" and len: "length data \<le> 1785"
    and junk: "length (junk i) = 8"
    and t: "t0 \<le> t" "t - t0 \<le> 750"
  defines "l \<equiv> min 7 (length data - i * 7)"
  obtains buf where
    "length buf = TP_BUFFER_SIZE" "take (i * 7 + l) buf = take (i * 7 + l) data"
    "j1939_arrival dev s (t, tp_frame c J1939_PGN_TP_DT (dt_packet data junk i)) =
       (let s' = (at_time t s)\<lparr>tp_buffer := buf,
              jctx := (jctx s)\<lparr>session := (session (jctx s))\<lparr>next_packet := word_of_nat (i + 1) + 1\<rparr>\<rparr>\<rparr> in
        if (word_of_nat ((length data + 6) div 7) :: u8) < word_of_nat (i + 1) + 1
        then tp_complete dev (word_of_nat (i * 7)) (word_of_nat l) s' else Inr s')"
proof -
  have i7: "i * 7 < length data" using packet_start [OF i] .
  have small: "i + 1 < 256" "i * 7 < 65536" "l < 256" "length data < 65536"
    using i len by (auto simp: l_def)
  have ui: "uint (word_of_nat (i + 1) :: u8) = int i + 1"
    using uint_of_nat_u8 [OF small(1)] by simp
  have "(int i + 1 - 1) * 7 = int (i * 7)" by simp
  then have off: "(word_of_int ((int i + 1 - 1) * 7) :: u16) = word_of_nat (i * 7)"
    by (simp only: of_int_of_nat_eq)
  have uoff: "uint (word_of_nat (i * 7) :: u16) = int (i * 7)"
    and utot: "uint (word_of_nat (length data) :: u16) = int (length data)"
    by (rule uint_of_nat_u16 [OF small(2)], rule uint_of_nat_u16 [OF small(4)])
  have off_nat: "unat (word_of_nat (i * 7) :: u16) = i * 7"
    by (rule unat_of_nat_u16 [OF small(2)])
  have "min 7 (int (length data) - int (i * 7)) = int l"
    using i7 unfolding l_def by linarith
  then have len': "(word_of_int (min 7 (int (length data) - int (i * 7))) :: u8) = word_of_nat l"
    by (simp only: of_int_of_nat_eq)
  have ul: "uint (word_of_nat l :: u8) = int l" "unat (word_of_nat l :: u8) = l"
    by (rule uint_of_nat_u8 [OF small(3)], rule unat_of_nat_u8 [OF small(3)])
  have fits: "i * 7 + l \<le> length data" using i7 by (simp add: l_def)
  have time: "\<not> TP_TIMEOUT_MS < word_of_nat t - word_of_nat t0"
    using t unat_word_diff_of_nat [where 'w = 32, OF t(1)]
    by (simp add: word_less_nat_alt TP_TIMEOUT_MS_def)
  have pkt: "mem_read (dt_packet data junk i) 1 l = Inr (take l (drop (i * 7) data))"
    using junk i7 by (simp add: mem_read_def dt_packet_def l_def min_def)
  have pre: "take (i * 7) (tp_buffer s) = take (i * 7) data" and lb: "length (tp_buffer s) = TP_BUFFER_SIZE"
    using rcv by (simp_all add: tp_receiving_def mult.commute)
  obtain buf where buf: "memcpy_at (tp_buffer s) (i * 7) (take l (drop (i * 7) data)) = Inr buf"
    "take (i * 7 + l) buf = take (i * 7) data @ take l (drop (i * 7) data)" "length buf = TP_BUFFER_SIZE"
    using memcpy_at_extends [OF pre, of "take l (drop (i * 7) data)"] fits lb len
    by (auto simp: TP_BUFFER_SIZE_def l_def)
  show ?thesis
  proof (rule that)
    show "length buf = TP_BUFFER_SIZE" by fact
    show "take (i * 7 + l) buf = take (i * 7 + l) data"
      using buf(2) by (simp add: take_add)
    show "j1939_arrival dev s (t, tp_frame c J1939_PGN_TP_DT (dt_packet data junk i)) =
       (let s' = (at_time t s)\<lparr>tp_buffer := buf,
              jctx := (jctx s)\<lparr>session := (session (jctx s))\<lparr>next_packet := word_of_nat (i + 1) + 1\<rparr>\<rparr>\<rparr> in
        if (word_of_nat ((length data + 6) div 7) :: u8) < word_of_nat (i + 1) + 1
        then tp_complete dev (word_of_nat (i * 7)) (word_of_nat l) s' else Inr s')"
      using rcv time fits
      by (simp only: arrival_dt handle_tp_dt_def tp_receiving_def Let_def at_time_simps
            tp_frame_data dt_packet_0 tp_session.select_convs ui off uoff utot off_nat len' ul pkt buf(1)
            res_bind_simps if_True if_False not_True_eq_False simp_thms of_nat_add [symmetric]
            of_nat_less_iff not_less [THEN iffD2])
  qed
qed

lemma packet_tests:
  assumes "i < n" and "n \<le> 255"
  shows "i + 1 < n \<Longrightarrow> \<not> (word_of_nat n :: u8) < word_of_nat (i + 1) + 1"
    and "i + 1 = n \<Longrightarrow> n \<le> 254 \<Longrightarrow> (word_of_nat n :: u8) < word_of_nat (i + 1) + 1"
    and "i + 1 = n \<Longrightarrow> n = 255 \<Longrightarrow> \<not> (word_of_nat n :: u8) < word_of_nat (i + 1) + 1"
proof -
  have w: "(word_of_nat (i + 1) + 1 :: u8) = word_of_nat (i + 2)" by simp
  have n: "unat (word_of_nat n :: u8) = n" using assms by (simp add: unat_of_nat_small)
  show "i + 1 < n \<Longrightarrow> \<not> (word_of_nat n :: u8) < word_of_nat (i + 1) + 1"
    "i + 1 = n \<Longrightarrow> n \<le> 254 \<Longrightarrow> (word_of_nat n :: u8) < word_of_nat (i + 1) + 1"
    unfolding w word_less_nat_alt n using assms unat_of_nat_u8 [of "i + 2"] by auto
  show "i + 1 = n \<Longrightarrow> n = 255 \<Longrightarrow> \<not> (word_of_nat n :: u8) < word_of_nat (i + 1) + 1"
    unfolding w word_less_nat_alt n using assms by simp
qed

text \<open>One packet of several: the session moves on and nothing else happens.\<close>

lemma dt_more:
  assumes "tp_receiving pgn data t0 i s"
    and "i + 1 < (length data + 6) div 7" and "length data \<le> 1785"
    and "length (junk i) = 8" and "t0 \<le> t" and "t - t0 \<le> 750"
  obtains s' where
    "j1939_arrival dev s (t, tp_frame c J1939_PGN_TP_DT (dt_packet data junk i)) = Inr s'"
    "tp_receiving pgn data t0 (i + 1) s'" "calls s' = calls s" "tp_sem s' = tp_sem s"
    "pgn_handlers s' = pgn_handlers s" "bus_log (jworld s') = bus_log (jworld s)"
    "\<And>p m. tp_frame (jctx s') p m = tp_frame (jctx s) p m"
proof -
  have i: "i < (length data + 6) div 7" and n: "(length data + 6) div 7 \<le> 255"
    using assms(2,3) by auto
  have i7: "(i + 1) * 7 < length data" by (rule packet_start [OF assms(2)])
  obtain buf where buf: "length buf = TP_BUFFER_SIZE"
    "take (i * 7 + min 7 (length data - i * 7)) buf = take (i * 7 + min 7 (length data - i * 7)) data"
    and eq: "j1939_arrival dev s (t, tp_frame c J1939_PGN_TP_DT (dt_packet data junk i)) =
       (let s' = (at_time t s)\<lparr>tp_buffer := buf,
              jctx := (jctx s)\<lparr>session := (session (jctx s))\<lparr>next_packet := word_of_nat (i + 1) + 1\<rparr>\<rparr>\<rparr> in
        if (word_of_nat ((length data + 6) div 7) :: u8) < word_of_nat (i + 1) + 1
        then tp_complete dev (word_of_nat (i * 7)) (word_of_nat (min 7 (length data - i * 7))) s' else Inr s')"
    by (rule dt_copied [where junk = junk and i = i and data = data and dev = dev and c = c, OF assms(1) i assms(3-6)]) blast
  have full: "i * 7 + min 7 (length data - i * 7) = 7 * (i + 1)" using i7 by simp
  show ?thesis
  proof (rule that)
    show "j1939_arrival dev s (t, tp_frame c J1939_PGN_TP_DT (dt_packet data junk i)) =
      Inr ((at_time t s)\<lparr>tp_buffer := buf,
              jctx := (jctx s)\<lparr>session := (session (jctx s))\<lparr>next_packet := word_of_nat (i + 1) + 1\<rparr>\<rparr>\<rparr>)"
      using eq packet_tests(1) [OF i n assms(2)] by (simp add: Let_def)
  qed (use assms(1) buf full in \<open>simp_all add: tp_receiving_def tp_frame_def\<close>)
qed

definition eom_msg :: "u32 \<Rightarrow> u16 \<Rightarrow> u8 \<Rightarrow> bytes" where
  "eom_msg pgn len n =
     [TP_CM_EndOfMsgAck, ucast (len AND 0xFF), ucast (drop_bit 8 len AND 0xFF), n, 0xFF] @ pgn_bytes pgn"

lemma tp_complete_ok:
  assumes "ts = session (jctx s)" and "unat offset + unat len = unat (total_size ts)"
    and "find (\<lambda>h. h_pgn h = tp_pgn ts) (pgn_handlers s) = Some \<lparr>h_pgn = tp_pgn ts, h_fun = Some k\<rparr>"
  shows "tp_complete dev offset len s =
     Inr (k_sem_give (end_session (s\<lparr>
       jworld := snd (can_send dev (tp_frame (jctx s) J1939_PGN_TP_CM
                   (eom_msg (tp_pgn ts) (total_size ts) (num_packets ts))) (jworld s)),
       calls := calls s @ [(k, take (unat (total_size ts)) (tp_buffer s), total_size ts)]\<rparr>)))"
proof -
  have "uint (total_size ts) = uint offset + uint len"
    using arg_cong [OF assms(2), of int] by simp
  then show ?thesis
    using assms(3) unfolding tp_complete_def Let_def assms(1) [symmetric]
    by (simp add: tp_reply_ok call_handler_def eom_msg_def)
qed

text \<open>The last packet: acknowledgement, handler call with the whole message, end of session.\<close>

lemma dt_last:
  assumes "tp_receiving pgn data t0 i s"
    and "i + 1 = (length data + 6) div 7" and "length data \<le> 1778"
    and "length (junk i) = 8" and "t0 \<le> t" and "t - t0 \<le> 750"
    and h: "find (\<lambda>h. h_pgn h = pgn) (pgn_handlers s) = Some \<lparr>h_pgn = pgn, h_fun = Some k\<rparr>"
  obtains s' where
    "j1939_arrival dev s (t, tp_frame c J1939_PGN_TP_DT (dt_packet data junk i)) = Inr s'"
    "\<not> tp_in_progress (jctx s')" "calls s' = calls s @ [(k, data, word_of_nat (length data))]"
    "tp_sem s' = min 1 (tp_sem s + 1)"
    "bus_log (jworld s') = bus_log (jworld s) @
       [(t, tp_frame (jctx s) J1939_PGN_TP_CM (eom_msg pgn (word_of_nat (length data)) (word_of_nat ((length data + 6) div 7))))]"
proof -
  have i: "i < (length data + 6) div 7" and n: "(length data + 6) div 7 \<le> 254" "length data \<le> 1785"
    "(length data + 6) div 7 \<le> 255"
    using assms(2,3) by auto
  have i7: "i * 7 < length data" by (rule packet_start [OF i])
  define l where "l = min 7 (length data - i * 7)"
  obtain buf where buf: "length buf = TP_BUFFER_SIZE" "take (i * 7 + l) buf = take (i * 7 + l) data"
    and eq: "j1939_arrival dev s (t, tp_frame c J1939_PGN_TP_DT (dt_packet data junk i)) =
       (let s' = (at_time t s)\<lparr>tp_buffer := buf,
              jctx := (jctx s)\<lparr>session := (session (jctx s))\<lparr>next_packet := word_of_nat (i + 1) + 1\<rparr>\<rparr>\<rparr> in
        if (word_of_nat ((length data + 6) div 7) :: u8) < word_of_nat (i + 1) + 1
        then tp_complete dev (word_of_nat (i * 7)) (word_of_nat l) s' else Inr s')"
    unfolding l_def
    by (rule dt_copied [where junk = junk and i = i and data = data and dev = dev and c = c, OF assms(1) i n(2) assms(4-6)]) blast
  have full: "i * 7 + l = length data" using i7 assms(2) unfolding l_def by linarith
  have msg: "take (length data) buf = data" using buf full by simp
  have u: "unat (word_of_nat (length data) :: u16) = length data" "unat (word_of_nat (i * 7) :: u16) = i * 7"
    "unat (word_of_nat l :: u8) = l"
    by (rule unat_of_nat_u16, use n i7 in simp, rule unat_of_nat_u16, use n i7 in simp,
        rule unat_of_nat_u8, simp add: l_def)
  let ?s = "(at_time t s)\<lparr>tp_buffer := buf,
      jctx := (jctx s)\<lparr>session := (session (jctx s))\<lparr>next_packet := word_of_nat (i + 1) + 1\<rparr>\<rparr>\<rparr>"
  have ts: "session (jctx ?s) = \<lparr>tp_pgn = pgn, total_size = word_of_nat (length data),
      num_packets = word_of_nat ((length data + 6) div 7), next_packet = word_of_nat (i + 1) + 1,
      start_time = word_of_nat t0\<rparr>" (is "_ = ?ts")
    using assms(1) by (simp add: tp_receiving_def)
  have add: "unat (word_of_nat (i * 7) :: u16) + unat (word_of_nat l :: u8) = unat (total_size ?ts)"
    using full by (simp only: u tp_session.select_convs)
  have cmp: "tp_complete dev (word_of_nat (i * 7)) (word_of_nat l) ?s =
      Inr (k_sem_give (end_session (?s\<lparr>
        jworld := snd (can_send dev (tp_frame (jctx ?s) J1939_PGN_TP_CM
           (eom_msg pgn (word_of_nat (length data)) (word_of_nat ((length data + 6) div 7)))) (jworld ?s)),
        calls := calls s @ [(k, data, word_of_nat (length data))]\<rparr>)))"
    using tp_complete_ok [OF ts [symmetric] add, of k dev] h msg by (simp add: u(1))
  have fr: "tp_frame (jctx ?s) p m = tp_frame (jctx s) p m" for p m
    by (simp add: tp_frame_def)
  show ?thesis
  proof (rule that)
    show "j1939_arrival dev s (t, tp_frame c J1939_PGN_TP_DT (dt_packet data junk i)) =
      Inr (k_sem_give (end_session (?s\<lparr>
        jworld := snd (can_send dev (tp_frame (jctx s) J1939_PGN_TP_CM
           (eom_msg pgn (word_of_nat (length data)) (word_of_nat ((length data + 6) div 7)))) (jworld ?s)),
        calls := calls s @ [(k, data, word_of_nat (length data))]\<rparr>)))"
      using eq packet_tests(2) [OF i n(3) assms(2) n(1)] cmp fr by (simp add: Let_def)
  qed (simp_all add: k_sem_give_def end_session_def at_time_def)
qed

text \<open>The last of 255 packets: the counter wraps to zero and the session stays open.\<close>

lemma dt_wrap:
  assumes "tp_receiving pgn data t0 254 s"
    and n: "(length data + 6) div 7 = 255" and len: "length data \<le> 1785"
    and "\<And>k. length (junk k) = 8" and "t0 \<le> t" and "t - t0 \<le> 750"
  obtains s' where
    "j1939_arrival dev s (t, tp_frame c J1939_PGN_TP_DT (dt_packet data junk 254)) = Inr s'"
    "take (length data) (tp_buffer s') = data" "calls s' = calls s" "tp_sem s' = tp_sem s"
    "tp_in_progress (jctx s')" "next_packet (session (jctx s')) = 0"
    "bus_log (jworld s') = bus_log (jworld s)"
proof -
  have i: "254 < (length data + 6) div 7" using n by simp
  have full: "254 * 7 + min 7 (length data - 254 * 7) = length data"
    using packet_start [OF i] len by simp
  obtain buf where buf: "take (254 * 7 + min 7 (length data - 254 * 7)) buf =
      take (254 * 7 + min 7 (length data - 254 * 7)) data"
    and eq: "j1939_arrival dev s (t, tp_frame c J1939_PGN_TP_DT (dt_packet data junk 254)) =
       (let s' = (at_time t s)\<lparr>tp_buffer := buf,
              jctx := (jctx s)\<lparr>session := (session (jctx s))\<lparr>next_packet := word_of_nat (254 + 1) + 1\<rparr>\<rparr>\<rparr> in
        if (word_of_nat ((length data + 6) div 7) :: u8) < word_of_nat (254 + 1) + 1
        then tp_complete dev (word_of_nat (254 * 7)) (word_of_nat (min 7 (length data - 254 * 7))) s' else Inr s')"
    by (rule dt_copied [where junk = junk and i = 254 and data = data and dev = dev and c = c,
        OF assms(1) i len assms(4-6)]) blast
  have eq': "j1939_arrival dev s (t, tp_frame c J1939_PGN_TP_DT (dt_packet data junk 254)) =
       Inr ((at_time t s)\<lparr>tp_buffer := buf, jctx := (jctx s)\<lparr>session := (session (jctx s))\<lparr>next_packet := 0\<rparr>\<rparr>\<rparr>)"
    unfolding eq n by (simp add: Let_def)
  have msg: "take (length data) buf = data" using buf unfolding full by simp
  show ?thesis by (rule that, rule eq') (use assms(1) msg in \<open>simp_all add: tp_receiving_def\<close>)
qed

text \<open>A request from an idle state opens the session and is answered with a clear to send.\<close>

lemma pgn_bytes_back: "pgn AND 0xFFFFFF = pgn \<Longrightarrow>
    ucast (ucast (pgn AND 0xFF) :: u8) OR push_bit 8 (ucast (ucast (drop_bit 8 pgn AND 0xFF) :: u8)) OR
    push_bit 16 (ucast (ucast (drop_bit 16 pgn AND 0xFF) :: u8)) = (pgn :: u32)"
proof (rule bit_word_eqI)
  fix n assume a: "pgn AND 0xFFFFFF = pgn" and n: "n < LENGTH(32)"
  have m: "(0xFFFFFF :: u32) = mask 24" "(0xFF :: u32) = mask 8" by (simp_all add: mask_eq_exp_minus_1)
  have "bit pgn n \<Longrightarrow> n < 24"
    using arg_cong [OF a, of "\<lambda>x. bit x n"] by (simp add: m bit_simps)
  then show "bit (ucast (ucast (pgn AND 0xFF) :: u8) OR push_bit 8 (ucast (ucast (drop_bit 8 pgn AND 0xFF) :: u8)) OR
    push_bit 16 (ucast (ucast (drop_bit 16 pgn AND 0xFF) :: u8)) :: u32) n = bit pgn n"
    using n by (cases "n < 8"; cases "n < 16"; cases "bit pgn n") (simp_all add: m bit_simps, linarith, linarith)
qed

lemma size_bytes_back:
  "(ucast (ucast (x AND 0xFF) :: u8) OR push_bit 8 (ucast (ucast (drop_bit 8 x AND 0xFF) :: u8))) = (x :: u16)"
proof (rule bit_word_eqI)
  fix n assume n: "n < LENGTH(16)"
  have m: "(0xFF :: u16) = mask 8" by (simp_all add: mask_eq_exp_minus_1)
  show "bit (ucast (ucast (x AND 0xFF) :: u8) OR push_bit 8 (ucast (ucast (drop_bit 8 x AND 0xFF) :: u8)) :: u16) n
      = bit x n"
    using n by (cases "n < 8") (simp_all add: m bit_simps, linarith)
qed

lemma rts_frame_fields:
  "rts_size (tp_frame c p (rts_msg pgn data)) = word_of_nat (length data)"
  "pgn AND 0xFFFFFF = pgn \<Longrightarrow> rts_pgn (tp_frame c p (rts_msg pgn data)) = pgn"
  "fdata (tp_frame c p (rts_msg pgn data)) ! 0 = TP_CM_RTS"
  "fdata (tp_frame c p (rts_msg pgn data)) ! 3 = word_of_nat ((length data + 6) div 7)"
  by (simp_all add: rts_size_def rts_pgn_def tp_frame_data rts_msg_def pgn_bytes_def
      size_bytes_back pgn_bytes_back)

definition cts_msg :: "u32 \<Rightarrow> u8 \<Rightarrow> bytes" where
  "cts_msg pgn n = [TP_CM_CTS, n, 1, 0xFF, 0xFF] @ pgn_bytes pgn"

lemma length_cts_msg: "length (cts_msg pgn n) = 8"
  by (simp add: cts_msg_def)

lemma rts_arrival:
  assumes idle: "\<not> tp_in_progress (jctx s)" and buf: "length (tp_buffer s) = TP_BUFFER_SIZE"
    and len: "0 < length data" "length data \<le> 1785" and pgn: "pgn AND 0xFFFFFF = pgn"
  obtains s' where
    "j1939_arrival dev s (t0, tp_frame c J1939_PGN_TP_CM (rts_msg pgn data)) = Inr s'"
    "tp_receiving pgn data t0 0 s'" "calls s' = calls s" "tp_sem s' = tp_sem s"
    "pgn_handlers s' = pgn_handlers s"
    "\<And>p m. tp_frame (jctx s') p m = tp_frame (jctx s) p m"
    "bus_log (jworld s') = bus_log (jworld s) @
       [(t0, tp_frame (jctx s) J1939_PGN_TP_CM (cts_msg pgn (word_of_nat ((length data + 6) div 7))))]"
proof -
  let ?n = "(length data + 6) div 7"
  let ?ts = "\<lparr>tp_pgn = pgn, total_size = word_of_nat (length data), num_packets = word_of_nat ?n,
      next_packet = 1, start_time = word_of_nat t0\<rparr>"
  let ?s = "(at_time t0 s)\<lparr>jctx := (jctx s)\<lparr>session := ?ts, tp_in_progress := True\<rparr>\<rparr>"
  have "\<not> rts_invalid (word_of_nat (length data)) (word_of_nat ?n)"
    using len by (simp add: rts_invalid_iff unat_of_nat_small)
  then have "j1939_arrival dev s (t0, tp_frame c J1939_PGN_TP_CM (rts_msg pgn data)) =
      tp_reply dev (cts_msg pgn (word_of_nat ?n)) ?s"
    using idle pgn
    by (simp add: j1939_arrival_def j1939_process_message_def frame_pgn_tp_frame handle_tp_rts_def
        rts_frame_fields Let_def cts_msg_def)
  also have "\<dots> = Inr (?s\<lparr>jworld := snd (can_send dev
      (tp_frame (jctx ?s) J1939_PGN_TP_CM (cts_msg pgn (word_of_nat ?n))) (jworld ?s))\<rparr>)"
    by (simp add: tp_reply_ok cts_msg_def)
  finally show ?thesis
    by (rule that) (simp_all add: tp_receiving_def buf tp_frame_def at_time_def)
qed

section \<open>Runs\<close>

text \<open>The packets from \<open>i\<close> to \<open>m\<close>, each with its time of arrival.\<close>

definition dt_stream :: "j1939_ctx \<Rightarrow> (nat \<Rightarrow> bytes) \<Rightarrow> bytes \<Rightarrow> (nat \<Rightarrow> nat) \<Rightarrow> nat \<Rightarrow> nat \<Rightarrow> (nat \<times> can_frame) list" where
  "dt_stream c junk data arr i m =
     map (\<lambda>k. (arr k, tp_frame c J1939_PGN_TP_DT (dt_packet data junk k))) [i..<m]"

lemma dt_stream_Cons: "i < m \<Longrightarrow> dt_stream c junk data arr i m =
    (arr i, tp_frame c J1939_PGN_TP_DT (dt_packet data junk i)) # dt_stream c junk data arr (i + 1) m"
  by (simp add: dt_stream_def upt_conv_Cons)

lemma dt_stream_split: "i \<le> m \<Longrightarrow> m \<le> n \<Longrightarrow>
    dt_stream c junk data arr i n = dt_stream c junk data arr i m @ dt_stream c junk data arr m n"
  using upt_add_eq_append [of i m "n - m"] by (simp add: dt_stream_def)

lemma dt_run:
  assumes "i + d < (length data + 6) div 7" and "length data \<le> 1785"
    and "\<And>k. length (junk k) = 8" and "\<And>k. k < i + d \<Longrightarrow> t0 \<le> arr k \<and> arr k - t0 \<le> 750"
    and "tp_receiving pgn data t0 i s"
  shows "\<exists>s'. res_run (j1939_arrival dev) s (dt_stream c junk data arr i (i + d)) = Inr s' \<and>
    tp_receiving pgn data t0 (i + d) s' \<and> calls s' = calls s \<and> tp_sem s' = tp_sem s \<and>
    pgn_handlers s' = pgn_handlers s \<and> bus_log (jworld s') = bus_log (jworld s) \<and>
    (\<forall>p m. tp_frame (jctx s') p m = tp_frame (jctx s) p m)"
  using assms(1,4,5)
proof (induction d arbitrary: i s)
  case 0
  then show ?case by (simp add: dt_stream_def)
next
  case (Suc d)
  have "i + 1 < (length data + 6) div 7" "t0 \<le> arr i" "arr i - t0 \<le> 750"
    using Suc.prems(1,2) by auto
  from dt_more [where junk = junk and i = i and data = data and dev = dev and c = c,
      OF Suc.prems(3) this(1) assms(2) assms(3) this(2,3)]
  obtain u where u: "j1939_arrival dev s (arr i, tp_frame c J1939_PGN_TP_DT (dt_packet data junk i)) = Inr u"
    "tp_receiving pgn data t0 (i + 1) u" "calls u = calls s" "tp_sem u = tp_sem s"
    "pgn_handlers u = pgn_handlers s" "bus_log (jworld u) = bus_log (jworld s)"
    "\<And>p m. tp_frame (jctx u) p m = tp_frame (jctx s) p m"
    by metis
  have "i + 1 + d < (length data + 6) div 7" using Suc.prems(1) by simp
  from Suc.IH [OF this _ u(2)] Suc.prems(2)
  obtain s' where "res_run (j1939_arrival dev) u (dt_stream c junk data arr (i + 1) (i + 1 + d)) = Inr s'"
    "tp_receiving pgn data t0 (i + 1 + d) s'" "calls s' = calls u" "tp_sem s' = tp_sem u"
    "pgn_handlers s' = pgn_handlers u" "bus_log (jworld s') = bus_log (jworld u)"
    "\<forall>p m. tp_frame (jctx s') p m = tp_frame (jctx u) p m"
    by fastforce
  then show ?case using u by (simp add: dt_stream_Cons)
qed

text \<open>A packet after the timeout aborts the session; packets without a session are ignored.\<close>

lemma dt_late:
  assumes "tp_receiving pgn data t0 i s" and "t0 + 750 < t" and "t - t0 < 4294967296"
  shows "j1939_arrival dev s (t, tp_frame c J1939_PGN_TP_DT p) = tp_abort dev 0x03 (at_time t s)"
proof -
  have "TP_TIMEOUT_MS < word_of_nat t - word_of_nat t0"
    using assms(2,3) unat_word_diff_of_nat [where 'w = 32, of t0 t]
    by (simp add: word_less_nat_alt TP_TIMEOUT_MS_def)
  then show ?thesis
    using assms(1) by (simp add: arrival_dt handle_tp_dt_def Let_def tp_receiving_def)
qed

lemma dt_idle:
  "\<not> tp_in_progress (jctx s) \<Longrightarrow>
     j1939_arrival dev s (t, tp_frame c J1939_PGN_TP_DT p) = Inr (at_time t s)"
  by (simp add: arrival_dt handle_tp_dt_def Let_def)

lemma dt_idle_run:
  "\<not> tp_in_progress (jctx s) \<Longrightarrow>
     \<exists>s'. res_run (j1939_arrival dev) s (dt_stream c junk data arr i (i + d)) = Inr s' \<and>
       \<not> tp_in_progress (jctx s') \<and> calls s' = calls s \<and> tp_sem s' = tp_sem s \<and>
       bus_log (jworld s') = bus_log (jworld s)"
proof (induction d arbitrary: i s)
  case 0
  then show ?case by (simp add: dt_stream_def)
next
  case (Suc d)
  then have "\<not> tp_in_progress (jctx (at_time (arr i) s))" by simp
  from Suc.IH [OF this, of "i + 1"] show ?case
    by (auto simp: dt_stream_Cons dt_idle [OF Suc.prems])
qed

lemma tp_transfer_stream:
  "tp_transfer c junk pgn data t = (t, tp_frame c J1939_PGN_TP_CM (rts_msg pgn data)) #
     dt_stream c junk data (\<lambda>k. t + 50 * k) 0 ((length data + 6) div 7)"
  by (simp add: tp_transfer_def dt_stream_def)

text \<open>Request and packets in time: delivery.\<close>

lemma tp_delivers_in_time_core:
  assumes "8 < length data" and "length data \<le> 1778" and "pgn AND 0xFFFFFF = pgn"
    and "\<And>k. length (junk k) = 8"
    and "\<And>k. k < (length data + 6) div 7 \<Longrightarrow> t0 \<le> arr k \<and> arr k - t0 \<le> 750"
    and "\<not> tp_in_progress (jctx s)" and "length (tp_buffer s) = TP_BUFFER_SIZE"
    and "find (\<lambda>h. h_pgn h = pgn) (pgn_handlers s) = Some \<lparr>h_pgn = pgn, h_fun = Some k\<rparr>"
  shows "\<exists>s'. res_run (j1939_arrival dev) s
      ((t0, tp_frame c J1939_PGN_TP_CM (rts_msg pgn data)) #
       dt_stream c junk data arr 0 ((length data + 6) div 7)) = Inr s' \<and>
    calls s' = calls s @ [(k, data, word_of_nat (length data))] \<and>
    \<not> tp_in_progress (jctx s') \<and> tp_sem s' = min 1 (tp_sem s + 1) \<and>
    bus_log (jworld s') = bus_log (jworld s) @
      [(t0, tp_frame (jctx s) J1939_PGN_TP_CM (cts_msg pgn (word_of_nat ((length data + 6) div 7)))),
       (arr ((length data + 6) div 7 - 1), tp_frame (jctx s) J1939_PGN_TP_CM
          (eom_msg pgn (word_of_nat (length data)) (word_of_nat ((length data + 6) div 7))))]"
proof -
  define n where "n = (length data + 6) div 7"
  have n: "0 + (n - 1) < n" "n - 1 + 1 = n" using assms(1) by (auto simp: n_def)
  have n': "n - 1 + 1 = (length data + 6) div 7" using n by (simp add: n_def)
  have len: "0 < length data" "length data \<le> 1785" using assms(1,2) by auto
  from rts_arrival [where dev = dev and c = c and ?t0.0 = t0, OF assms(6,7) len assms(3)]
  obtain s1 where s1: "j1939_arrival dev s (t0, tp_frame c J1939_PGN_TP_CM (rts_msg pgn data)) = Inr s1"
    "tp_receiving pgn data t0 0 s1" "calls s1 = calls s" "tp_sem s1 = tp_sem s"
    "pgn_handlers s1 = pgn_handlers s" "\<And>p m. tp_frame (jctx s1) p m = tp_frame (jctx s) p m"
    "bus_log (jworld s1) = bus_log (jworld s) @
       [(t0, tp_frame (jctx s) J1939_PGN_TP_CM (cts_msg pgn (word_of_nat n)))]"
    unfolding n_def by metis
  have "t0 \<le> arr j \<and> arr j - t0 \<le> 750" if "j < 0 + (n - 1)" for j
    using assms(5) that n unfolding n_def by fastforce
  from dt_run [where dev = dev and c = c and arr = arr and junk = junk,
      OF n(1) [unfolded n_def] len(2) assms(4) this [unfolded n_def] s1(2)]
  obtain s2 where s2: "res_run (j1939_arrival dev) s1 (dt_stream c junk data arr 0 (n - 1)) = Inr s2"
    "tp_receiving pgn data t0 (n - 1) s2" "calls s2 = calls s1" "tp_sem s2 = tp_sem s1"
    "pgn_handlers s2 = pgn_handlers s1" "bus_log (jworld s2) = bus_log (jworld s1)"
    "\<And>p m. tp_frame (jctx s2) p m = tp_frame (jctx s1) p m"
    unfolding n_def by auto
  have h: "find (\<lambda>h. h_pgn h = pgn) (pgn_handlers s2) = Some \<lparr>h_pgn = pgn, h_fun = Some k\<rparr>"
    using assms(8) s1(5) s2(5) by simp
  have t: "t0 \<le> arr (n - 1)" "arr (n - 1) - t0 \<le> 750"
    using assms(5) [of "n - 1"] n unfolding n_def by auto
  from dt_last [where junk = junk and i = "n - 1" and data = data and dev = dev and c = c,
      OF s2(2) n' assms(2) assms(4) t h]
  obtain s3 where "j1939_arrival dev s2
      (arr (n - 1), tp_frame c J1939_PGN_TP_DT (dt_packet data junk (n - 1))) = Inr s3"
    "\<not> tp_in_progress (jctx s3)" "calls s3 = calls s2 @ [(k, data, word_of_nat (length data))]"
    "tp_sem s3 = min 1 (tp_sem s2 + 1)"
    "bus_log (jworld s3) = bus_log (jworld s2) @ [(arr (n - 1), tp_frame (jctx s2) J1939_PGN_TP_CM
       (eom_msg pgn (word_of_nat (length data)) (word_of_nat n)))]"
    unfolding n_def by metis
  moreover have "dt_stream c junk data arr 0 n = dt_stream c junk data arr 0 (n - 1) @
      [(arr (n - 1), tp_frame c J1939_PGN_TP_DT (dt_packet data junk (n - 1)))]"
    using dt_stream_split [of 0 "n - 1" n] n dt_stream_Cons [of "n - 1" n] by (simp add: dt_stream_def)
  ultimately show ?thesis
    using s1 s2 unfolding n_def [symmetric] by (simp add: res_run_append)
qed

section \<open>Safety of the receive path\<close>

text \<open>
  The receiver's invariant: the reassembly buffer has its size, and the size of an open session
  fits it. A received frame has eight data bytes.
\<close>

definition j1939_inv :: "j1939 \<Rightarrow> bool" where
  "j1939_inv s \<longleftrightarrow> length (tp_buffer s) = TP_BUFFER_SIZE \<and>
     (tp_in_progress (jctx s) \<longrightarrow> unat (total_size (session (jctx s))) \<le> TP_BUFFER_SIZE)"

definition bus_event :: "nat \<times> can_frame \<Rightarrow> bool" where
  "bus_event e \<longleftrightarrow> length (fdata (snd e)) = CAN_MAX_DLEN"

lemma j1939_inv_frames:
  "j1939_inv s \<Longrightarrow> j1939_inv (at_time t s)"
  "j1939_inv s \<Longrightarrow> j1939_inv (end_session s)"
  "j1939_inv (k_sem_give s) = j1939_inv s"
  "j1939_inv (s\<lparr>jworld := w\<rparr>) = j1939_inv s"
  "j1939_inv (s\<lparr>calls := cs\<rparr>) = j1939_inv s"
  by (simp_all add: j1939_inv_def end_session_def k_sem_give_def)

text \<open>A step's result: the invariant and the handler table kept, or a call through a null pointer.\<close>

definition safe_result :: "j1939 \<Rightarrow> j1939 res \<Rightarrow> bool" where
  "safe_result s r = (case r of
     Inr s' \<Rightarrow> j1939_inv s' \<and> pgn_handlers s' = pgn_handlers s
   | Inl x \<Rightarrow> x = Null_Call \<and> (\<exists>h \<in> set (pgn_handlers s). h_fun h = None))"

lemma safe_result_Inr [simp]:
  "safe_result s (Inr s') \<longleftrightarrow> j1939_inv s' \<and> pgn_handlers s' = pgn_handlers s"
  by (simp add: safe_result_def)

lemma tp_reply_safe: "length msg = 8 \<Longrightarrow> j1939_inv s \<Longrightarrow> safe_result s (tp_reply dev msg s)"
  by (simp add: tp_reply_ok j1939_inv_frames)

lemma tp_abort_safe: "j1939_inv s \<Longrightarrow> safe_result s (tp_abort dev code s)"
  by (simp add: tp_abort_ok j1939_inv_frames) (simp add: end_session_def)

lemma call_handler_safe: "j1939_inv s \<Longrightarrow> safe_result s (call_handler pgn data len s)"
  by (auto simp: call_handler_def safe_result_def j1939_inv_frames find_Some_iff
      split: option.splits)

lemma rts_safe: "j1939_inv s \<Longrightarrow> safe_result s (handle_tp_rts dev f s)"
proof -
  assume s: "j1939_inv s"
  have a: "safe_result s (tp_reply dev (abort_msg code) s)" for code
    by (rule tp_reply_safe [OF length_abort_msg s])
  show ?thesis
    using a s
    by (auto simp: handle_tp_rts_def Let_def tp_reply_ok rts_invalid_iff j1939_inv_def TP_BUFFER_SIZE_def)
qed

lemma tp_complete_safe: "j1939_inv s \<Longrightarrow> safe_result s (tp_complete dev off len s)"
proof -
  assume s: "j1939_inv s"
  let ?ts = "session (jctx s)"
  let ?w = "snd (can_send dev (tp_frame (jctx s) J1939_PGN_TP_CM
      (eom_msg (tp_pgn ?ts) (total_size ?ts) (num_packets ?ts))) (jworld s))"
  have c: "safe_result (s\<lparr>jworld := ?w\<rparr>) (call_handler pgn data n (s\<lparr>jworld := ?w\<rparr>))" for pgn data n
    by (rule call_handler_safe) (simp add: s j1939_inv_frames)
  have e: "j1939_inv u \<Longrightarrow> j1939_inv (k_sem_give (end_session u)) \<and>
      pgn_handlers (k_sem_give (end_session u)) = pgn_handlers u" for u
    by (simp add: j1939_inv_frames k_sem_give_def) (simp add: end_session_def j1939_inv_def)
  have "safe_result s (tp_abort dev code s)" for code
    by (rule tp_abort_safe [OF s])
  moreover have "safe_result s (res_bind (call_handler pgn data n (s\<lparr>jworld := ?w\<rparr>))
      (\<lambda>u. Inr (k_sem_give (end_session u))))" for pgn data n
    using c [of pgn data n] e by (cases "call_handler pgn data n (s\<lparr>jworld := ?w\<rparr>)") (auto simp: safe_result_def)
  ultimately show ?thesis
    by (simp add: tp_complete_def Let_def tp_reply_ok eom_msg_def)
qed

text \<open>The bounds check before the copy is enough, also after the packet number has wrapped.\<close>

lemma dt_bounds:
  fixes total :: u16 and p :: u8
  defines "off \<equiv> (word_of_int ((uint p - 1) * 7) :: u16)"
  defines "len \<equiv> (word_of_int (min 7 (uint total - uint off)) :: u8)"
  assumes "\<not> uint total < uint off + uint len"
  shows "unat len \<le> 7" and "unat off + unat len \<le> unat total"
proof -
  have "0 \<le> uint len" by simp
  then have "0 \<le> min 7 (uint total - uint off)" using assms(3) by linarith
  moreover have "min 7 (uint total - uint off) < 256" by linarith
  ultimately have "uint len = min 7 (uint total - uint off)"
    unfolding len_def by (simp add: uint_word_of_int take_bit_int_eq_self)
  then have "uint len \<le> 7" by simp
  then show "unat len \<le> 7" by (simp flip: of_nat_le_iff [where 'a = int])
  show "unat off + unat len \<le> unat total"
    using assms(3) by (simp flip: of_nat_le_iff [where 'a = int])
qed

lemma dt_safe:
  assumes s: "j1939_inv s" and f: "length (fdata f) = CAN_MAX_DLEN"
  shows "safe_result s (handle_tp_dt dev f s)"
proof -
  let ?ts = "session (jctx s)"
  define off where "off = (word_of_int ((uint (fdata f ! 0) - 1) * 7) :: u16)"
  define len where "len = (word_of_int (min 7 (uint (total_size ?ts) - uint off)) :: u8)"
  have ab: "safe_result s (tp_abort dev code s)" for code
    by (rule tp_abort_safe [OF s])
  show ?thesis
  proof (cases "tp_in_progress (jctx s) \<and> \<not> TP_TIMEOUT_MS < k_uptime_get_32 (jworld s) - start_time ?ts \<and>
      fdata f ! 0 = next_packet ?ts \<and> \<not> uint (total_size ?ts) < uint off + uint len")
    case False
    then show ?thesis
      using ab s unfolding handle_tp_dt_def Let_def off_def len_def by (auto simp: j1939_inv_def)
  next
    case True
    have bnd: "unat len \<le> 7" "unat off + unat len \<le> unat (total_size ?ts)"
      using dt_bounds [of "total_size ?ts" "fdata f ! 0"] True unfolding off_def len_def by auto
    moreover have "mem_read (fdata f) 1 (unat len) = Inr (take (unat len) (drop 1 (fdata f)))"
      using bnd(1) f by (simp add: mem_simps CAN_MAX_DLEN_def)
    ultimately obtain buf where buf: "mem_read (fdata f) 1 (unat len) = Inr (take (unat len) (drop 1 (fdata f)))"
      "memcpy_at (tp_buffer s) (unat off) (take (unat len) (drop 1 (fdata f))) = Inr buf"
      "length buf = TP_BUFFER_SIZE"
      using s True f memcpy_at_extends [OF refl, of "unat off" "take (unat len) (drop 1 (fdata f))" "tp_buffer s"]
      by (auto simp: j1939_inv_def CAN_MAX_DLEN_def min_def)
    let ?s = "s\<lparr>tp_buffer := buf, jctx := (jctx s)\<lparr>session := ?ts\<lparr>next_packet := next_packet ?ts + 1\<rparr>\<rparr>\<rparr>"
    have "j1939_inv ?s" using s buf(3) by (simp add: j1939_inv_def)
    then have "safe_result ?s (tp_complete dev off len ?s)" by (rule tp_complete_safe)
    then have "safe_result s (tp_complete dev off len ?s)"
      by (auto simp: safe_result_def split: sum.splits)
    then show ?thesis
      using True buf(1,2) \<open>j1939_inv ?s\<close> unfolding handle_tp_dt_def Let_def off_def [symmetric] len_def [symmetric]
      by simp
  qed
qed

lemma arrival_safe:
  assumes "j1939_inv s" and "bus_event e"
  shows "safe_result s (j1939_arrival dev s e)"
proof -
  obtain t f where e: "e = (t, f)" by (cases e)
  let ?s = "at_time t s"
  have s: "j1939_inv ?s" using assms(1) by (rule j1939_inv_frames)
  have f: "length (fdata f) = CAN_MAX_DLEN" using assms(2) e by (simp add: bus_event_def)
  have sem: "j1939_inv (k_sem_give (end_session ?s))" using s by (simp add: j1939_inv_frames)
  have "safe_result ?s (j1939_process_message dev f ?s)"
    using rts_safe [OF s] dt_safe [OF s f] call_handler_safe [OF s] s sem
    by (simp add: j1939_process_message_def Let_def) (simp add: k_sem_give_def end_session_def)
  then show ?thesis by (simp add: e j1939_arrival_def safe_result_def split: sum.splits)
qed

lemma safe_resultD:
  "safe_result s r \<Longrightarrow> r = Inr s' \<Longrightarrow> j1939_inv s' \<and> pgn_handlers s' = pgn_handlers s"
  "safe_result s r \<Longrightarrow> r = Inl x \<Longrightarrow> x = Null_Call \<and> (\<exists>h \<in> set (pgn_handlers s). h_fun h = None)"
  by (simp_all add: safe_result_def)

interpretation receiver: fallible_machine "j1939_arrival dev" j1939_inv bus_event "\<lambda>x. x = Null_Call" for dev
  by unfold_locales (auto dest: safe_resultD [OF arrival_safe])

interpretation checked_receiver: fallible_machine "j1939_arrival dev"
    "\<lambda>s. j1939_inv s \<and> (\<forall>h \<in> set (pgn_handlers s). h_fun h \<noteq> None)" bus_event "\<lambda>_. False" for dev
proof unfold_locales
  fix s e s'
  assume "j1939_inv s \<and> (\<forall>h \<in> set (pgn_handlers s). h_fun h \<noteq> None)" "bus_event e"
    "j1939_arrival dev s e = Inr s'"
  then show "j1939_inv s' \<and> (\<forall>h \<in> set (pgn_handlers s'). h_fun h \<noteq> None)"
    using safe_resultD(1) [OF arrival_safe] by metis
next
  fix s e x
  assume "j1939_inv s \<and> (\<forall>h \<in> set (pgn_handlers s). h_fun h \<noteq> None)" "bus_event e"
    "j1939_arrival dev s e = Inl x"
  then show False
    using safe_resultD(2) [OF arrival_safe] by metis
qed

end
