(* ===== verification/J1939_Properties.thy ===== *)
theory J1939_Properties
  imports J1939_Transfer
begin

text \<open>
  What the transport protocol of \<^verbatim>\<open>common/can_protocol/j1939.c\<close> promises and where it breaks:
  delivery of a message that arrives in time, the sender's own pace against the receiver's
  timeout, messages of 255 packets, admission of requests, the receive filter, the handler table
  across a second initialisation, and memory safety of the receive path.
\<close>

text \<open>A node with one handler, number 5, for PGN \<open>0xFEF1\<close>, used by the instances below.\<close>

definition node :: j1939_ctx where
  "node = \<lparr>source_address = 0x21, dest_address = 0x10,
     session = \<lparr>tp_pgn = 0, total_size = 0, num_packets = 0, next_packet = 0, start_time = 0\<rparr>,
     tp_in_progress = False\<rparr>"

definition node_state :: j1939 where
  "node_state = \<lparr>jctx = node, pgn_handlers = [\<lparr>h_pgn = 0xFEF1, h_fun = Some 5\<rparr>],
     tp_buffer = replicate TP_BUFFER_SIZE 0, tp_sem = 0, calls = [],
     jworld = \<lparr>uptime = 0, bus_log = []\<rparr>\<rparr>"

lemma node_state_simps [simp]:
  "\<not> tp_in_progress (jctx node_state)" "length (tp_buffer node_state) = TP_BUFFER_SIZE"
  "pgn_handlers node_state = [\<lparr>h_pgn = 0xFEF1, h_fun = Some 5\<rparr>]" "calls node_state = []"
  "j1939_inv node_state"
  by (simp_all add: node_state_def node_def j1939_inv_def)

section \<open>Delivery\<close>

text \<open>C1: A multi-packet message of 9 to 1778 bytes whose packets arrive in order within 750 ms of
  the request reaches the registered handler byte for byte, exactly once; the receiver answers
  with one clear-to-send and one acknowledgement, frees the session and gives the semaphore.\<close>

theorem tp_delivers_in_time:
  assumes "8 < length data" and "length data \<le> 1778" and "pgn AND 0xFFFFFF = pgn"
    and "\<And>k. length (junk k) = 8"
    and "\<And>k. k < (length data + 6) div 7 \<Longrightarrow> t0 \<le> arr k \<and> arr k - t0 \<le> 750"
    and "\<not> tp_in_progress (jctx s)" and "length (tp_buffer s) = TP_BUFFER_SIZE"
    and "find (\<lambda>h. h_pgn h = pgn) (pgn_handlers s) = Some \<lparr>h_pgn = pgn, h_fun = Some k\<rparr>"
  shows "\<exists>s'. res_run (j1939_arrival dev) s
      ((t0, tp_frame c J1939_PGN_TP_CM (rts_msg pgn data)) #
       dt_stream c junk data arr 0 ((length data + 6) div 7)) = Inr s' \<and>
    calls s' = calls s @ [(k, data, word_of_nat (length data))] \<and>
    \<not> tp_in_progress (jctx s') \<and> tp_sem s' = min 1 (tp_sem s + 1) \<and>
    bus_log (jworld s') = bus_log (jworld s) @
      [(t0, tp_frame (jctx s) J1939_PGN_TP_CM (cts_msg pgn (word_of_nat ((length data + 6) div 7)))),
       (arr ((length data + 6) div 7 - 1), tp_frame (jctx s) J1939_PGN_TP_CM
          (eom_msg pgn (word_of_nat (length data)) (word_of_nat ((length data + 6) div 7))))]"
  by (rule tp_delivers_in_time_core [where junk = junk and arr = arr, OF assms])

theorem tp_delivers_in_time_witness:
  "\<exists>s'. res_run (j1939_arrival (\<lambda>_ _. 0)) node_state
      ((1000, tp_frame node J1939_PGN_TP_CM (rts_msg 0xFEF1 (replicate 20 7))) #
       dt_stream node (\<lambda>_. replicate 8 0xAA) (replicate 20 7) (\<lambda>k. 1000 + 200 * k) 0 3) = Inr s' \<and>
    calls s' = [(5, replicate 20 7, 20)]"
  using tp_delivers_in_time [where data = "replicate 20 7" and pgn = "0xFEF1" and junk = "\<lambda>_. replicate 8 0xAA" and
      ?t0.0 = 1000 and arr = "\<lambda>k. 1000 + 200 * k" and s = node_state and k = 5 and dev = "\<lambda>_ _. 0" and c = node]
  by auto

text \<open>C9: At the pace of the sender, one packet every 50 ms, a message of 9 to 112 bytes, which
  is what one session of the transport protocol can carry in the receiver's 750 ms, is
  delivered: the frames \<open>j1939_send_tp_data\<close> puts on the bus, fed to a receiver at the times they
  were sent, end in exactly one call of the handler with the sender's data. (Up to 8 bytes the
  sender uses a single frame and no session.)\<close>

theorem tp_end_to_end_short:
  assumes "8 < length data" and "length data \<le> 112" and "pgn AND 0xFFFFFF = pgn"
    and "\<And>k. length (junk k) = 8" and "\<And>log f. 0 \<le> dev log f"
    and "\<not> tp_in_progress (jctx s)" and "length (tp_buffer s) = TP_BUFFER_SIZE"
    and "find (\<lambda>h. h_pgn h = pgn) (pgn_handlers s) = Some \<lparr>h_pgn = pgn, h_fun = Some k\<rparr>"
  shows "\<exists>w' s'. j1939_send_tp_data dev c junk pgn data (word_of_nat (length data)) w = Inr (0, w') \<and>
    res_run (j1939_arrival dev') s (drop (length (bus_log w)) (bus_log w')) = Inr s' \<and>
    calls s' = calls s @ [(k, data, word_of_nat (length data))] \<and> \<not> tp_in_progress (jctx s')"
proof -
  have len: "length data \<le> 1785" "length data \<le> 1778" using assms(2) by auto
  have n: "(length data + 6) div 7 \<le> 16" using assms(2) by linarith
  obtain w' where w': "j1939_send_tp_data dev c junk pgn data (word_of_nat (length data)) w = Inr (0, w')"
    "bus_log w' = bus_log w @ tp_transfer c junk pgn data (uptime w)"
    using j1939_send_tp_data_eq [of dev junk data c pgn w] assms(1,4,5) len by blast
  have arr: "uptime w \<le> uptime w + 50 * j \<and> uptime w + 50 * j - uptime w \<le> 750"
    if "j < (length data + 6) div 7" for j using that n by simp
  from tp_delivers_in_time_core [where dev = dev' and c = c and arr = "\<lambda>k. uptime w + 50 * k" and junk = junk,
      OF assms(1) len(2) assms(3,4) arr assms(6,7,8)]
  show ?thesis using w' by (auto simp: tp_transfer_stream)
qed

theorem tp_end_to_end_short_witness:
  "\<exists>w' s'. j1939_send_tp_data (\<lambda>_ _. 0) node (\<lambda>_. replicate 8 0) 0xFEF1 (replicate 112 7) 112
      \<lparr>uptime = 5000, bus_log = []\<rparr> = Inr (0, w') \<and>
    res_run (j1939_arrival (\<lambda>_ _. 0)) node_state (bus_log w') = Inr s' \<and>
    calls s' = [(5, replicate 112 7, 112)]"
  using tp_end_to_end_short [where data = "replicate 112 7" and pgn = "0xFEF1" and junk = "\<lambda>_. replicate 8 0" and
      dev = "\<lambda>_ _. 0" and s = node_state and k = 5 and c = node and w = "\<lparr>uptime = 5000, bus_log = []\<rparr>" and
      dev' = "\<lambda>_ _. 0"]
  by auto

text \<open>The packet that arrives 800 ms after the request ends the session; the rest is ignored.\<close>

lemma session_expires:
  fixes t0 :: nat
  defines "arr \<equiv> \<lambda>k. t0 + 50 * k"
  assumes "tp_receiving pgn data t0 16 s" and "16 < n"
  shows "\<exists>s'. res_run (j1939_arrival dev) s (dt_stream c junk data arr 16 n) = Inr s' \<and>
    \<not> tp_in_progress (jctx s') \<and> calls s' = calls s \<and>
    last (bus_log (jworld s')) = (t0 + 800, tp_frame (jctx s) J1939_PGN_TP_CM (abort_msg 0x03))"
proof -
  let ?s = "end_session ((at_time (arr 16) s)\<lparr>jworld := snd (can_send dev
      (tp_frame (jctx s) J1939_PGN_TP_CM (abort_msg 0x03)) (jworld (at_time (arr 16) s)))\<rparr>)"
  have late: "j1939_arrival dev s (arr 16, tp_frame c J1939_PGN_TP_DT (dt_packet data junk 16)) = Inr ?s"
    using dt_late [OF assms(2), of "arr 16" dev c] by (simp add: arr_def tp_abort_ok)
  have "\<not> tp_in_progress (jctx ?s)" by (simp add: end_session_def)
  from dt_idle_run [OF this, of dev c junk data arr 17 "n - 17"] assms(3)
  obtain s' where "res_run (j1939_arrival dev) ?s (dt_stream c junk data arr 17 n) = Inr s'"
    "\<not> tp_in_progress (jctx s')" "calls s' = calls ?s" "bus_log (jworld s') = bus_log (jworld ?s)"
    by auto
  then show ?thesis using late dt_stream_Cons [of 16 n] assms(3)
    by (simp add: end_session_def arr_def at_time_def)
qed

text \<open>C37: A message of 113 to 1785 bytes is never delivered at that pace: its seventeenth packet
  leaves 800 ms after the request, past the receiver's timeout of 750 ms. The receiver aborts with
  code 3 and frees the session, no handler runs, and the sender still returns success.\<close>

theorem tp_end_to_end_long:
  assumes "112 < length data" and "length data \<le> 1785" and "pgn AND 0xFFFFFF = pgn"
    and "\<And>k. length (junk k) = 8" and "\<And>log f. 0 \<le> dev log f"
    and "\<not> tp_in_progress (jctx s)" and "length (tp_buffer s) = TP_BUFFER_SIZE"
  shows "\<exists>w' s'. j1939_send_tp_data dev c junk pgn data (word_of_nat (length data)) w = Inr (0, w') \<and>
    res_run (j1939_arrival dev') s (drop (length (bus_log w)) (bus_log w')) = Inr s' \<and>
    calls s' = calls s \<and> \<not> tp_in_progress (jctx s') \<and>
    last (bus_log (jworld s')) = (uptime w + 800, tp_frame (jctx s) J1939_PGN_TP_CM (abort_msg 0x03))"
proof -
  define n where "n = (length data + 6) div 7"
  define arr where "arr = (\<lambda>k. uptime w + 50 * k)"
  have n: "0 + 16 < n" "16 + 1 \<le> n" using assms(1) unfolding n_def by linarith+
  obtain w' where w': "j1939_send_tp_data dev c junk pgn data (word_of_nat (length data)) w = Inr (0, w')"
    "bus_log w' = bus_log w @ tp_transfer c junk pgn data (uptime w)"
    using j1939_send_tp_data_eq [of dev junk data c pgn w] assms(1,2,4,5) by fastforce
  have "0 < length data" using assms(1) by auto
  from rts_arrival [where dev = dev' and c = c and ?t0.0 = "uptime w", OF assms(6,7) this assms(2,3)]
  obtain s1 where s1: "j1939_arrival dev' s (uptime w, tp_frame c J1939_PGN_TP_CM (rts_msg pgn data)) = Inr s1"
    "tp_receiving pgn data (uptime w) 0 s1" "calls s1 = calls s"
    "\<And>p m. tp_frame (jctx s1) p m = tp_frame (jctx s) p m"
    by metis
  have "uptime w \<le> arr j \<and> arr j - uptime w \<le> 750" if "j < 0 + 16" for j
    using that by (simp add: arr_def)
  from dt_run [where dev = dev' and c = c and arr = arr and junk = junk,
      OF n(1) [unfolded n_def] assms(2,4) this s1(2)]
  obtain s2 where s2: "res_run (j1939_arrival dev') s1 (dt_stream c junk data arr 0 16) = Inr s2"
    "tp_receiving pgn data (uptime w) 16 s2" "calls s2 = calls s1"
    "\<And>p m. tp_frame (jctx s2) p m = tp_frame (jctx s1) p m"
    by auto
  obtain s4 where s4: "res_run (j1939_arrival dev') s2 (dt_stream c junk data arr 16 n) = Inr s4"
    "\<not> tp_in_progress (jctx s4)" "calls s4 = calls s2"
    "last (bus_log (jworld s4)) = (uptime w + 800, tp_frame (jctx s2) J1939_PGN_TP_CM (abort_msg 0x03))"
    using session_expires [OF s2(2), of n dev' c junk] n(1) by (auto simp: arr_def)
  have "dt_stream c junk data arr 0 n = dt_stream c junk data arr 0 16 @ dt_stream c junk data arr 16 n"
    using dt_stream_split [of 0 16 n] n by simp
  then have "res_run (j1939_arrival dev') s (tp_transfer c junk pgn data (uptime w)) = Inr s4"
    using s1(1) s2(1) s4(1)
    by (simp add: tp_transfer_stream res_run_append flip: n_def arr_def)
  then show ?thesis using w' s1(3,4) s2(3,4) s4(2-4) by auto
qed

theorem tp_end_to_end_long_witness:
  "\<exists>w' s'. j1939_send_tp_data (\<lambda>_ _. 0) node (\<lambda>_. replicate 8 0) 0xFEF1 (replicate 113 7) 113
      \<lparr>uptime = 5000, bus_log = []\<rparr> = Inr (0, w') \<and>
    res_run (j1939_arrival (\<lambda>_ _. 0)) node_state (bus_log w') = Inr s' \<and> calls s' = []"
  using tp_end_to_end_long [where data = "replicate 113 7" and pgn = "0xFEF1" and junk = "\<lambda>_. replicate 8 0" and
      dev = "\<lambda>_ _. 0" and s = node_state and c = node and w = "\<lparr>uptime = 5000, bus_log = []\<rparr>" and
      dev' = "\<lambda>_ _. 0"]
  by auto

section \<open>Admission and truncation\<close>

text \<open>C17: A request to send is accepted exactly when no session is open, its size is between 1 and
  1785 and its packet count is the number of seven-byte pieces of that size. The accepted request
  opens the session and is answered with clear-to-send; a busy receiver keeps its session and
  answers with abort code 1, any other request is refused with abort code 2.\<close>

theorem rts_admission:
  assumes "frame_pgn f = J1939_PGN_TP_CM" and "fdata f ! 0 = TP_CM_RTS"
  shows "\<exists>s'. j1939_arrival dev s (t, f) = Inr s' \<and> calls s' = calls s \<and> tp_buffer s' = tp_buffer s \<and>
    (if tp_in_progress (jctx s) then
       jctx s' = jctx s \<and>
       bus_log (jworld s') = bus_log (jworld s) @ [(t, tp_frame (jctx s) J1939_PGN_TP_CM (abort_msg 0x01))]
     else if 0 < unat (rts_size f) \<and> unat (rts_size f) \<le> 1785 \<and>
         unat (fdata f ! 3) = (unat (rts_size f) + 6) div 7 then
       tp_in_progress (jctx s') \<and>
       session (jctx s') = \<lparr>tp_pgn = rts_pgn f, total_size = rts_size f, num_packets = fdata f ! 3,
         next_packet = 1, start_time = word_of_nat t\<rparr> \<and>
       bus_log (jworld s') = bus_log (jworld s) @
         [(t, tp_frame (jctx s) J1939_PGN_TP_CM (cts_msg (rts_pgn f) (fdata f ! 3)))]
     else
       jctx s' = jctx s \<and>
       bus_log (jworld s') = bus_log (jworld s) @ [(t, tp_frame (jctx s) J1939_PGN_TP_CM (abort_msg 0x02))])"
proof -
  have rts: "j1939_arrival dev s (t, f) = handle_tp_rts dev f (at_time t s)"
    using assms by (simp add: j1939_arrival_def j1939_process_message_def)
  have fr: "tp_frame (c\<lparr>session := x, tp_in_progress := True\<rparr>) p m = tp_frame c p m" for c x p m
    by (simp add: tp_frame_def)
  have up: "uptime (jworld (at_time t s)) = t" by (simp add: at_time_def)
  show ?thesis
    unfolding rts handle_tp_rts_def Let_def
    by (simp add: rts_invalid_iff tp_reply_ok fr up cts_msg_def)
qed

theorem rts_admission_witness:
  "\<exists>s'. j1939_arrival (\<lambda>_ _. 0) node_state (7, tp_frame node J1939_PGN_TP_CM (rts_msg 0xFEF1 (replicate 20 1))) = Inr s' \<and>
    tp_in_progress (jctx s') \<and> total_size (session (jctx s')) = 20 \<and> num_packets (session (jctx s')) = 3"
  using rts_admission [of "tp_frame node J1939_PGN_TP_CM (rts_msg 0xFEF1 (replicate 20 1))" "\<lambda>_ _. 0" node_state 7]
  by (auto simp: frame_pgn_tp_frame rts_frame_fields)

text \<open>A message of 255 packets (1779 to 1785 bytes) is never delivered, however fast it arrives:
  the packet counter wraps to zero after the last packet, so the completion test never holds. The
  whole message is in the buffer, no acknowledgement is sent, no handler runs, and the session
  stays open.\<close>

lemma tp_255_packets_never_complete:
  assumes "1778 < length data" and "length data \<le> 1785" and "pgn AND 0xFFFFFF = pgn"
    and "\<And>k. length (junk k) = 8"
    and "\<And>k. k < 255 \<Longrightarrow> t0 \<le> arr k \<and> arr k - t0 \<le> 750"
    and "\<not> tp_in_progress (jctx s)" and "length (tp_buffer s) = TP_BUFFER_SIZE"
  shows "\<exists>s'. res_run (j1939_arrival dev) s
      ((t0, tp_frame c J1939_PGN_TP_CM (rts_msg pgn data)) # dt_stream c junk data arr 0 255) = Inr s' \<and>
    take (length data) (tp_buffer s') = data \<and> calls s' = calls s \<and> tp_sem s' = tp_sem s \<and>
    tp_in_progress (jctx s') \<and> next_packet (session (jctx s')) = 0 \<and>
    bus_log (jworld s') = bus_log (jworld s) @
      [(t0, tp_frame (jctx s) J1939_PGN_TP_CM (cts_msg pgn 255))]"
proof -
  have n: "(length data + 6) div 7 = 255" using assms(1,2) by (intro div_nat_eqI) auto
  have len: "0 < length data" using assms(1) by auto
  from rts_arrival [where dev = dev and c = c and ?t0.0 = t0, OF assms(6,7) len assms(2,3)]
  obtain s1 where s1: "j1939_arrival dev s (t0, tp_frame c J1939_PGN_TP_CM (rts_msg pgn data)) = Inr s1"
    "tp_receiving pgn data t0 0 s1" "calls s1 = calls s" "tp_sem s1 = tp_sem s"
    "bus_log (jworld s1) = bus_log (jworld s) @
       [(t0, tp_frame (jctx s) J1939_PGN_TP_CM (cts_msg pgn 255))]"
    unfolding n of_nat_numeral by metis
  have "t0 \<le> arr j \<and> arr j - t0 \<le> 750" if "j < 0 + 254" for j
    using assms(5) [of j] that by auto
  moreover have "0 + 254 < (length data + 6) div 7" using n by simp
  ultimately have "\<exists>s'. res_run (j1939_arrival dev) s1 (dt_stream c junk data arr 0 (0 + 254)) = Inr s' \<and>
      tp_receiving pgn data t0 (0 + 254) s' \<and> calls s' = calls s1 \<and> tp_sem s' = tp_sem s1 \<and>
      bus_log (jworld s') = bus_log (jworld s1)"
    using dt_run [where dev = dev and c = c and arr = arr and junk = junk and d = 254, OF _ assms(2,4) _ s1(2)]
    by blast
  then
  obtain s2 where s2: "res_run (j1939_arrival dev) s1 (dt_stream c junk data arr 0 254) = Inr s2"
    "tp_receiving pgn data t0 254 s2" "calls s2 = calls s1" "tp_sem s2 = tp_sem s1"
    "bus_log (jworld s2) = bus_log (jworld s1)"
    by auto
  have t: "t0 \<le> arr 254" "arr 254 - t0 \<le> 750" using assms(5) [of 254] by auto
  from dt_wrap [where junk = junk and data = data and dev = dev and c = c, OF s2(2) n assms(2,4) t]
  obtain s3 where s3: "j1939_arrival dev s2 (arr 254, tp_frame c J1939_PGN_TP_DT (dt_packet data junk 254)) = Inr s3"
    "take (length data) (tp_buffer s3) = data" "calls s3 = calls s2" "tp_sem s3 = tp_sem s2"
    "tp_in_progress (jctx s3)" "next_packet (session (jctx s3)) = 0"
    "bus_log (jworld s3) = bus_log (jworld s2)"
    by metis
  have "dt_stream c junk data arr 0 255 = dt_stream c junk data arr 0 254 @
      [(arr 254, tp_frame c J1939_PGN_TP_DT (dt_packet data junk 254))]"
    using dt_stream_split [of 0 254 255] dt_stream_Cons [of 254 255] by (simp add: dt_stream_def)
  then show ?thesis using s1 s2 s3 by (simp add: res_run_append)
qed

lemma tp_255_packets_never_complete_witness:
  "\<exists>s'. res_run (j1939_arrival (\<lambda>_ _. 0)) node_state
      ((10, tp_frame node J1939_PGN_TP_CM (rts_msg 0xFEF1 (replicate 1785 7))) #
       dt_stream node (\<lambda>_. replicate 8 0) (replicate 1785 7) (\<lambda>k. 10 + 2 * k) 0 255) = Inr s' \<and>
    calls s' = [] \<and> tp_in_progress (jctx s')"
  using tp_255_packets_never_complete [where data = "replicate 1785 7" and pgn = "0xFEF1" and junk = "\<lambda>_. replicate 8 0" and
      ?t0.0 = 10 and arr = "\<lambda>k. 10 + 2 * k" and s = node_state and dev = "\<lambda>_ _. 0" and c = node]
  by auto

text \<open>A message longer than the reassembly buffer is lost without an error on either side: the
  sender announces it with a packet count reduced modulo 256, sends that many packets (none for
  1786 to 1792 bytes) and returns success, while the receiver refuses the announcement with abort
  code 2 and delivers nothing.\<close>

lemma tp_oversize_lost:
  assumes "1785 < length data" and "length data < 65536"
    and "\<And>k. length (junk k) = 8" and "\<And>log f. 0 \<le> dev log f" and "\<not> tp_in_progress (jctx s)"
  shows "\<exists>w' s'. j1939_send_tp_data dev c junk pgn data (word_of_nat (length data)) w = Inr (0, w') \<and>
    length (bus_log w') = length (bus_log w) + 1 + (length data + 6) div 7 mod 256 \<and>
    res_run (j1939_arrival dev') s (drop (length (bus_log w)) (bus_log w')) = Inr s' \<and>
    calls s' = calls s \<and> \<not> tp_in_progress (jctx s') \<and>
    bus_log (jworld s') = bus_log (jworld s) @
      [(uptime w, tp_frame (jctx s) J1939_PGN_TP_CM (abort_msg 0x02))]"
proof -
  let ?l = "word_of_nat (length data) :: u16"
  let ?n = "(length data + 6) div 7 mod 256"
  let ?f = "tp_frame c J1939_PGN_TP_CM (rts_msg pgn data)"
  let ?w = "snd (can_send dev ?f w)"
  have l: "unat ?l = length data" using assms(2) by (rule unat_of_nat_u16)
  then have n: "tp_num_packets ?l = word_of_nat ((length data + 6) div 7)" "unat (tp_num_packets ?l) = ?n"
    by (simp_all add: tp_num_packets_def unsigned_of_nat take_bit_eq_mod)
  have "\<not> ?l \<le> 8" using l assms(1) by (simp add: word_le_nat_alt)
  then have send: "j1939_send_tp_data dev c junk pgn data ?l w =
      tp_send_loop dev c junk data (length data) ?n 0 ?w"
    using l n assms(4) [of "bus_log w" ?f]
    by (simp add: j1939_send_tp_data_def Let_def rts_msg_def j1939_send_pgn_8 can_send_def)
  have "?n \<le> (length data + 6) div 7" by simp
  from tp_send_loop_eq [where dev = dev and junk = junk, OF assms(4,3) this, of 0 c ?w]
  obtain w' where w': "j1939_send_tp_data dev c junk pgn data ?l w = Inr (0, w')"
    "bus_log w' = bus_log w @ (uptime w, ?f) # dt_stream c junk data (\<lambda>k. uptime w + 50 * k) 0 ?n"
    unfolding send by (auto simp: dt_stream_def)
  have "rts_invalid (rts_size ?f) (fdata ?f ! 3)"
    using assms(1) l by (simp add: rts_invalid_iff rts_frame_fields)
  then have "j1939_arrival dev' s (uptime w, ?f) = Inr ((at_time (uptime w) s)\<lparr>jworld :=
      snd (can_send dev' (tp_frame (jctx s) J1939_PGN_TP_CM (abort_msg 0x02)) (jworld (at_time (uptime w) s)))\<rparr>)"
    (is "_ = Inr ?s1")
    using assms(5)
    by (simp add: j1939_arrival_def j1939_process_message_def frame_pgn_tp_frame handle_tp_rts_def
        rts_frame_fields(3) Let_def tp_reply_ok)
  moreover from dt_idle_run [of ?s1 dev' c junk data "\<lambda>k. uptime w + 50 * k" 0 ?n] assms(5)
  obtain s2 where "res_run (j1939_arrival dev') ?s1 (dt_stream c junk data (\<lambda>k. uptime w + 50 * k) 0 ?n) = Inr s2"
    "\<not> tp_in_progress (jctx s2)" "calls s2 = calls ?s1" "bus_log (jworld s2) = bus_log (jworld ?s1)"
    by auto
  ultimately show ?thesis using w' by (auto simp: at_time_def dt_stream_def)
qed

lemma tp_oversize_lost_witness:
  "\<exists>w' s'. j1939_send_tp_data (\<lambda>_ _. 0) node (\<lambda>_. replicate 8 0) 0xFEF1 (replicate 1786 7) 1786
      \<lparr>uptime = 5000, bus_log = []\<rparr> = Inr (0, w') \<and> length (bus_log w') = 1 \<and>
    res_run (j1939_arrival (\<lambda>_ _. 0)) node_state (bus_log w') = Inr s' \<and> calls s' = []"
  using tp_oversize_lost [where data = "replicate 1786 7" and pgn = "0xFEF1" and junk = "\<lambda>_. replicate 8 0" and
      dev = "\<lambda>_ _. 0" and s = node_state and c = node and w = "\<lparr>uptime = 5000, bus_log = []\<rparr>" and
      dev' = "\<lambda>_ _. 0"]
  by auto

section \<open>Filter and handlers\<close>

text \<open>The receive filter \<open>j1939_init\<close> installs passes an identifier exactly when the source
  address in it is the node's own: a node receives what carries its own address as sender and
  nothing that other nodes send, whatever their destination.\<close>

lemma filter_passes_own_source:
  "filter_matches (j1939_filter c) (build_j1939_id pgn p sa da) \<longleftrightarrow> sa = source_address c"
  by (simp add: filter_matches_def j1939_filter_def build_low_byte ucast_u8_inject ucast_and_ff)

text \<open>A second initialisation clears the handler entries but not their count: every handler
  registered before is gone, the table stays as full as it was, and the next frame of PGN 0 that
  passes calls a null pointer.\<close>

lemma reinit_leaves_null_handlers:
  assumes "pgn_handlers s \<noteq> []" and "frame_pgn f = 0"
  shows "let s' = snd (j1939_init True add_filter s) in
    length (pgn_handlers s') = length (pgn_handlers s) \<and>
    (\<forall>h \<in> set (pgn_handlers s'). h_fun h = None) \<and>
    j1939_arrival dev s' (t, f) = Inl Null_Call"
proof -
  obtain h hs where "pgn_handlers s = h # hs" using assms(1) by (cases "pgn_handlers s") auto
  then show ?thesis
    using assms(2)
    by (simp add: j1939_init_def Let_def j1939_arrival_def j1939_process_message_def call_handler_def tp_consts)
qed

lemma reinit_leaves_null_handlers_witness:
  "j1939_arrival (\<lambda>_ _. 0) (snd (j1939_init True (\<lambda>_. 0) node_state))
     (3, \<lparr>fid = 0, dlc = 8, fflags = 0, fdata = replicate 8 0\<rparr>) = Inl Null_Call"
  using reinit_leaves_null_handlers [of node_state "\<lparr>fid = 0, dlc = 8, fflags = 0, fdata = replicate 8 0\<rparr>"
      "\<lambda>_. 0" "\<lambda>_ _. 0" 3]
  by (simp add: frame_pgn_def Let_def)

text \<open>Registration keeps the first 32 handlers in order and refuses the rest with an error,
  whatever the registrations are.\<close>

lemma register_keeps_first_32:
  assumes "pgn_handlers s = []"
  shows "pgn_handlers (fold (\<lambda>h s. snd (j1939_register_pgn_handler (h_pgn h) (h_fun h) s)) hs s) = take 32 hs \<and>
    (fst (j1939_register_pgn_handler pgn h' (fold (\<lambda>h s. snd (j1939_register_pgn_handler (h_pgn h) (h_fun h) s)) hs s)) = 0
      \<longleftrightarrow> length hs < 32)"
  using pgn_table.fold_register [of s hs] assms
  by (auto simp: MAX_PGN_HANDLERS_def j1939_register_pgn_handler_def ENOMEM_def)

section \<open>Memory safety\<close>

text \<open>No sequence of frames, at whatever times and with whatever contents, makes the receiver
  access memory outside its buffers: the bounds checks hold up also after the packet counter has
  wrapped. The only fault left is the call of a registered null pointer.\<close>

lemma receive_path_memory_safe:
  assumes "j1939_inv s" and "list_all bus_event es"
  shows "res_run (j1939_arrival dev) s es \<noteq> Inl Out_Of_Bounds"
  using receiver.run_fault [OF assms, of dev Out_Of_Bounds] by auto

text \<open>C2: When no null handler is registered the receiver never faults, and every state it reaches
  keeps the invariant that an open session's size fits the reassembly buffer.\<close>

theorem receive_path_total:
  assumes "j1939_inv s" and "\<forall>h \<in> set (pgn_handlers s). h_fun h \<noteq> None" and "list_all bus_event es"
  shows "\<exists>s'. res_run (j1939_arrival dev) s es = Inr s' \<and> j1939_inv s'"
  using checked_receiver.run_total [of s es dev] assms by blast

theorem receive_path_total_witness:
  "\<exists>s'. res_run (j1939_arrival (\<lambda>_ _. 0)) node_state
     [(1, \<lparr>fid = 0xEB0001, dlc = 8, fflags = 0, fdata = [200, 1, 2, 3, 4, 5, 6, 7]\<rparr>)] = Inr s' \<and> j1939_inv s'"
  by (rule receive_path_total) (simp_all add: bus_event_def CAN_MAX_DLEN_def)

end
