(* ===== verification/Diag_Service.thy ===== *)
theory Diag_Service
  imports Prelude
begin

text \<open>
  The diagnostic server of \<^verbatim>\<open>common/diagnostic/diag_service.c\<close> and \<^verbatim>\<open>diag_service.h\<close>: sessions,
  security access, routine control, communication control and the dispatch of requests.

  A request is the buffer behind the data pointer and the length the caller states. What the
  file calls but nobody in the repository defines is a parameter: \<open>allowed\<close> is
  \<^verbatim>\<open>validate_service_in_session\<close>, and \<open>ext\<close> answers the other calls, which are listed in
  \<open>ext_call\<close>, from a state of its own. The mutex makes each routine atomic.
\<close>

section \<open>Constants\<close>

definition UDS_DIAGNOSTIC_SESSION_CONTROL :: u8 where "UDS_DIAGNOSTIC_SESSION_CONTROL = 0x10"
definition UDS_READ_DATA_BY_ID :: u8 where "UDS_READ_DATA_BY_ID = 0x22"
definition UDS_SECURITY_ACCESS :: u8 where "UDS_SECURITY_ACCESS = 0x27"
definition UDS_COMM_CONTROL :: u8 where "UDS_COMM_CONTROL = 0x28"
definition UDS_WRITE_DATA_BY_ID :: u8 where "UDS_WRITE_DATA_BY_ID = 0x2E"
definition UDS_ROUTINE_CONTROL :: u8 where "UDS_ROUTINE_CONTROL = 0x31"
definition UDS_REQUEST_DOWNLOAD :: u8 where "UDS_REQUEST_DOWNLOAD = 0x34"
definition UDS_TRANSFER_DATA :: u8 where "UDS_TRANSFER_DATA = 0x36"
definition UDS_TRANSFER_EXIT :: u8 where "UDS_TRANSFER_EXIT = 0x37"
definition UDS_TESTER_PRESENT :: u8 where "UDS_TESTER_PRESENT = 0x3E"
definition UDS_CONTROL_DTC_SETTING :: u8 where "UDS_CONTROL_DTC_SETTING = 0x85"

lemmas uds_defs = UDS_DIAGNOSTIC_SESSION_CONTROL_def UDS_READ_DATA_BY_ID_def UDS_SECURITY_ACCESS_def
  UDS_COMM_CONTROL_def UDS_WRITE_DATA_BY_ID_def UDS_ROUTINE_CONTROL_def UDS_REQUEST_DOWNLOAD_def
  UDS_TRANSFER_DATA_def UDS_TRANSFER_EXIT_def UDS_TESTER_PRESENT_def UDS_CONTROL_DTC_SETTING_def

definition DIAG_SESSION_DEFAULT :: u8 where "DIAG_SESSION_DEFAULT = 0x01"
definition DIAG_SESSION_PROGRAMMING :: u8 where "DIAG_SESSION_PROGRAMMING = 0x02"
definition DIAG_SESSION_EXTENDED :: u8 where "DIAG_SESSION_EXTENDED = 0x03"
definition DIAG_SESSION_SAFETY :: u8 where "DIAG_SESSION_SAFETY = 0x04"

lemmas session_defs = DIAG_SESSION_DEFAULT_def DIAG_SESSION_PROGRAMMING_def
  DIAG_SESSION_EXTENDED_def DIAG_SESSION_SAFETY_def

definition ROUTINE_SELF_TEST :: u16 where "ROUTINE_SELF_TEST = 0x0100"
definition ROUTINE_SENSOR_CALIBRATION :: u16 where "ROUTINE_SENSOR_CALIBRATION = 0x0200"
definition ROUTINE_MEMORY_CHECK :: u16 where "ROUTINE_MEMORY_CHECK = 0x0300"
definition ROUTINE_SECURITY_CHECK :: u16 where "ROUTINE_SECURITY_CHECK = 0x0400"

lemmas routine_id_defs = ROUTINE_SELF_TEST_def ROUTINE_SENSOR_CALIBRATION_def
  ROUTINE_MEMORY_CHECK_def ROUTINE_SECURITY_CHECK_def

definition ROUTINE_START :: u8 where "ROUTINE_START = 0x01"
definition ROUTINE_STOP :: u8 where "ROUTINE_STOP = 0x02"
definition ROUTINE_RESULT :: u8 where "ROUTINE_RESULT = 0x03"

lemmas control_defs = ROUTINE_START_def ROUTINE_STOP_def ROUTINE_RESULT_def

definition DIAG_RESP_OK :: int where "DIAG_RESP_OK = 0x00"
definition DIAG_RESP_GEN_REJECT :: int where "DIAG_RESP_GEN_REJECT = 0x10"
definition DIAG_RESP_SERVICE_NA :: int where "DIAG_RESP_SERVICE_NA = 0x11"
definition DIAG_RESP_SUBFUNC_NA :: int where "DIAG_RESP_SUBFUNC_NA = 0x12"
definition DIAG_RESP_INCORRECT_LENGTH :: int where "DIAG_RESP_INCORRECT_LENGTH = 0x13"
definition DIAG_RESP_BUSY :: int where "DIAG_RESP_BUSY = 0x21"
definition DIAG_RESP_CONDITIONS_NA :: int where "DIAG_RESP_CONDITIONS_NA = 0x22"
definition DIAG_RESP_SECURITY_DENIED :: int where "DIAG_RESP_SECURITY_DENIED = 0x33"
definition DIAG_RESP_INVALID_KEY :: int where "DIAG_RESP_INVALID_KEY = 0x35"
definition DIAG_RESP_TOO_MANY_ATT :: int where "DIAG_RESP_TOO_MANY_ATT = 0x36"
definition DIAG_RESP_REQUIRED_TIME_NA :: int where "DIAG_RESP_REQUIRED_TIME_NA = 0x37"

lemmas resp_defs = DIAG_RESP_OK_def DIAG_RESP_GEN_REJECT_def DIAG_RESP_SERVICE_NA_def
  DIAG_RESP_SUBFUNC_NA_def DIAG_RESP_INCORRECT_LENGTH_def DIAG_RESP_BUSY_def
  DIAG_RESP_CONDITIONS_NA_def DIAG_RESP_SECURITY_DENIED_def DIAG_RESP_INVALID_KEY_def
  DIAG_RESP_TOO_MANY_ATT_def DIAG_RESP_REQUIRED_TIME_NA_def

definition COMM_ENABLE_RX_TX :: u8 where "COMM_ENABLE_RX_TX = 0x00"
definition COMM_ENABLE_RX_DISABLE_TX :: u8 where "COMM_ENABLE_RX_DISABLE_TX = 0x01"
definition COMM_DISABLE_RX_ENABLE_TX :: u8 where "COMM_DISABLE_RX_ENABLE_TX = 0x02"
definition COMM_DISABLE_RX_TX :: u8 where "COMM_DISABLE_RX_TX = 0x03"
definition COMM_NORMAL_AND_NM :: u8 where "COMM_NORMAL_AND_NM = 0x03"

definition MAX_SECURITY_ATTEMPTS :: u8 where "MAX_SECURITY_ATTEMPTS = 3"
definition SECURITY_LOCKOUT_TIME_MS :: u32 where "SECURITY_LOCKOUT_TIME_MS = 10000"
definition MAX_PERIODIC_DIDS :: nat where "MAX_PERIODIC_DIDS = 16"
definition ROUTINE_DATA_SIZE :: nat where "ROUTINE_DATA_SIZE = 256"

section \<open>State\<close>

record routine_status =
  routine_id :: u16
  status :: u8
  result_code :: u16
  rdata :: bytes
  data_len :: u16

record diag_context =
  current_session :: u8
  security_level :: u8
  security_attempts :: u8
  last_security_attempt :: u32
  dtc_settings_enabled :: bool
  active_routine :: routine_status
  periodic_dids :: "(u16 \<times> u16) list"
  num_periodic_dids :: u8

definition diagnostic_service_init :: diag_context where
  "diagnostic_service_init =
     \<lparr>current_session = DIAG_SESSION_DEFAULT, security_level = 0, security_attempts = 0,
      last_security_attempt = 0, dtc_settings_enabled = True,
      active_routine = \<lparr>routine_id = 0, status = 0, result_code = 0,
                        rdata = replicate ROUTINE_DATA_SIZE 0, data_len = 0\<rparr>,
      periodic_dids = replicate MAX_PERIODIC_DIDS (0, 0), num_periodic_dids = 0\<rparr>"

section \<open>Sessions\<close>

definition validate_session_transition :: "u8 \<Rightarrow> diag_context \<Rightarrow> bool" where
  "validate_session_transition new_session c =
     (if current_session c = DIAG_SESSION_DEFAULT then True
      else if current_session c = DIAG_SESSION_PROGRAMMING then new_session = DIAG_SESSION_DEFAULT
      else if current_session c = DIAG_SESSION_EXTENDED \<or> current_session c = DIAG_SESSION_SAFETY then
        new_session = DIAG_SESSION_DEFAULT \<or> new_session = DIAG_SESSION_PROGRAMMING
      else False)"

definition start_diagnostic_session :: "u8 \<Rightarrow> diag_context \<Rightarrow> int \<times> diag_context" where
  "start_diagnostic_session session_type c =
     (if session_type < DIAG_SESSION_DEFAULT \<or> DIAG_SESSION_SAFETY < session_type then (DIAG_RESP_SUBFUNC_NA, c)
      else if \<not> validate_session_transition session_type c then (DIAG_RESP_CONDITIONS_NA, c)
      else (DIAG_RESP_OK, c\<lparr>current_session := session_type, security_level := 0\<rparr>))"

section \<open>Security access\<close>

text \<open>The random word is a parameter. No routine of the file calls the generator.\<close>

definition generate_security_seed :: "u32 \<Rightarrow> u32 \<Rightarrow> u8 \<Rightarrow> u32" where
  "generate_security_seed now random level = random XOR now XOR push_bit 24 (ucast level)"

definition key_round :: "u8 \<Rightarrow> nat \<Rightarrow> u32 \<Rightarrow> u32" where
  "key_round level i key0 =
     (let key1 = key0 XOR (push_bit 13 key0 OR drop_bit 19 key0);
          key2 = key1 * 0x85ebca6b;
          key3 = key2 XOR drop_bit 16 key2;
          key4 = key3 * 0xc2b2ae35
      in key4 XOR push_bit (8 * (i mod 4)) (ucast level))"

definition calculate_security_key :: "u32 \<Rightarrow> u8 \<Rightarrow> u32" where
  "calculate_security_key seed level = fold (key_round level) [0..<8] seed"

definition verify_security_access :: "u32 \<Rightarrow> u8 \<Rightarrow> u32 \<Rightarrow> diag_context \<Rightarrow> int \<times> diag_context" where
  "verify_security_access now level key c =
     (if MAX_SECURITY_ATTEMPTS \<le> security_attempts c \<and>
         now - last_security_attempt c < SECURITY_LOCKOUT_TIME_MS then (DIAG_RESP_REQUIRED_TIME_NA, c)
      else
        (let c' = (if MAX_SECURITY_ATTEMPTS \<le> security_attempts c then c\<lparr>security_attempts := 0\<rparr> else c) in
         if key \<noteq> calculate_security_key (last_security_attempt c') level then
           (DIAG_RESP_INVALID_KEY,
            c'\<lparr>security_attempts := security_attempts c' + 1, last_security_attempt := now\<rparr>)
         else (DIAG_RESP_OK, c'\<lparr>security_level := level, security_attempts := 0\<rparr>)))"

section \<open>Calls out of the file\<close>

datatype ext_call =
    Execute_Self_Test | Execute_Sensor_Calibration | Execute_Memory_Check | Execute_Security_Check
  | Enable_Network_Communication u8 | Disable_Transmission u8 | Disable_Reception u8
  | Disable_Network_Communication u8
  | Handle_Read_Data_By_Id bytes u16 | Handle_Write_Data_By_Id bytes u16
  | Handle_Request_Download bytes u16 | Handle_Transfer_Data bytes u16 | Handle_Transfer_Exit

type_synonym 'x ext = "ext_call \<Rightarrow> 'x \<Rightarrow> int \<times> 'x"

text \<open>What a request leaves behind: the response code, the request buffer, the context, the rest.\<close>

type_synonym 'x reply = "int \<times> bytes \<times> diag_context \<times> 'x"

section \<open>Routine control\<close>

text \<open>\<open>off\<close> is the position of the routine's parameters in the request buffer.\<close>

definition handle_routine_start ::
  "'x ext \<Rightarrow> u16 \<Rightarrow> bytes \<Rightarrow> nat \<Rightarrow> u16 \<Rightarrow> diag_context \<Rightarrow> 'x \<Rightarrow> 'x reply res" where
  "handle_routine_start ext rid buf off len c x =
     (if status (active_routine c) \<noteq> 0 then Inr (DIAG_RESP_CONDITIONS_NA, buf, c, x)
      else
        res_bind (mem_read buf off (unat len)) (\<lambda>src.
        res_bind (memcpy_at (rdata (active_routine c)) 0 src) (\<lambda>d.
          let c' = c\<lparr>active_routine := (active_routine c)\<lparr>routine_id := rid, status := 1,
                                          rdata := d, data_len := len\<rparr>\<rparr>;
              run = (\<lambda>call. let (r, x') = ext call x in Inr (r, buf, c', x')) in
          if rid = ROUTINE_SELF_TEST then run Execute_Self_Test
          else if rid = ROUTINE_SENSOR_CALIBRATION then run Execute_Sensor_Calibration
          else if rid = ROUTINE_MEMORY_CHECK then run Execute_Memory_Check
          else if rid = ROUTINE_SECURITY_CHECK then run Execute_Security_Check
          else Inr (DIAG_RESP_SUBFUNC_NA, buf, c', x))))"

definition execute_routine ::
  "'x ext \<Rightarrow> u16 \<Rightarrow> u8 \<Rightarrow> bytes \<Rightarrow> nat \<Rightarrow> u16 \<Rightarrow> diag_context \<Rightarrow> 'x \<Rightarrow> 'x reply res" where
  "execute_routine ext rid control_type buf off len c x =
     (if control_type = ROUTINE_START then handle_routine_start ext rid buf off len c x
      else if control_type = ROUTINE_STOP then
        (if routine_id (active_routine c) \<noteq> rid then Inr (DIAG_RESP_CONDITIONS_NA, buf, c, x)
         else Inr (DIAG_RESP_OK, buf, c\<lparr>active_routine := (active_routine c)\<lparr>status := 0\<rparr>\<rparr>, x))
      else if control_type = ROUTINE_RESULT then
        (if routine_id (active_routine c) \<noteq> rid then Inr (DIAG_RESP_CONDITIONS_NA, buf, c, x)
         else
           res_bind (mem_read (rdata (active_routine c)) 0 (unat (data_len (active_routine c)))) (\<lambda>src.
           res_bind (memcpy_at buf off src) (\<lambda>buf'. Inr (DIAG_RESP_OK, buf', c, x))))
      else Inr (DIAG_RESP_SUBFUNC_NA, buf, c, x))"

section \<open>Settings\<close>

definition control_dtc_settings :: "u8 \<Rightarrow> diag_context \<Rightarrow> int \<times> diag_context" where
  "control_dtc_settings dtc_setting c = (DIAG_RESP_OK, c\<lparr>dtc_settings_enabled := dtc_setting \<noteq> 0\<rparr>)"

definition control_communication :: "'x ext \<Rightarrow> u8 \<Rightarrow> u8 \<Rightarrow> 'x \<Rightarrow> int \<times> 'x" where
  "control_communication ext control_type comm_type x =
     (if COMM_DISABLE_RX_TX < control_type \<or> COMM_NORMAL_AND_NM < comm_type then (DIAG_RESP_SUBFUNC_NA, x)
      else (DIAG_RESP_OK,
        if control_type = COMM_ENABLE_RX_TX then snd (ext (Enable_Network_Communication comm_type) x)
        else if control_type = COMM_ENABLE_RX_DISABLE_TX then snd (ext (Disable_Transmission comm_type) x)
        else if control_type = COMM_DISABLE_RX_ENABLE_TX then snd (ext (Disable_Reception comm_type) x)
        else if control_type = COMM_DISABLE_RX_TX then snd (ext (Disable_Network_Communication comm_type) x)
        else x))"

section \<open>Dispatch\<close>

definition le16 :: "bytes \<Rightarrow> u16" where
  "le16 b = ucast (b ! 0) OR push_bit 8 (ucast (b ! 1))"

definition le32 :: "bytes \<Rightarrow> u32" where
  "le32 b = ucast (b ! 0) OR push_bit 8 (ucast (b ! 1)) OR push_bit 16 (ucast (b ! 2)) OR
            push_bit 24 (ucast (b ! 3))"

text \<open>A handler outside the file gets the buffer; its answer is the response code.\<close>

definition ext_reply :: "'x ext \<Rightarrow> ext_call \<Rightarrow> bytes \<Rightarrow> diag_context \<Rightarrow> 'x \<Rightarrow> 'x reply res" where
  "ext_reply ext call buf c x = (let (r, x') = ext call x in Inr (r, buf, c, x'))"

definition process_diagnostic_request ::
  "'x ext \<Rightarrow> (u8 \<Rightarrow> u8 \<Rightarrow> bool) \<Rightarrow> u32 \<Rightarrow> u8 \<Rightarrow> bytes \<Rightarrow> u16 \<Rightarrow> diag_context \<Rightarrow> 'x \<Rightarrow> 'x reply res" where
  "process_diagnostic_request ext allowed now service_id buf len c x =
     (if \<not> allowed service_id (current_session c) then Inr (DIAG_RESP_SERVICE_NA, buf, c, x)
      else if service_id = UDS_DIAGNOSTIC_SESSION_CONTROL then
        (if len < 1 then Inr (DIAG_RESP_INCORRECT_LENGTH, buf, c, x)
         else res_bind (mem_get buf 0) (\<lambda>b.
           let (r, c') = start_diagnostic_session b c in Inr (r, buf, c', x)))
      else if service_id = UDS_SECURITY_ACCESS then
        (if len < 5 then Inr (DIAG_RESP_INCORRECT_LENGTH, buf, c, x)
         else res_bind (mem_get buf 0) (\<lambda>level. res_bind (mem_read buf 1 4) (\<lambda>k.
           let (r, c') = verify_security_access now level (le32 k) c in Inr (r, buf, c', x))))
      else if service_id = UDS_READ_DATA_BY_ID then
        (if len < 2 then Inr (DIAG_RESP_INCORRECT_LENGTH, buf, c, x)
         else ext_reply ext (Handle_Read_Data_By_Id buf len) buf c x)
      else if service_id = UDS_WRITE_DATA_BY_ID then
        (if len < 3 then Inr (DIAG_RESP_INCORRECT_LENGTH, buf, c, x)
         else ext_reply ext (Handle_Write_Data_By_Id buf len) buf c x)
      else if service_id = UDS_ROUTINE_CONTROL then
        (if len < 3 then Inr (DIAG_RESP_INCORRECT_LENGTH, buf, c, x)
         else res_bind (mem_read buf 0 2) (\<lambda>rid. res_bind (mem_get buf 2) (\<lambda>control_type.
           execute_routine ext (le16 rid) control_type buf 3 (len - 3) c x)))
      else if service_id = UDS_REQUEST_DOWNLOAD then ext_reply ext (Handle_Request_Download buf len) buf c x
      else if service_id = UDS_TRANSFER_DATA then ext_reply ext (Handle_Transfer_Data buf len) buf c x
      else if service_id = UDS_TRANSFER_EXIT then ext_reply ext Handle_Transfer_Exit buf c x
      else if service_id = UDS_TESTER_PRESENT then Inr (DIAG_RESP_OK, buf, c, x)
      else if service_id = UDS_CONTROL_DTC_SETTING then
        (if len < 1 then Inr (DIAG_RESP_INCORRECT_LENGTH, buf, c, x)
         else res_bind (mem_get buf 0) (\<lambda>b.
           let (r, c') = control_dtc_settings b c in Inr (r, buf, c', x)))
      else if service_id = UDS_COMM_CONTROL then
        (if len < 2 then Inr (DIAG_RESP_INCORRECT_LENGTH, buf, c, x)
         else res_bind (mem_get buf 0) (\<lambda>t. res_bind (mem_get buf 1) (\<lambda>y.
           let (r, x') = control_communication ext t y x in Inr (r, buf, c, x'))))
      else Inr (DIAG_RESP_SERVICE_NA, buf, c, x))"

definition get_diag_error_string :: "u8 \<Rightarrow> string" where
  "get_diag_error_string response_code =
     (let r = uint response_code in
      if r = DIAG_RESP_OK then ''Success''
      else if r = DIAG_RESP_GEN_REJECT then ''General reject''
      else if r = DIAG_RESP_SERVICE_NA then ''Service not available''
      else if r = DIAG_RESP_SUBFUNC_NA then ''Sub-function not available''
      else if r = DIAG_RESP_BUSY then ''Busy, repeat request''
      else if r = DIAG_RESP_CONDITIONS_NA then ''Conditions not correct''
      else if r = DIAG_RESP_SECURITY_DENIED then ''Security access denied''
      else if r = DIAG_RESP_INVALID_KEY then ''Invalid security key''
      else if r = DIAG_RESP_TOO_MANY_ATT then ''Too many attempts''
      else ''Unknown error'')"

end
