(* ===== verification/Diag_Properties.thy ===== *)
theory Diag_Properties
  imports Diag_Service
begin

text \<open>
  What a request may do to the diagnostic context, as a step relation, and the properties of the
  server that follow from it: sessions, the lockout of security access, the predictability of its
  keys, the life of a routine, and memory safety of the dispatch.
\<close>

section \<open>Sessions as a relation\<close>

inductive session_step :: "u8 \<Rightarrow> u8 \<Rightarrow> bool" where
  leave_default: "s \<in> {DIAG_SESSION_DEFAULT, DIAG_SESSION_PROGRAMMING, DIAG_SESSION_EXTENDED, DIAG_SESSION_SAFETY} \<Longrightarrow>
    session_step DIAG_SESSION_DEFAULT s"
| leave_programming: "session_step DIAG_SESSION_PROGRAMMING DIAG_SESSION_DEFAULT"
| leave_extended: "s \<in> {DIAG_SESSION_DEFAULT, DIAG_SESSION_PROGRAMMING} \<Longrightarrow> session_step DIAG_SESSION_EXTENDED s"
| leave_safety: "s \<in> {DIAG_SESSION_DEFAULT, DIAG_SESSION_PROGRAMMING} \<Longrightarrow> session_step DIAG_SESSION_SAFETY s"

inductive_simps session_step_simps:
  "session_step DIAG_SESSION_DEFAULT s" "session_step DIAG_SESSION_PROGRAMMING s"
  "session_step DIAG_SESSION_EXTENDED s" "session_step DIAG_SESSION_SAFETY s"

definition known_session :: "u8 \<Rightarrow> bool" where
  "known_session s \<longleftrightarrow> s \<in> {DIAG_SESSION_DEFAULT, DIAG_SESSION_PROGRAMMING, DIAG_SESSION_EXTENDED, DIAG_SESSION_SAFETY}"

lemma session_range: "(\<not> (s < DIAG_SESSION_DEFAULT \<or> DIAG_SESSION_SAFETY < s)) \<longleftrightarrow> known_session s"
proof -
  have "(\<not> (s < DIAG_SESSION_DEFAULT \<or> DIAG_SESSION_SAFETY < s)) \<longleftrightarrow> 1 \<le> unat s \<and> unat s \<le> 4"
    by (auto simp: session_defs word_less_nat_alt)
  also have "\<dots> \<longleftrightarrow> unat s = 1 \<or> unat s = 2 \<or> unat s = 3 \<or> unat s = 4" by arith
  finally show ?thesis by (simp add: session_defs known_session_def word_unat_eq_iff)
qed

lemma session_distinct [simp]:
  "DIAG_SESSION_DEFAULT \<noteq> DIAG_SESSION_PROGRAMMING" "DIAG_SESSION_PROGRAMMING \<noteq> DIAG_SESSION_DEFAULT"
  "DIAG_SESSION_DEFAULT \<noteq> DIAG_SESSION_EXTENDED" "DIAG_SESSION_EXTENDED \<noteq> DIAG_SESSION_DEFAULT"
  "DIAG_SESSION_DEFAULT \<noteq> DIAG_SESSION_SAFETY" "DIAG_SESSION_SAFETY \<noteq> DIAG_SESSION_DEFAULT"
  "DIAG_SESSION_PROGRAMMING \<noteq> DIAG_SESSION_EXTENDED" "DIAG_SESSION_EXTENDED \<noteq> DIAG_SESSION_PROGRAMMING"
  "DIAG_SESSION_PROGRAMMING \<noteq> DIAG_SESSION_SAFETY" "DIAG_SESSION_SAFETY \<noteq> DIAG_SESSION_PROGRAMMING"
  "DIAG_SESSION_EXTENDED \<noteq> DIAG_SESSION_SAFETY" "DIAG_SESSION_SAFETY \<noteq> DIAG_SESSION_EXTENDED"
  by (simp_all add: session_defs)

lemma session_step_known: "session_step s t \<Longrightarrow> known_session s \<and> known_session t"
  by (auto simp: known_session_def elim!: session_step.cases)

lemma start_session_spec:
  assumes "known_session (current_session c)"
  shows "start_diagnostic_session t c =
    (if session_step (current_session c) t
     then (DIAG_RESP_OK, c\<lparr>current_session := t, security_level := 0\<rparr>)
     else (if known_session t then DIAG_RESP_CONDITIONS_NA else DIAG_RESP_SUBFUNC_NA, c))"
proof -
  have "validate_session_transition t c \<longleftrightarrow> session_step (current_session c) t" if "known_session t"
    using assms that [unfolded known_session_def] unfolding known_session_def
    by (elim insertE emptyE; simp add: validate_session_transition_def session_step_simps)
  then show ?thesis
    using session_range [of t] session_step_known [of "current_session c" t]
    by (auto simp: start_diagnostic_session_def)
qed

section \<open>The effect of a request\<close>

definition locked_out :: "u32 \<Rightarrow> diag_context \<Rightarrow> bool" where
  "locked_out now c \<longleftrightarrow> MAX_SECURITY_ATTEMPTS \<le> security_attempts c \<and>
     now - last_security_attempt c < SECURITY_LOCKOUT_TIME_MS"

text \<open>The attempts that count once the lockout has passed.\<close>

definition counted_attempts :: "diag_context \<Rightarrow> u8" where
  "counted_attempts c = (if MAX_SECURITY_ATTEMPTS \<le> security_attempts c then 0 else security_attempts c)"

inductive diag_effect :: "u32 \<Rightarrow> diag_context \<Rightarrow> diag_context \<Rightarrow> bool" for now c where
  no_effect: "diag_effect now c c"
| session: "session_step (current_session c) s \<Longrightarrow>
    diag_effect now c (c\<lparr>current_session := s, security_level := 0\<rparr>)"
| right_key: "\<not> locked_out now c \<Longrightarrow>
    diag_effect now c (c\<lparr>security_level := level, security_attempts := 0\<rparr>)"
| wrong_key: "\<not> locked_out now c \<Longrightarrow>
    diag_effect now c (c\<lparr>security_attempts := counted_attempts c + 1, last_security_attempt := now\<rparr>)"
| routine_start: "status (active_routine c) = 0 \<Longrightarrow> length d = length (rdata (active_routine c)) \<Longrightarrow>
    unat n \<le> length (rdata (active_routine c)) \<Longrightarrow>
    diag_effect now c (c\<lparr>active_routine := (active_routine c)\<lparr>routine_id := rid, status := 1, rdata := d, data_len := n\<rparr>\<rparr>)"
| routine_stop: "diag_effect now c (c\<lparr>active_routine := (active_routine c)\<lparr>status := 0\<rparr>\<rparr>)"
| dtc: "diag_effect now c (c\<lparr>dtc_settings_enabled := b\<rparr>)"

lemma verify_spec:
  "verify_security_access now level key c =
     (if locked_out now c then (DIAG_RESP_REQUIRED_TIME_NA, c)
      else if key = calculate_security_key (last_security_attempt c) level
      then (DIAG_RESP_OK, c\<lparr>security_level := level, security_attempts := 0\<rparr>)
      else (DIAG_RESP_INVALID_KEY,
            c\<lparr>security_attempts := counted_attempts c + 1, last_security_attempt := now\<rparr>))"
  by (simp add: verify_security_access_def locked_out_def counted_attempts_def Let_def)

lemma verify_effect: "diag_effect now c (snd (verify_security_access now level key c))"
  by (simp add: verify_spec diag_effect.intros)

lemma session_effect:
  "known_session (current_session c) \<Longrightarrow> diag_effect now c (snd (start_diagnostic_session t c))"
  by (simp add: start_session_spec diag_effect.intros)

lemma handle_routine_start_cases:
  assumes "handle_routine_start ext rid buf off len c x = Inr (r, buf', c', x')"
  shows "buf' = buf \<and> (if status (active_routine c) \<noteq> 0 then r = DIAG_RESP_CONDITIONS_NA \<and> c' = c
     else \<exists>d. off + unat len \<le> length buf \<and>
       memcpy_at (rdata (active_routine c)) 0 (take (unat len) (drop off buf)) = Inr d \<and>
       c' = c\<lparr>active_routine := (active_routine c)\<lparr>routine_id := rid, status := 1, rdata := d, data_len := len\<rparr>\<rparr>)"
  using assms
  by (auto simp: handle_routine_start_def Let_def res_bind_Inr_iff mem_read_def split: if_splits prod.splits)

lemma routine_start_effect:
  assumes "handle_routine_start ext rid buf off len c x = Inr (r, buf', c', x')"
  shows "diag_effect now c c'"
proof (cases "status (active_routine c) = 0")
  case True
  then obtain d where d: "memcpy_at (rdata (active_routine c)) 0 (take (unat len) (drop off buf)) = Inr d"
    "off + unat len \<le> length buf"
    "c' = c\<lparr>active_routine := (active_routine c)\<lparr>routine_id := rid, status := 1, rdata := d, data_len := len\<rparr>\<rparr>"
    using handle_routine_start_cases [OF assms] by auto
  then have "length d = length (rdata (active_routine c))" "unat len \<le> length (rdata (active_routine c))"
    using memcpy_at_length [OF d(1)] by (auto simp: memcpy_at_def min_def split: if_splits)
  then show ?thesis using True d(3) by (simp add: diag_effect.routine_start)
next
  case False
  then show ?thesis using handle_routine_start_cases [OF assms] by (simp add: diag_effect.no_effect)
qed

lemma execute_routine_effect:
  assumes "execute_routine ext rid t buf off len c x = Inr (r, buf', c', x')"
  shows "diag_effect now c c'"
  using assms routine_start_effect
  by (auto simp: execute_routine_def res_bind_Inr_iff intro: diag_effect.intros split: if_splits)

lemma request_effect:
  assumes "known_session (current_session c)"
    and "process_diagnostic_request ext allowed now sid buf len c x = Inr (r, buf', c', x')"
  shows "diag_effect now c c'"
proof -
  have "c' = c \<or> (\<exists>t. c' = snd (start_diagnostic_session t c)) \<or>
      (\<exists>l k. c' = snd (verify_security_access now l k c)) \<or>
      (\<exists>rid t n b. execute_routine ext rid t buf 3 n c x = Inr (r, b, c', x')) \<or>
      (\<exists>b. c' = c\<lparr>dtc_settings_enabled := b\<rparr>)"
    using assms(2)
    by (auto simp: process_diagnostic_request_def res_bind_Inr_iff ext_reply_def control_dtc_settings_def
        case_prod_beta split: if_splits)
  then show ?thesis
    using verify_effect session_effect [OF assms(1)] execute_routine_effect
    by (auto intro: diag_effect.intros)
qed

section \<open>Runs of requests\<close>

text \<open>A request: the uptime when it is processed, the service, the buffer and the stated length.\<close>

type_synonym diag_request = "u32 \<times> u8 \<times> bytes \<times> u16"

fun diag_step ::
  "'x ext \<Rightarrow> (u8 \<Rightarrow> u8 \<Rightarrow> bool) \<Rightarrow> diag_context \<times> 'x \<Rightarrow> diag_request \<Rightarrow> (diag_context \<times> 'x) res" where
  "diag_step ext allowed (c, x) (now, sid, buf, len) =
     res_bind (process_diagnostic_request ext allowed now sid buf len c x) (\<lambda>(r, buf', s'). Inr s')"

lemma diag_step_Inr:
  "diag_step ext allowed (c, x) (now, sid, buf, len) = Inr (c', x') \<longleftrightarrow>
     (\<exists>r buf'. process_diagnostic_request ext allowed now sid buf len c x = Inr (r, buf', c', x'))"
  by (auto simp: res_bind_Inr_iff)

lemma diag_step_effect:
  assumes "known_session (current_session c)" and "diag_step ext allowed (c, x) e = Inr (c', x')"
  shows "diag_effect (fst e) c c'"
  using assms request_effect by (cases e) (auto simp: res_bind_Inr_iff)

lemma effect_known_session:
  "diag_effect now c c' \<Longrightarrow> known_session (current_session c) \<Longrightarrow> known_session (current_session c')"
  by (auto elim!: diag_effect.cases dest: session_step_known)

text \<open>
  Invariants of the context that an effect keeps are kept by every run: the shape all run
  properties below have.
\<close>

lemma run_effect_invariant:
  assumes inv: "\<And>now c c'. now \<in> fst ` set es \<Longrightarrow> diag_effect now c c' \<Longrightarrow> P c \<Longrightarrow> P c'"
    and "known_session (current_session c)" and "P c"
    and "res_run (diag_step ext allowed) (c, x) es = Inr (c', x')"
  shows "P c' \<and> known_session (current_session c')"
  using assms
proof (induction es arbitrary: c x)
  case Nil
  then show ?case by simp
next
  case (Cons e es)
  then obtain d y where d: "diag_step ext allowed (c, x) e = Inr (d, y)"
    "res_run (diag_step ext allowed) (d, y) es = Inr (c', x')"
    by (auto simp: res_bind_Inr_iff simp del: diag_step.simps)
  have "diag_effect (fst e) c d" by (rule diag_step_effect [OF Cons.prems(2) d(1)])
  then have "P d" "known_session (current_session d)"
    using Cons.prems(1) [of "fst e" c d] Cons.prems(2,3) effect_known_session by auto
  with Cons.IH [of d y] Cons.prems(1) d(2) show ?case by fastforce
qed

section \<open>Memory safety\<close>

definition diag_inv :: "diag_context \<Rightarrow> bool" where
  "diag_inv c \<longleftrightarrow> known_session (current_session c) \<and>
     length (rdata (active_routine c)) = ROUTINE_DATA_SIZE \<and>
     unat (data_len (active_routine c)) \<le> ROUTINE_DATA_SIZE"

text \<open>What the server trusts its caller for: the buffer is as long as stated.\<close>

definition honest_length :: "diag_request \<Rightarrow> bool" where
  "honest_length e = (case e of (now, sid, buf, len) \<Rightarrow> unat len \<le> length buf)"

text \<open>
  The two copies of the routine service that are not bounded: the start of a routine copies all its
  parameters into the 256 bytes of the routine, and a result request copies the stored parameters
  back over the request buffer, however long that is.
\<close>

definition overflows :: "(u8 \<Rightarrow> u8 \<Rightarrow> bool) \<Rightarrow> diag_context \<Rightarrow> diag_request \<Rightarrow> bool" where
  "overflows allowed c e = (case e of (now, sid, buf, len) \<Rightarrow>
     sid = UDS_ROUTINE_CONTROL \<and> allowed sid (current_session c) \<and> 3 \<le> unat len \<and>
     (buf ! 2 = ROUTINE_START \<and> status (active_routine c) = 0 \<and> 256 < unat len - 3 \<or>
      buf ! 2 = ROUTINE_RESULT \<and> routine_id (active_routine c) = le16 (take 2 buf) \<and>
        length buf < 3 + unat (data_len (active_routine c))))"

lemma effect_diag_inv: "diag_effect now c c' \<Longrightarrow> diag_inv c \<Longrightarrow> diag_inv c'"
  by (auto simp: diag_inv_def elim!: diag_effect.cases dest: session_step_known)

lemma routine_len: "3 \<le> (len :: u16) \<Longrightarrow> unat (len - 3) = unat len - 3"
  by (subst unat_sub) simp_all

lemma len_ge: "(\<not> (len :: u16) < 1) = (1 \<le> unat len)" "(\<not> (len :: u16) < 2) = (2 \<le> unat len)"
  "(\<not> (len :: u16) < 3) = (3 \<le> unat len)" "(\<not> (len :: u16) < 5) = (5 \<le> unat len)"
  by (simp_all add: word_less_nat_alt not_less Suc_le_eq)

lemma isl_res_bind: "isl (res_bind m k) \<longleftrightarrow> isl m \<or> (\<exists>y. m = Inr y \<and> isl (k y))"
  by (cases m) simp_all

lemma execute_routine_fault_iff:
  assumes "diag_inv c" and "unat len \<le> length buf" and "3 \<le> unat len"
  shows "isl (execute_routine ext rid t buf 3 (len - 3) c x) \<longleftrightarrow>
     t = ROUTINE_START \<and> status (active_routine c) = 0 \<and> 256 < unat len - 3 \<or>
     t = ROUTINE_RESULT \<and> routine_id (active_routine c) = rid \<and> length buf < 3 + unat (data_len (active_routine c))"
proof -
  have n: "unat (len - 3) = unat len - 3" using assms(3) by (intro routine_len) (simp add: word_le_nat_alt)
  have rd: "length (rdata (active_routine c)) = 256" "unat (data_len (active_routine c)) \<le> 256"
    using assms(1) by (simp_all add: diag_inv_def ROUTINE_DATA_SIZE_def)
  have src: "mem_read buf 3 (unat (len - 3)) = Inr (take (unat len - 3) (drop 3 buf))"
    "length (take (unat len - 3) (drop 3 buf)) = unat len - 3"
    using assms(2,3) n by (simp_all add: mem_read_def)
  have start: "isl (handle_routine_start ext rid buf 3 (len - 3) c x) \<longleftrightarrow>
      status (active_routine c) = 0 \<and> 256 < unat len - 3"
    unfolding handle_routine_start_def src(1) using src(2) rd(1)
    by (simp add: isl_res_bind Let_def case_prod_beta)
  have stored: "mem_read (rdata (active_routine c)) 0 (unat (data_len (active_routine c))) =
      Inr (take (unat (data_len (active_routine c))) (rdata (active_routine c)))"
    using rd by (simp add: mem_read_def)
  have result: "isl (res_bind (mem_read (rdata (active_routine c)) 0 (unat (data_len (active_routine c)))) (\<lambda>src.
      res_bind (memcpy_at buf 3 src) (\<lambda>buf'. Inr (DIAG_RESP_OK, buf', c, x)))) \<longleftrightarrow>
      length buf < 3 + unat (data_len (active_routine c))"
    unfolding stored using rd by (simp add: isl_res_bind min_def)
  show ?thesis
    unfolding execute_routine_def using start result by (simp add: control_defs)
qed

lemma request_fault_iff:
  assumes "diag_inv c" and "honest_length (now, sid, buf, len)"
  shows "isl (process_diagnostic_request ext allowed now sid buf len c x) \<longleftrightarrow> overflows allowed c (now, sid, buf, len)"
proof (cases "sid = UDS_ROUTINE_CONTROL")
  case True
  have len: "unat len \<le> length buf" using assms(2) by (simp add: honest_length_def)
  show ?thesis
  proof (cases "3 \<le> unat len")
    case ge: True
    then have "\<not> len < 3" "mem_read buf 0 2 = Inr (take 2 buf)" "mem_get buf 2 = Inr (buf ! 2)"
      using len by (simp_all add: word_less_nat_alt mem_read_def mem_get_def)
    then show ?thesis
      using execute_routine_fault_iff [OF assms(1) len ge, of ext "le16 (take 2 buf)" "buf ! 2" x] True ge
      by (simp add: process_diagnostic_request_def uds_defs overflows_def)
  next
    case False
    then have "len < 3" by (simp add: word_less_nat_alt)
    then show ?thesis using True False by (simp add: process_diagnostic_request_def uds_defs overflows_def)
  qed
next
  case False
  have len: "unat len \<le> length buf" using assms(2) by (simp add: honest_length_def)
  have ge: "\<not> len < 1 \<Longrightarrow> 0 < length buf" "\<not> len < 2 \<Longrightarrow> 1 < length buf" "\<not> len < 5 \<Longrightarrow> 4 < length buf"
    unfolding len_ge using len by linarith+
  have "\<not> isl (process_diagnostic_request ext allowed now sid buf len c x)"
    unfolding process_diagnostic_request_def ext_reply_def Let_def
    by (intro total_intros) (use ge False in \<open>auto simp: not_le mem_get_def\<close>)
  then show ?thesis using False by (simp add: overflows_def)
qed

interpretation server: guarded_machine "diag_step ext allowed" "\<lambda>s. diag_inv (fst s)" honest_length
  "\<lambda>s. overflows allowed (fst s)" for ext :: "'x ext" and allowed
proof unfold_locales
  fix s e s'
  assume "diag_inv (fst s)" "diag_step ext allowed s e = Inr s'"
  then show "diag_inv (fst s')"
    using diag_step_effect [of "fst s" ext allowed "snd s" e "fst s'" "snd s'"] effect_diag_inv
    by (auto simp: diag_inv_def)
next
  fix s :: "diag_context \<times> 'x" and e
  assume a: "diag_inv (fst s)" "honest_length e"
  obtain c x where s: "s = (c, x)" by (cases s)
  obtain now sid buf len where e: "e = (now, sid, buf, len)" by (cases e) auto
  have "isl (diag_step ext allowed s e) \<longleftrightarrow> isl (process_diagnostic_request ext allowed now sid buf len c x)"
    unfolding s e by (cases "process_diagnostic_request ext allowed now sid buf len c x") (auto simp: case_prod_beta)
  then show "isl (diag_step ext allowed s e) \<longleftrightarrow> overflows allowed (fst s) e"
    using request_fault_iff [of c now sid buf len ext allowed x] a s e by simp
qed

lemma diag_inv_init: "diag_inv diagnostic_service_init"
  by (simp add: diag_inv_def diagnostic_service_init_def known_session_def)

text \<open>C3: What a sequence of requests can do to memory, from the initial state and with nothing
  trusted but the stated lengths. The server faults exactly when, after some of the requests, the
  next one is a permitted routine request that either starts a routine with more than 256 parameter
  bytes while the slot is free, or asks for the result of the stored routine in a buffer with less
  room behind its three header bytes than parameters are stored. No other request leaves a buffer.
  A run that gets to its end leaves one of the four known sessions and routine data inside their
  array.\<close>

theorem diag_faults_iff_routine_overflow:
  assumes "list_all honest_length es"
  shows "(isl (res_run (diag_step ext allowed) (diagnostic_service_init, x) es) \<longleftrightarrow>
      (\<exists>n < length es. \<exists>c y. res_run (diag_step ext allowed) (diagnostic_service_init, x) (take n es) = Inr (c, y) \<and>
        overflows allowed c (es ! n))) \<and>
    (\<forall>c y. res_run (diag_step ext allowed) (diagnostic_service_init, x) es = Inr (c, y) \<longrightarrow> diag_inv c)"
  using server.run_fault_iff [of "(diagnostic_service_init, x)" es ext allowed]
    server.run_inv [of "(diagnostic_service_init, x)" es ext allowed] assms diag_inv_init by auto

text \<open>A self test is started with four parameter bytes; a result request of three bytes faults, and
  one of seven bytes does not.\<close>

theorem diag_faults_iff_routine_overflow_witness:
  "isl (res_run (diag_step (\<lambda>_ n. (0, n)) (\<lambda>_ _. True)) (diagnostic_service_init, ())
     [(5, 0x31, [0, 1, 1, 9, 9, 9, 9], 7), (6, 0x31, [0, 1, 3], 3)]) \<and>
   \<not> isl (res_run (diag_step (\<lambda>_ n. (0, n)) (\<lambda>_ _. True)) (diagnostic_service_init, ())
     [(5, 0x31, [0, 1, 1, 9, 9, 9, 9], 7), (6, 0x31, [0, 1, 3, 0, 0, 0, 0], 7)])"
proof -
  let ?start = "(5, 0x31, [0, 1, 1, 9, 9, 9, 9], 7) :: diag_request"
  define c where "c = diagnostic_service_init\<lparr>active_routine := \<lparr>routine_id = 0x0100, status = 1, result_code = 0,
    rdata = [9, 9, 9, 9] @ replicate 252 0, data_len = 4\<rparr>\<rparr>"
  have started: "diag_step (\<lambda>_ n. (0, n)) (\<lambda>_ _. True) (diagnostic_service_init, ()) ?start = Inr (c, ())"
    by (simp add: c_def process_diagnostic_request_def uds_defs mem_simps mem_get_def execute_routine_def control_defs
        handle_routine_start_def diagnostic_service_init_def ROUTINE_DATA_SIZE_def le16_def routine_id_defs
        numeral_3_eq_3 Let_def)
  have init: "current_session c = 1" "routine_id (active_routine c) = 0x0100" "status (active_routine c) = 1"
    "data_len (active_routine c) = 4"
    by (simp_all add: c_def diagnostic_service_init_def session_defs)
  have "honest_length ?start" "honest_length (6, 0x31, [0, 1, 3], 3)"
    "honest_length (6, 0x31, [0, 1, 3, 0, 0, 0, 0], 7)"
    by (simp_all add: honest_length_def)
  moreover have "\<not> overflows (\<lambda>_ _. True) diagnostic_service_init ?start"
    by (simp add: overflows_def control_defs)
  moreover have "overflows (\<lambda>_ _. True) c (6, 0x31, [0, 1, 3], 3)"
    "\<not> overflows (\<lambda>_ _. True) c (6, 0x31, [0, 1, 3, 0, 0, 0, 0], 7)"
    using init by (simp_all add: overflows_def uds_defs control_defs le16_def)
  ultimately show ?thesis
    using diag_faults_iff_routine_overflow [of "[?start, (6, 0x31, [0, 1, 3], 3)]" "\<lambda>_ n. (0, n)" "\<lambda>_ _. True" "()"]
      diag_faults_iff_routine_overflow [of "[?start, (6, 0x31, [0, 1, 3, 0, 0, 0, 0], 7)]" "\<lambda>_ n. (0, n)" "\<lambda>_ _. True" "()"]
      started by (simp add: less_Suc_eq_0_disj ex_disj_distrib conj_disj_distribR del: diag_step.simps)
qed

section \<open>Sessions and security access\<close>

text \<open>C34: From the extended session the safety session is out of reach unless some request in
  between has brought the server back to the default session.\<close>

theorem extended_reaches_safety_only_by_default:
  assumes "current_session c = DIAG_SESSION_EXTENDED"
    and "res_run (diag_step ext allowed) (c, x) es = Inr (c', x')"
    and "current_session c' = DIAG_SESSION_SAFETY"
  shows "\<exists>n < length es. \<exists>d y. res_run (diag_step ext allowed) (c, x) (take n es) = Inr (d, y) \<and>
    current_session d = DIAG_SESSION_DEFAULT"
proof (rule ccontr)
  assume no: "\<not> ?thesis"
  have "current_session d \<in> {DIAG_SESSION_EXTENDED, DIAG_SESSION_PROGRAMMING}"
    if "n \<le> length es" "res_run (diag_step ext allowed) (c, x) (take n es) = Inr (d, y)"
      "n = length es \<longrightarrow> current_session d \<noteq> DIAG_SESSION_DEFAULT" for n d y
    using that
  proof (induction n arbitrary: d y)
    case 0
    then show ?case using assms(1) by simp
  next
    case (Suc n)
    then have n: "n < length es" by simp
    then have "res_run (diag_step ext allowed) (c, x) (take n es @ [es ! n]) = Inr (d, y)"
      using Suc.prems(2) by (simp add: take_Suc_conv_app_nth)
    then obtain u z where u: "res_run (diag_step ext allowed) (c, x) (take n es) = Inr (u, z)"
      "diag_step ext allowed (u, z) (es ! n) = Inr (d, y)"
      by (auto simp: res_run_append res_bind_Inr_iff simp del: diag_step.simps)
    have s: "current_session u \<in> {DIAG_SESSION_EXTENDED, DIAG_SESSION_PROGRAMMING}"
      using Suc.IH [OF _ u(1)] n no u(1) by auto
    then have "diag_effect (fst (es ! n)) u d"
      using diag_step_effect [OF _ u(2)] by (auto simp: known_session_def)
    moreover have "current_session d \<noteq> DIAG_SESSION_DEFAULT"
      using Suc.prems no by (metis le_neq_implies_less)
    ultimately show ?case
      using s by (auto elim!: diag_effect.cases simp: session_step_simps)
  qed
  from this [of "length es" c' x'] show False using assms(2,3) by simp
qed

theorem extended_reaches_safety_only_by_default_witness:
  "\<exists>n < 2. \<exists>d y. res_run (diag_step (\<lambda>_ n. (0, n)) (\<lambda>_ _. True))
     (diagnostic_service_init\<lparr>current_session := 3\<rparr>, ()) (take n [(1, 0x10, [1], 1), (2, 0x10, [4], 1)]) = Inr (d, y) \<and>
    current_session d = DIAG_SESSION_DEFAULT"
proof -
  have "res_run (diag_step (\<lambda>_ n. (0, n)) (\<lambda>_ _. True))
      (diagnostic_service_init\<lparr>current_session := 3\<rparr>, ()) [(1, 0x10, [1], 1), (2, 0x10, [4], 1)] =
    Inr (diagnostic_service_init\<lparr>current_session := 4\<rparr>, ())"
    by (simp add: process_diagnostic_request_def uds_defs mem_get_def diagnostic_service_init_def
        start_diagnostic_session_def session_defs validate_session_transition_def)
  from extended_reaches_safety_only_by_default [OF _ this] show ?thesis
    by (simp add: session_defs numeral_2_eq_2)
qed

text \<open>C12: While the lockout lasts nothing raises the security level: whatever requests arrive in
  the ten seconds after the third failed attempt, the attempt counter and its time stay as they
  are, and the level stays or drops to zero.\<close>

theorem lockout_survives_all_requests:
  assumes "MAX_SECURITY_ATTEMPTS \<le> security_attempts c" and "known_session (current_session c)"
    and "\<forall>e \<in> set es. fst e - last_security_attempt c < SECURITY_LOCKOUT_TIME_MS"
    and "res_run (diag_step ext allowed) (c, x) es = Inr (c', x')"
  shows "security_attempts c' = security_attempts c \<and>
    last_security_attempt c' = last_security_attempt c \<and> security_level c' \<in> {security_level c, 0}"
proof -
  let ?P = "\<lambda>d. security_attempts d = security_attempts c \<and>
    last_security_attempt d = last_security_attempt c \<and> security_level d \<in> {security_level c, 0}"
  have "?P d'" if "now \<in> fst ` set es" "diag_effect now d d'" "?P d" for now d d'
    using that assms(1,3) by (auto simp: locked_out_def elim!: diag_effect.cases)
  from run_effect_invariant [of es ?P, OF this assms(2) _ assms(4)] show ?thesis by simp
qed

theorem lockout_survives_all_requests_witness:
  "security_level (fst (projr (res_run (diag_step (\<lambda>_ n. (0, n)) (\<lambda>_ _. True))
     (diagnostic_service_init\<lparr>security_attempts := 3, last_security_attempt := 500\<rparr>, ())
     [(600, 0x27, [1, 0, 0, 0, 0], 5), (9000, 0x10, [2], 1)]))) = 0"
proof -
  let ?c = "diagnostic_service_init\<lparr>security_attempts := 3, last_security_attempt := 500\<rparr>"
  let ?es = "[(600, 0x27, [1, 0, 0, 0, 0], 5), (9000, 0x10, [2], 1)] :: diag_request list"
  obtain c' x' where r: "res_run (diag_step (\<lambda>_ n. (0, n)) (\<lambda>_ _. True)) (?c, ()) ?es = Inr (c', x')"
    by (simp add: process_diagnostic_request_def uds_defs mem_simps mem_get_def verify_security_access_def
        MAX_SECURITY_ATTEMPTS_def SECURITY_LOCKOUT_TIME_MS_def diagnostic_service_init_def
        start_diagnostic_session_def session_defs validate_session_transition_def)
  have "security_level c' \<in> {security_level ?c, 0}"
    using lockout_survives_all_requests [OF _ _ _ r]
    by (simp add: MAX_SECURITY_ATTEMPTS_def SECURITY_LOCKOUT_TIME_MS_def diagnostic_service_init_def known_session_def)
  then show ?thesis using r by (simp add: diagnostic_service_init_def)
qed

text \<open>C38: The seed of a key is the time of the last failed attempt, which the tester chooses: from
  every state with fewer than two counted attempts, one request with a wrong key followed by one
  request with the key computed from the time of the first unlocks any level.\<close>

theorem unlock_in_two_requests:
  assumes "counted_attempts c < 2" and "\<not> locked_out t1 c"
    and "key \<noteq> calculate_security_key (last_security_attempt c) level'"
  shows "\<exists>c1 c2. verify_security_access t1 level' key c = (DIAG_RESP_INVALID_KEY, c1) \<and>
    verify_security_access t2 level (calculate_security_key t1 level) c1 = (DIAG_RESP_OK, c2) \<and>
    security_level c2 = level \<and> security_attempts c2 = 0"
proof -
  have "unat (counted_attempts c + 1) < 3"
    using assms(1) by (simp add: word_less_nat_alt unat_word_ariths)
  then have "\<not> MAX_SECURITY_ATTEMPTS \<le> counted_attempts c + 1"
    by (simp add: MAX_SECURITY_ATTEMPTS_def word_le_nat_alt)
  then show ?thesis
    using assms(2,3) by (simp add: verify_spec) (simp add: locked_out_def)
qed

theorem unlock_in_two_requests_witness:
  "\<exists>c1 c2. verify_security_access 100 7 1 diagnostic_service_init = (DIAG_RESP_INVALID_KEY, c1) \<and>
    verify_security_access 200 7 (calculate_security_key 100 7) c1 = (DIAG_RESP_OK, c2) \<and> security_level c2 = 7"
proof -
  have "calculate_security_key 0 7 \<noteq> 1" by code_simp
  then show ?thesis
    using unlock_in_two_requests [of diagnostic_service_init 100 1 7 200 7]
    by (auto simp: counted_attempts_def locked_out_def diagnostic_service_init_def MAX_SECURITY_ATTEMPTS_def)
qed

lemma rotation_complement:
  "NOT x XOR (push_bit 13 (NOT x) OR drop_bit 19 (NOT x)) = x XOR (push_bit 13 x OR drop_bit 19 (x :: u32))"
  by (rule bit_word_eqI) (auto simp: bit_simps dest: bit_imp_le_length)

text \<open>The key derivation loses a bit: a seed and its complement have the same key at every
  level, since the rotation of the first round is mixed in with exclusive or.\<close>

lemma seed_and_complement_share_key:
  "calculate_security_key (NOT seed) level = calculate_security_key seed level"
proof -
  have "key_round level 0 (NOT seed) = key_round level 0 seed"
    unfolding key_round_def rotation_complement by (rule refl)
  then show ?thesis by (simp add: calculate_security_key_def upt_rec)
qed

text \<open>What a request shows to the outside: its answer without the context.\<close>

definition visible :: "'x reply res \<Rightarrow> (int \<times> bytes \<times> 'x) res" where
  "visible = map_sum id (\<lambda>(r, b, c, y). (r, b, y))"

lemma visible_simps:
  "visible (Inr (r, b, c, y)) = Inr (r, b, y)" "visible (Inl e) = Inl e"
  "visible (res_bind m k) = res_bind m (\<lambda>z. visible (k z))"
  "visible (if P then a1 else a2) = (if P then visible a1 else visible a2)"
  "visible (case p of (u, v) \<Rightarrow> f u v) = visible (f (fst p) (snd p))"
  by (auto simp: visible_def res_bind_def case_prod_beta split: sum.split)

text \<open>The security level is set and reset but never consulted: for every request the response
  code, the buffer and the effects outside are the same at any two levels.\<close>

lemma security_level_never_checked:
  "visible (process_diagnostic_request ext allowed now sid buf len (c\<lparr>security_level := l\<rparr>) x) =
   visible (process_diagnostic_request ext allowed now sid buf len c x)"
proof -
  have s: "fst (start_diagnostic_session t (c\<lparr>security_level := l\<rparr>)) = fst (start_diagnostic_session t c)" for t
    by (simp add: start_diagnostic_session_def validate_session_transition_def)
  have v: "fst (verify_security_access now t k (c\<lparr>security_level := l\<rparr>)) = fst (verify_security_access now t k c)" for t k
    by (simp add: verify_security_access_def Let_def)
  have h: "visible (handle_routine_start ext rid buf 3 n (c\<lparr>security_level := l\<rparr>) x) =
      visible (handle_routine_start ext rid buf 3 n c x)" for rid n
    by (simp add: handle_routine_start_def Let_def visible_simps cong: if_cong)
  have e: "visible (execute_routine ext rid t buf 3 n (c\<lparr>security_level := l\<rparr>) x) =
      visible (execute_routine ext rid t buf 3 n c x)" for rid t n
    by (simp add: execute_routine_def visible_simps h cong: if_cong)
  show ?thesis
    by (simp add: process_diagnostic_request_def ext_reply_def Let_def control_dtc_settings_def visible_simps s v e
        cong: if_cong)
qed

section \<open>The life of a routine\<close>

text \<open>A stop request that names the routine.\<close>

definition stops :: "u16 \<Rightarrow> diag_request \<Rightarrow> bool" where
  "stops rid e = (case e of (now, sid, buf, len) \<Rightarrow>
     sid = UDS_ROUTINE_CONTROL \<and> le16 (take 2 buf) = rid \<and> buf ! 2 = ROUTINE_STOP)"

definition start_request :: "u16 \<Rightarrow> bytes \<Rightarrow> bytes" where
  "start_request rid params = [ucast rid, ucast (drop_bit 8 rid), ROUTINE_START] @ params"

definition result_request :: "u16 \<Rightarrow> bytes \<Rightarrow> bytes" where
  "result_request rid room = [ucast rid, ucast (drop_bit 8 rid), ROUTINE_RESULT] @ room"

lemma le16_bytes: "le16 [ucast rid, ucast (drop_bit 8 rid)] = rid"
proof -
  have "(ucast (ucast rid :: u8) OR push_bit 8 (ucast (ucast (drop_bit 8 rid) :: u8)) :: u16) = rid"
  proof (rule bit_word_eqI)
    fix n assume "n < LENGTH(16)"
    then show "bit (ucast (ucast rid :: u8) OR push_bit 8 (ucast (ucast (drop_bit 8 rid) :: u8)) :: u16) n = bit rid n"
      by (cases "n < 8") (simp_all add: bit_simps, linarith)
  qed
  then show ?thesis by (simp add: le16_def)
qed

lemma busy_routine_kept:
  assumes "status (active_routine c) \<noteq> 0" and "\<not> stops (routine_id (active_routine c)) e"
    and "diag_step ext allowed (c, x) e = Inr (c', x')"
  shows "active_routine c' = active_routine c"
proof -
  obtain now sid buf len where e: "e = (now, sid, buf, len)" by (cases e) auto
  obtain r buf' where p: "process_diagnostic_request ext allowed now sid buf len c x = Inr (r, buf', c', x')"
    using assms(3) e by (auto simp: res_bind_Inr_iff)
  have "c' = c \<or> (\<exists>t. c' = snd (start_diagnostic_session t c)) \<or>
      (\<exists>l k. c' = snd (verify_security_access now l k c)) \<or>
      (\<exists>n b. sid = UDS_ROUTINE_CONTROL \<and> execute_routine ext (le16 (take 2 buf)) (buf ! 2) buf 3 n c x = Inr (r, b, c', x')) \<or>
      (\<exists>b. c' = c\<lparr>dtc_settings_enabled := b\<rparr>)"
    using p
    by (auto simp: process_diagnostic_request_def res_bind_Inr_iff ext_reply_def control_dtc_settings_def
        mem_read_def mem_get_def case_prod_beta split: if_splits)
  moreover have "active_routine (snd (start_diagnostic_session t c)) = active_routine c" for t
    by (simp add: start_diagnostic_session_def)
  moreover have "active_routine (snd (verify_security_access now l k c)) = active_routine c" for l k
    by (simp add: verify_spec)
  moreover have "active_routine c' = active_routine c"
    if "execute_routine ext (le16 (take 2 buf)) (buf ! 2) buf 3 n c x = Inr (r, b, c', x')"
      "sid = UDS_ROUTINE_CONTROL" for n b
    using that assms(1,2) e
    by (auto simp: execute_routine_def handle_routine_start_def stops_def res_bind_Inr_iff split: if_splits)
  ultimately show ?thesis by (metis diag_context.select_convs(6) diag_context.update_convs(5) diag_context.surjective)
qed

lemma busy_run:
  assumes "status (active_routine c) \<noteq> 0" and "\<forall>e \<in> set es. \<not> stops (routine_id (active_routine c)) e"
    and "res_run (diag_step ext allowed) (c, x) es = Inr (c', x')"
  shows "active_routine c' = active_routine c"
  using assms
proof (induction es arbitrary: c x)
  case Nil
  then show ?case by simp
next
  case (Cons e es)
  then obtain d y where d: "diag_step ext allowed (c, x) e = Inr (d, y)"
    "res_run (diag_step ext allowed) (d, y) es = Inr (c', x')"
    by (auto simp: res_bind_Inr_iff simp del: diag_step.simps)
  have "active_routine d = active_routine c"
    using busy_routine_kept [OF Cons.prems(1) _ d(1)] Cons.prems(2) by simp
  then show ?case using Cons.IH [of d y] Cons.prems(1,2) d(2) by simp
qed

lemma start_request_step:
  assumes "allowed UDS_ROUTINE_CONTROL (current_session c)" and "length params \<le> 65532"
  shows "process_diagnostic_request ext allowed now UDS_ROUTINE_CONTROL (start_request rid params)
      (word_of_nat (3 + length params)) c x =
    handle_routine_start ext rid (start_request rid params) 3 (word_of_nat (length params)) c x"
proof -
  have len: "unat (word_of_nat (3 + length params) :: u16) = 3 + length params"
    using assms(2) by (intro unat_of_nat_u16) simp
  have "\<not> (word_of_nat (3 + length params) :: u16) < 3"
    unfolding word_less_nat_alt len by simp
  then show ?thesis
    using assms(1)
    by (simp add: process_diagnostic_request_def start_request_def uds_defs mem_simps le16_bytes execute_routine_def)
qed

text \<open>A start request for a routine the server does not know is answered with an error, but it
  leaves the routine slot taken: until a stop request names that unknown routine, every further
  start request, for whatever routine and after whatever other requests, is refused.\<close>

lemma unknown_routine_blocks_all:
  assumes "allowed UDS_ROUTINE_CONTROL (current_session c)" and "status (active_routine c) = 0"
    and "rid \<notin> {ROUTINE_SELF_TEST, ROUTINE_SENSOR_CALIBRATION, ROUTINE_MEMORY_CHECK, ROUTINE_SECURITY_CHECK}"
    and "length params \<le> length (rdata (active_routine c))" and "length params \<le> 65532"
  shows "\<exists>c1. process_diagnostic_request ext allowed now UDS_ROUTINE_CONTROL (start_request rid params)
      (word_of_nat (3 + length params)) c x = Inr (DIAG_RESP_SUBFUNC_NA, start_request rid params, c1, x) \<and>
    (\<forall>es c2 y rid' buf off len z. (\<forall>e \<in> set es. \<not> stops rid e) \<longrightarrow>
      res_run (diag_step ext allowed) (c1, x) es = Inr (c2, y) \<longrightarrow>
      handle_routine_start ext rid' buf off len c2 z = Inr (DIAG_RESP_CONDITIONS_NA, buf, c2, z))"
proof -
  let ?l = "word_of_nat (length params) :: u16"
  have l: "unat ?l = length params" using assms(5) by (intro unat_of_nat_u16) simp
  obtain d where d: "memcpy_at (rdata (active_routine c)) 0 params = Inr d"
    using assms(4) by (auto simp: memcpy_at_def)
  let ?c1 = "c\<lparr>active_routine := (active_routine c)\<lparr>routine_id := rid, status := 1, rdata := d, data_len := ?l\<rparr>\<rparr>"
  have "process_diagnostic_request ext allowed now UDS_ROUTINE_CONTROL (start_request rid params)
      (word_of_nat (3 + length params)) c x = Inr (DIAG_RESP_SUBFUNC_NA, start_request rid params, ?c1, x)"
    using assms(2,3) l d
    by (subst start_request_step [where allowed = allowed and c = c and params = params, OF assms(1,5)])
       (simp add: handle_routine_start_def mem_read_def start_request_def)
  moreover have "handle_routine_start ext rid' buf off len c2 z = Inr (DIAG_RESP_CONDITIONS_NA, buf, c2, z)"
    if "\<forall>e \<in> set es. \<not> stops rid e" "res_run (diag_step ext allowed) (?c1, x) es = Inr (c2, y)"
    for es c2 y rid' buf off len z
    using busy_run [OF _ _ that(2)] that(1) by (simp add: handle_routine_start_def)
  ultimately show ?thesis by blast
qed

lemma unknown_routine_blocks_all_witness:
  "\<exists>c1. process_diagnostic_request (\<lambda>_ n. (0, n)) (\<lambda>_ _. True) 0 UDS_ROUTINE_CONTROL (start_request 0x0700 [1, 2])
      5 diagnostic_service_init (0 :: nat) = Inr (DIAG_RESP_SUBFUNC_NA, start_request 0x0700 [1, 2], c1, 0) \<and>
    handle_routine_start (\<lambda>_ n. (0, n)) ROUTINE_SELF_TEST [] 0 0 c1 (0 :: nat) = Inr (DIAG_RESP_CONDITIONS_NA, [], c1, 0)"
proof -
  have idle: "status (active_routine diagnostic_service_init) = 0"
    "length [1, 2 :: u8] \<le> length (rdata (active_routine diagnostic_service_init))"
    by (simp_all add: diagnostic_service_init_def ROUTINE_DATA_SIZE_def)
  have rid: "0x0700 \<notin> {ROUTINE_SELF_TEST, ROUTINE_SENSOR_CALIBRATION, ROUTINE_MEMORY_CHECK, ROUTINE_SECURITY_CHECK}"
    by (simp add: routine_id_defs)
  obtain c1 where c1: "process_diagnostic_request (\<lambda>_ n. (0, n)) (\<lambda>_ _. True) 0 UDS_ROUTINE_CONTROL
      (start_request 0x0700 [1, 2]) (word_of_nat (3 + length [1, 2 :: u8])) diagnostic_service_init (0 :: nat) =
        Inr (DIAG_RESP_SUBFUNC_NA, start_request 0x0700 [1, 2], c1, 0)"
    and all: "\<forall>es c2 y rid' buf off len (z :: nat). (\<forall>e \<in> set es. \<not> stops 0x0700 e) \<longrightarrow>
      res_run (diag_step (\<lambda>_ n. (0, n)) (\<lambda>_ _. True)) (c1, 0 :: nat) es = Inr (c2, y) \<longrightarrow>
      handle_routine_start (\<lambda>_ n. (0, n)) rid' buf off len c2 z = Inr (DIAG_RESP_CONDITIONS_NA, buf, c2, z)"
    using unknown_routine_blocks_all [OF _ idle(1) rid idle(2), of "\<lambda>_ _. True" "\<lambda>_ n. (0, n)" 0 0] by auto
  have "res_run (diag_step (\<lambda>_ n. (0, n)) (\<lambda>_ _. True)) (c1, 0 :: nat) [] = Inr (c1, 0)" by simp
  then have "handle_routine_start (\<lambda>_ n. (0, n)) ROUTINE_SELF_TEST [] 0 0 c1 (0 :: nat) =
      Inr (DIAG_RESP_CONDITIONS_NA, [], c1, 0)"
    using all by (metis empty_iff list.set(1))
  then show ?thesis using c1 by simp
qed

text \<open>The parameters of an accepted start come back unchanged: a result request for the same
  routine writes exactly them into the request buffer, behind the three header bytes, and leaves
  the rest of the buffer and the context as they were.\<close>

lemma routine_result_returns_parameters:
  assumes "allowed UDS_ROUTINE_CONTROL (current_session c)" and "status (active_routine c) = 0"
    and "length params \<le> length (rdata (active_routine c))" and "length params \<le> length room"
    and "length room \<le> 65532"
  shows "\<exists>r c1 x1. process_diagnostic_request ext allowed now UDS_ROUTINE_CONTROL (start_request rid params)
      (word_of_nat (3 + length params)) c x = Inr (r, start_request rid params, c1, x1) \<and>
    process_diagnostic_request ext allowed now' UDS_ROUTINE_CONTROL (result_request rid room)
      (word_of_nat (3 + length room)) c1 x1 =
      Inr (DIAG_RESP_OK, result_request rid (params @ drop (length params) room), c1, x1)"
proof -
  let ?l = "word_of_nat (length params) :: u16"
  have small: "length params \<le> 65532" using assms(4,5) by simp
  have l: "unat ?l = length params" using small by (intro unat_of_nat_u16) simp
  obtain d where d: "memcpy_at (rdata (active_routine c)) 0 params = Inr d"
    "take (length params) d = params" "length d = length (rdata (active_routine c))"
    using memcpy_at_extends [of 0 "rdata (active_routine c)" "[]" params] assms(3) by auto
  let ?c1 = "c\<lparr>active_routine := (active_routine c)\<lparr>routine_id := rid, status := 1, rdata := d, data_len := ?l\<rparr>\<rparr>"
  have "\<exists>r x1. handle_routine_start ext rid (start_request rid params) 3 ?l c x =
      Inr (r, start_request rid params, ?c1, x1)"
    using assms(2) l d(1)
    by (auto simp: handle_routine_start_def mem_read_def start_request_def case_prod_beta Let_def)
  then obtain r x1 where start: "process_diagnostic_request ext allowed now UDS_ROUTINE_CONTROL
      (start_request rid params) (word_of_nat (3 + length params)) c x = Inr (r, start_request rid params, ?c1, x1)"
    using start_request_step [where ext = ext and allowed = allowed and c = c and params = params, OF assms(1) small] by auto
  have len: "unat (word_of_nat (3 + length room) :: u16) = 3 + length room"
    using assms(5) by (intro unat_of_nat_u16) simp
  have dr: "drop (3 + n) (a # b # e # xs) = drop n xs" for n a b e and xs :: bytes
    by (simp add: numeral_3_eq_3)
  have "\<not> (word_of_nat (3 + length room) :: u16) < 3"
    unfolding word_less_nat_alt len by simp
  then have "process_diagnostic_request ext allowed now' UDS_ROUTINE_CONTROL (result_request rid room)
      (word_of_nat (3 + length room)) ?c1 x1 =
      Inr (DIAG_RESP_OK, result_request rid (params @ drop (length params) room), ?c1, x1)"
    using assms(1,3,4) l d
    by (simp add: process_diagnostic_request_def result_request_def uds_defs mem_simps le16_bytes
        execute_routine_def control_defs mem_read_def dr)
  then show ?thesis using start by blast
qed

lemma routine_result_returns_parameters_witness:
  "\<exists>r c1 x1. process_diagnostic_request (\<lambda>_ n. (0, n)) (\<lambda>_ _. True) 0 UDS_ROUTINE_CONTROL
      (start_request ROUTINE_SELF_TEST [7, 8]) 5 diagnostic_service_init () =
        Inr (r, start_request ROUTINE_SELF_TEST [7, 8], c1, x1) \<and>
    process_diagnostic_request (\<lambda>_ n. (0, n)) (\<lambda>_ _. True) 9 UDS_ROUTINE_CONTROL
      (result_request ROUTINE_SELF_TEST [0, 0, 0]) 6 c1 x1 =
        Inr (DIAG_RESP_OK, result_request ROUTINE_SELF_TEST [7, 8, 0], c1, x1)"
  using routine_result_returns_parameters [of "\<lambda>_ _. True" diagnostic_service_init "[7, 8]" "[0, 0, 0]"
      "\<lambda>_ n. (0, n)" 0 ROUTINE_SELF_TEST "()" 9]
  by (auto simp: diagnostic_service_init_def ROUTINE_DATA_SIZE_def)

end
