(* ===== verification/Memory_Protection.thy ===== *)
theory Memory_Protection
  imports Prelude
begin

text \<open>
  The region table of \<^verbatim>\<open>common/safety/memory_protection.c\<close>: registration with its overlap check,
  guard pages, redundant pairs, the periodic integrity check and the fault handler.

  Addresses and sizes are 32 bits wide and the memory is a function from addresses to bytes. The
  CRC of Zephyr is the parameter \<open>crc\<close>. \<^verbatim>\<open>verify_memory_region\<close>, \<^verbatim>\<open>handle_memory_violation\<close> and
  \<^verbatim>\<open>is_critical_memory_region\<close> have no definition in the repository: the first and the last are
  parameters, a call of the second is recorded. The MPU registers are the list of the regions set.
\<close>

section \<open>State\<close>

definition MAX_PROTECTED_REGIONS :: nat where "MAX_PROTECTED_REGIONS = 16"
definition PAGE_SIZE :: u32 where "PAGE_SIZE = 4096"
definition STACK_GUARD_SIZE :: u32 where "STACK_GUARD_SIZE = PAGE_SIZE"

definition PROT_READ :: u32 where "PROT_READ = 1"
definition PROT_WRITE :: u32 where "PROT_WRITE = 2"
definition PROT_EXECUTE :: u32 where "PROT_EXECUTE = 4"
definition PROT_PRIVILEGED :: u32 where "PROT_PRIVILEGED = 8"
definition PROT_NO_CACHE :: u32 where "PROT_NO_CACHE = 32"

definition MEM_ERR_INVALID_REGION :: int where "MEM_ERR_INVALID_REGION = -1"
definition MEM_ERR_NO_MEMORY :: int where "MEM_ERR_NO_MEMORY = -2"
definition MEM_ERR_INVALID_PERM :: int where "MEM_ERR_INVALID_PERM = -3"
definition MEM_ERR_OVERLAP :: int where "MEM_ERR_OVERLAP = -4"
definition MEM_ERR_NOT_ALIGNED :: int where "MEM_ERR_NOT_ALIGNED = -5"

lemmas mem_err_defs = MEM_ERR_INVALID_REGION_def MEM_ERR_NO_MEMORY_def MEM_ERR_INVALID_PERM_def
  MEM_ERR_OVERLAP_def MEM_ERR_NOT_ALIGNED_def

record protected_region =
  start_addr :: u32
  rsize :: u32
  rflags :: u32
  rcrc :: u32
  is_redundant :: bool
  redundant_addr :: u32

datatype mpu_flag = REGION_READ | REGION_WRITE | REGION_EXEC | REGION_PRIV | REGION_NO_CACHE

type_synonym memory = "u32 \<Rightarrow> u8"

record mem_state =
  regions :: "protected_region list"
  mem :: memory
  mpu :: "(u32 \<times> u32 \<times> mpu_flag list) list"
  violations :: "u32 list"

definition mem_bytes :: "memory \<Rightarrow> u32 \<Rightarrow> u32 \<Rightarrow> bytes" where
  "mem_bytes m a n = map (\<lambda>i. m (a + word_of_nat i)) [0..<unat n]"

text \<open>\<open>memcpy\<close> between two areas, byte by byte from the front.\<close>

primrec copy_bytes :: "u32 \<Rightarrow> u32 \<Rightarrow> nat \<Rightarrow> memory \<Rightarrow> memory" where
  "copy_bytes dst src 0 m = m"
| "copy_bytes dst src (Suc k) m =
     (copy_bytes dst src k m)(dst + word_of_nat k := copy_bytes dst src k m (src + word_of_nat k))"

definition mem_copy :: "u32 \<Rightarrow> u32 \<Rightarrow> u32 \<Rightarrow> memory \<Rightarrow> memory" where
  "mem_copy dst src n m = copy_bytes dst src (unat n) m"

section \<open>Registration\<close>

definition is_aligned :: "u32 \<Rightarrow> u32 \<Rightarrow> bool" where
  "is_aligned addr alignment \<longleftrightarrow> addr AND (alignment - 1) = 0"

definition regions_overlap :: "u32 \<Rightarrow> u32 \<Rightarrow> u32 \<Rightarrow> u32 \<Rightarrow> bool" where
  "regions_overlap addr1 size1 addr2 size2 \<longleftrightarrow> addr1 < addr2 + size2 \<and> addr2 < addr1 + size1"

definition mpu_flags :: "u32 \<Rightarrow> mpu_flag list" where
  "mpu_flags flags =
     (if flags AND PROT_READ \<noteq> 0 then [REGION_READ] else []) @
     (if flags AND PROT_WRITE \<noteq> 0 then [REGION_WRITE] else []) @
     (if flags AND PROT_EXECUTE \<noteq> 0 then [REGION_EXEC] else []) @
     (if flags AND PROT_PRIVILEGED \<noteq> 0 then [REGION_PRIV] else []) @
     (if flags AND PROT_NO_CACHE \<noteq> 0 then [REGION_NO_CACHE] else [])"

type_synonym crc_fn = "bytes \<Rightarrow> u32"

definition protect_memory_region :: "crc_fn \<Rightarrow> u32 \<Rightarrow> u32 \<Rightarrow> u32 \<Rightarrow> mem_state \<Rightarrow> int \<times> mem_state" where
  "protect_memory_region crc addr sz flags s =
     (if \<not> is_aligned addr PAGE_SIZE then (MEM_ERR_NOT_ALIGNED, s)
      else if MAX_PROTECTED_REGIONS \<le> length (regions s) then (MEM_ERR_NO_MEMORY, s)
      else if list_ex (\<lambda>r. regions_overlap addr sz (start_addr r) (rsize r)) (regions s) then (MEM_ERR_OVERLAP, s)
      else (0, s\<lparr>mpu := mpu s @ [(addr, sz, mpu_flags flags)],
                 regions := regions s @ [\<lparr>start_addr = addr, rsize = sz, rflags = flags,
                   rcrc = crc (mem_bytes (mem s) addr sz), is_redundant = False, redundant_addr = 0\<rparr>]\<rparr>))"

definition setup_stack_protection :: "crc_fn \<Rightarrow> u32 \<Rightarrow> u32 \<Rightarrow> mem_state \<Rightarrow> int \<times> mem_state" where
  "setup_stack_protection crc stack_ptr stack_size s =
     (let (ret, s') = protect_memory_region crc stack_ptr STACK_GUARD_SIZE 0 s in
      if ret \<noteq> 0 then (ret, s')
      else protect_memory_region crc (stack_ptr + stack_size - STACK_GUARD_SIZE) STACK_GUARD_SIZE 0 s')"

definition link_pair :: "u32 \<Rightarrow> u32 \<Rightarrow> protected_region list \<Rightarrow> protected_region list" where
  "link_pair primary secondary rs =
     (let n = length rs in
      rs[n - 2 := (rs ! (n - 2))\<lparr>is_redundant := True, redundant_addr := secondary\<rparr>,
         n - 1 := (rs ! (n - 1))\<lparr>is_redundant := True, redundant_addr := primary\<rparr>])"

definition setup_redundant_memory :: "crc_fn \<Rightarrow> u32 \<Rightarrow> u32 \<Rightarrow> u32 \<Rightarrow> mem_state \<Rightarrow> int \<times> mem_state" where
  "setup_redundant_memory crc primary secondary sz s =
     (if MAX_PROTECTED_REGIONS - 1 \<le> length (regions s) then (MEM_ERR_NO_MEMORY, s)
      else
        (let (ret, s1) = protect_memory_region crc primary sz (PROT_READ OR PROT_WRITE) s in
         if ret \<noteq> 0 then (ret, s1)
         else
           (let (ret', s2) = protect_memory_region crc secondary sz (PROT_READ OR PROT_WRITE) s1 in
            if ret' \<noteq> 0 then (ret', s2)
            else (0, s2\<lparr>regions := link_pair primary secondary (regions s2)\<rparr>))))"

text \<open>The build configuration of the target, as the file's initialisation uses it.\<close>

record mem_config =
  flash_base :: u32
  flash_size :: u32
  sram_base :: u32
  sram_size :: u32
  peripheral_base :: u32
  peripheral_size :: u32

definition memory_protection_init :: "crc_fn \<Rightarrow> mem_config \<Rightarrow> mem_state \<Rightarrow> mem_state" where
  "memory_protection_init crc cfg s =
     (let s1 = snd (protect_memory_region crc (flash_base cfg) (flash_size cfg * 1024) (PROT_READ OR PROT_EXECUTE) s);
          s2 = snd (protect_memory_region crc (sram_base cfg) (sram_size cfg * 1024) (PROT_READ OR PROT_WRITE) s1)
      in snd (protect_memory_region crc (peripheral_base cfg) (peripheral_size cfg)
                (PROT_READ OR PROT_WRITE OR PROT_NO_CACHE) s2))"

section \<open>Checks\<close>

type_synonym verify_fn = "memory \<Rightarrow> u32 \<Rightarrow> u32 \<Rightarrow> u32 \<Rightarrow> bool"

definition verify_redundant_memory :: "memory \<Rightarrow> u32 \<Rightarrow> u32 \<Rightarrow> u32 \<Rightarrow> bool" where
  "verify_redundant_memory m primary secondary sz \<longleftrightarrow> mem_bytes m primary sz = mem_bytes m secondary sz"

definition handle_memory_violation :: "u32 \<Rightarrow> mem_state \<Rightarrow> mem_state" where
  "handle_memory_violation addr s = s\<lparr>violations := violations s @ [addr]\<rparr>"

definition check_region :: "verify_fn \<Rightarrow> protected_region \<Rightarrow> mem_state \<Rightarrow> mem_state" where
  "check_region verify r s =
     (if start_addr r = 0 then s
      else if \<not> verify (mem s) (start_addr r) (rsize r) (rcrc r) then handle_memory_violation (start_addr r) s
      else if is_redundant r \<and> redundant_addr r \<noteq> 0 \<and>
              \<not> verify_redundant_memory (mem s) (start_addr r) (redundant_addr r) (rsize r) then
        (let s' = handle_memory_violation (start_addr r) s in
         if verify (mem s') (start_addr r) (rsize r) (rcrc r) then
           s'\<lparr>mem := mem_copy (redundant_addr r) (start_addr r) (rsize r) (mem s')\<rparr>
         else if verify (mem s') (redundant_addr r) (rsize r) (rcrc r) then
           s'\<lparr>mem := mem_copy (start_addr r) (redundant_addr r) (rsize r) (mem s')\<rparr>
         else s')
      else s)"

definition periodic_memory_check :: "verify_fn \<Rightarrow> mem_state \<Rightarrow> mem_state" where
  "periodic_memory_check verify s = fold (check_region verify) (regions s) s"

text \<open>
  The thread that checks every second. What the rest of the program does to the memory while it
  sleeps is the function of the round.
\<close>

fun memory_check_task :: "verify_fn \<Rightarrow> (memory \<Rightarrow> memory) list \<Rightarrow> mem_state \<Rightarrow> mem_state" where
  "memory_check_task verify [] s = s"
| "memory_check_task verify (sleep # rounds) s =
     (let s' = periodic_memory_check verify s
      in memory_check_task verify rounds (s'\<lparr>mem := sleep (mem s')\<rparr>))"

record mem_access_record =
  access_addr :: u32
  access_type :: u32
  access_time :: u64
  access_task :: u32
  caller_addr :: u32

text \<open>A callback is known by its number, the result is the calls made in order.\<close>

definition notify_memory_access ::
  "nat option list \<Rightarrow> u8 \<Rightarrow> mem_access_record \<Rightarrow> (nat \<times> mem_access_record) list res" where
  "notify_memory_access mem_callbacks num_callbacks r =
     (if length mem_callbacks < unat num_callbacks then Inl Out_Of_Bounds
      else Inr (List.map_filter (map_option (\<lambda>c. (c, r))) (take (unat num_callbacks) mem_callbacks)))"

definition monitor_memory_access ::
  "nat option list \<Rightarrow> u8 \<Rightarrow> u64 \<Rightarrow> u32 \<Rightarrow> u32 \<Rightarrow> u32 \<Rightarrow> u32 \<Rightarrow> u32 \<Rightarrow> (nat \<times> mem_access_record) list res" where
  "monitor_memory_access mem_callbacks num_callbacks uptime task caller addr sz type =
     notify_memory_access mem_callbacks num_callbacks
       \<lparr>access_addr = addr, access_type = type, access_time = uptime, access_task = task, caller_addr = caller\<rparr>"

text \<open>The result is the new state and whether the node reboots.\<close>

definition memory_violation_handler :: "(u32 \<Rightarrow> bool) \<Rightarrow> u32 \<Rightarrow> mem_state \<Rightarrow> mem_state \<times> bool" where
  "memory_violation_handler is_critical fault_address s =
     (handle_memory_violation fault_address s, is_critical fault_address)"

definition get_memory_error_string :: "int \<Rightarrow> string" where
  "get_memory_error_string error_code =
     (if error_code = 0 then ''Success''
      else if error_code = MEM_ERR_INVALID_REGION then ''Invalid memory region''
      else if error_code = MEM_ERR_NO_MEMORY then ''No memory available for region''
      else if error_code = MEM_ERR_INVALID_PERM then ''Invalid permissions''
      else if error_code = MEM_ERR_OVERLAP then ''Region overlap''
      else if error_code = MEM_ERR_NOT_ALIGNED then ''Address not aligned''
      else ''Unknown error'')"

text \<open>
  The registration function of the header has no definition, and nothing else adds a callback: the
  monitor notifies nobody.
\<close>

lemma nobody_notified: "monitor_memory_access (replicate 8 None) 0 t task caller addr sz type = Inr []"
  by (simp add: monitor_memory_access_def notify_memory_access_def map_filter_simps)

text \<open>The checks leave the table alone, in every round.\<close>

lemma regions_check_region: "regions (check_region verify r s) = regions s"
  by (simp add: check_region_def handle_memory_violation_def Let_def)

lemma regions_periodic: "regions (periodic_memory_check verify s) = regions s"
proof -
  have "regions (fold (check_region verify) rs s) = regions s" for rs
    by (induction rs arbitrary: s) (simp_all add: regions_check_region)
  then show ?thesis by (simp add: periodic_memory_check_def)
qed

lemma regions_memory_check_task: "regions (memory_check_task verify rounds s) = regions s"
  by (induction rounds arbitrary: s) (simp_all add: Let_def regions_periodic)

section \<open>The table invariant\<close>

text \<open>The addresses of a region that does not wrap around the address space.\<close>

definition no_wrap :: "u32 \<Rightarrow> u32 \<Rightarrow> bool" where
  "no_wrap a n \<longleftrightarrow> unat a + unat n < 2 ^ 32"

definition span :: "u32 \<Rightarrow> u32 \<Rightarrow> nat set" where
  "span a n = {unat a ..< unat a + unat n}"

definition disjoint_regions :: "protected_region list \<Rightarrow> bool" where
  "disjoint_regions = sorted_wrt (\<lambda>q r. span (start_addr r) (rsize r) \<inter> span (start_addr q) (rsize q) = {})"

definition table_inv :: "mem_state \<Rightarrow> bool" where
  "table_inv s \<longleftrightarrow> length (regions s) \<le> MAX_PROTECTED_REGIONS \<and>
     (\<forall>r \<in> set (regions s). is_aligned (start_addr r) PAGE_SIZE) \<and> disjoint_regions (regions s) \<and>
     (\<forall>r \<in> set (regions s). no_wrap (start_addr r) (rsize r))"

lemma unat_end: "no_wrap a n \<Longrightarrow> unat (a + n) = unat a + unat n"
  by (simp add: no_wrap_def unat_word_ariths)

text \<open>Without wrap-around the overlap test is exact on nonempty regions.\<close>

lemma overlap_exact:
  assumes "no_wrap a n" and "no_wrap b m" and "0 < n" and "0 < m"
  shows "regions_overlap a n b m \<longleftrightarrow> span a n \<inter> span b m \<noteq> {}"
proof -
  have pos: "0 < unat n" "0 < unat m" using assms(3,4) by (simp_all add: unat_gt_0 word_gt_0)
  have "regions_overlap a n b m \<longleftrightarrow> unat a < unat b + unat m \<and> unat b < unat a + unat n"
    using assms(1,2) by (simp add: regions_overlap_def word_less_nat_alt unat_end)
  also have "\<dots> \<longleftrightarrow> max (unat a) (unat b) \<in> span a n \<inter> span b m"
    using pos by (auto simp: span_def max_def)
  also have "\<dots> \<longleftrightarrow> span a n \<inter> span b m \<noteq> {}"
    using pos by (auto simp: span_def max_def)
  finally show ?thesis .
qed

lemma no_overlap_disjoint:
  assumes "no_wrap a n" and "no_wrap b m" and "\<not> regions_overlap a n b m"
  shows "span a n \<inter> span b m = {}"
proof (cases "n = 0 \<or> m = 0")
  case True
  then show ?thesis by (auto simp: span_def)
next
  case False
  then show ?thesis using overlap_exact [OF assms(1,2)] assms(3) by (simp add: word_gt_0)
qed

lemma disjoint_regions_snoc:
  "disjoint_regions (rs @ [r]) \<longleftrightarrow> disjoint_regions rs \<and>
     (\<forall>q \<in> set rs. span (start_addr r) (rsize r) \<inter> span (start_addr q) (rsize q) = {})"
  by (simp add: disjoint_regions_def sorted_wrt_append)

lemma protect_inv:
  assumes "table_inv s" and "no_wrap addr sz"
  shows "table_inv (snd (protect_memory_region crc addr sz flags s))"
  using assms no_overlap_disjoint [OF assms(2)]
  by (auto simp: protect_memory_region_def table_inv_def disjoint_regions_snoc list_ex_iff not_le)

text \<open>Linking a pair changes neither the place nor the size of a region.\<close>

definition place :: "protected_region \<Rightarrow> u32 \<times> u32" where
  "place r = (start_addr r, rsize r)"

lemma table_inv_place:
  "table_inv s \<longleftrightarrow> length (regions s) \<le> MAX_PROTECTED_REGIONS \<and>
     (\<forall>p \<in> set (map place (regions s)). is_aligned (fst p) PAGE_SIZE \<and> no_wrap (fst p) (snd p)) \<and>
     sorted_wrt (\<lambda>q r. span (fst r) (snd r) \<inter> span (fst q) (snd q) = {}) (map place (regions s))"
  by (auto simp: table_inv_def disjoint_regions_def sorted_wrt_map place_def)

lemma place_link_pair: "map place (link_pair p q rs) = map place rs"
  by (rule nth_equalityI) (auto simp: link_pair_def Let_def nth_list_update place_def)

lemma length_link_pair [simp]: "length (link_pair p q rs) = length rs"
  by (simp add: link_pair_def Let_def)

lemma link_pair_inv: "table_inv s \<Longrightarrow> table_inv (s\<lparr>regions := link_pair p q (regions s)\<rparr>)"
proof -
  assume inv: "table_inv s"
  have r: "regions (s\<lparr>regions := link_pair p q (regions s)\<rparr>) = link_pair p q (regions s)" by simp
  show ?thesis using inv unfolding table_inv_place r place_link_pair length_link_pair .
qed

lemma setup_redundant_inv:
  "table_inv s \<Longrightarrow> no_wrap p n \<Longrightarrow> no_wrap q n \<Longrightarrow> table_inv (snd (setup_redundant_memory crc p q n s))"
  using protect_inv link_pair_inv
  by (auto simp: setup_redundant_memory_def Let_def case_prod_beta)

lemma setup_stack_inv:
  "table_inv s \<Longrightarrow> no_wrap p STACK_GUARD_SIZE \<Longrightarrow> no_wrap (p + n - STACK_GUARD_SIZE) STACK_GUARD_SIZE \<Longrightarrow>
     table_inv (snd (setup_stack_protection crc p n s))"
  using protect_inv by (auto simp: setup_stack_protection_def Let_def case_prod_beta)

text \<open>The operations that register regions, as events.\<close>

datatype table_op = Protect u32 u32 u32 | Stack u32 u32 | Redundant u32 u32 u32

definition table_step :: "crc_fn \<Rightarrow> mem_state \<Rightarrow> table_op \<Rightarrow> mem_state" where
  "table_step crc s e = (case e of
     Protect a n f \<Rightarrow> snd (protect_memory_region crc a n f s)
   | Stack p n \<Rightarrow> snd (setup_stack_protection crc p n s)
   | Redundant p q n \<Rightarrow> snd (setup_redundant_memory crc p q n s))"

definition op_fits :: "table_op \<Rightarrow> bool" where
  "op_fits e = (case e of
     Protect a n f \<Rightarrow> no_wrap a n
   | Stack p n \<Rightarrow> no_wrap p STACK_GUARD_SIZE \<and> no_wrap (p + n - STACK_GUARD_SIZE) STACK_GUARD_SIZE
   | Redundant p q n \<Rightarrow> no_wrap p n \<and> no_wrap q n)"

interpretation region_table: fallible_machine "\<lambda>s e. Inr (table_step crc s e)" table_inv op_fits "\<lambda>_. False" for crc
  by unfold_locales
     (auto simp: table_step_def op_fits_def intro: protect_inv setup_stack_inv setup_redundant_inv split: table_op.splits)

lemma run_Inr: "res_run (\<lambda>s e. Inr (f s e)) s es = Inr (foldl f s es)"
  by (induction es arbitrary: s) simp_all

text \<open>C10: Whatever sequence of registrations, guard pages and redundant pairs is requested, and
  whichever of them are refused, the table holds at most sixteen regions, each aligned to a page,
  and no two of them share an address.\<close>

theorem regions_stay_disjoint:
  assumes "regions s = []" and "list_all op_fits es"
  shows "length (regions (foldl (table_step crc) s es)) \<le> 16 \<and>
    (\<forall>r \<in> set (regions (foldl (table_step crc) s es)). is_aligned (start_addr r) PAGE_SIZE) \<and>
    sorted_wrt (\<lambda>q r. span (start_addr r) (rsize r) \<inter> span (start_addr q) (rsize q) = {})
      (regions (foldl (table_step crc) s es))"
proof -
  have "table_inv s" using assms(1) by (simp add: table_inv_def disjoint_regions_def)
  then have "table_inv (foldl (table_step crc) s es)"
    using region_table.run_ok [OF _ assms(2), of s crc] by (simp add: run_Inr)
  then show ?thesis by (simp add: table_inv_def disjoint_regions_def MAX_PROTECTED_REGIONS_def)
qed

definition empty_table :: mem_state where
  "empty_table = \<lparr>regions = [], mem = \<lambda>_. 0, mpu = [], violations = []\<rparr>"

theorem regions_stay_disjoint_witness:
  "length (regions (foldl (table_step (\<lambda>_. 0)) empty_table [Protect 0x1000 64 1, Redundant 0x2000 0x4000 4096])) \<le> 16"
  using regions_stay_disjoint [of empty_table "[Protect 0x1000 64 1, Redundant 0x2000 0x4000 4096]" "\<lambda>_. 0"]
  by (simp add: empty_table_def op_fits_def no_wrap_def)

text \<open>A region that ends at the top of the address space is invisible to the overlap check:
  its end wraps to zero, so it never conflicts with any other region.\<close>

lemma region_at_top_never_overlaps:
  assumes "unat a + unat n = 2 ^ 32"
  shows "\<not> regions_overlap b m a n \<and> \<not> regions_overlap a n b m"
proof -
  have "unat (a + n) = 0" using assms by (simp add: unat_word_ariths)
  then have "a + n = 0" by (simp only: word_unat_eq_iff unsigned_0)
  then show ?thesis by (simp add: regions_overlap_def)
qed

lemma region_at_top_never_overlaps_witness:
  "\<not> regions_overlap 0xF0000000 0x10000000 0xF0000000 0x10000000"
  using region_at_top_never_overlaps [of "0xF0000000" "0x10000000" "0xF0000000" "0x10000000"] by simp

text \<open>The initialisation registers the whole RAM, so nothing inside it can be protected
  afterwards: every later registration, guard page or redundant pair that starts with a nonempty
  area of RAM is refused and leaves the table as it was.\<close>

lemma ram_is_taken_after_init:
  assumes "regions s = []" and "is_aligned (sram_base cfg) PAGE_SIZE"
    and "\<not> regions_overlap (sram_base cfg) (sram_size cfg * 1024) (flash_base cfg) (flash_size cfg * 1024)"
    and "no_wrap (sram_base cfg) (sram_size cfg * 1024)" and "no_wrap p n" and "0 < n"
    and "span p n \<subseteq> span (sram_base cfg) (sram_size cfg * 1024)"
  shows "\<exists>r r'. r \<noteq> 0 \<and> r' \<noteq> 0 \<and>
    protect_memory_region crc p n f (memory_protection_init crc cfg s) = (r, memory_protection_init crc cfg s) \<and>
    setup_redundant_memory crc p q n (memory_protection_init crc cfg s) = (r', memory_protection_init crc cfg s)"
proof -
  let ?s = "memory_protection_init crc cfg s"
  have len: "length (regions ?s) \<le> 3"
    using assms(1) by (simp add: memory_protection_init_def protect_memory_region_def Let_def)
  have ram: "\<exists>r \<in> set (regions ?s). start_addr r = sram_base cfg \<and> rsize r = sram_size cfg * 1024"
    using assms(1-3)
    by (simp add: memory_protection_init_def protect_memory_region_def Let_def MAX_PROTECTED_REGIONS_def)
  have "span p n \<noteq> {}" using assms(6) by (simp add: span_def unat_gt_0 word_gt_0)
  then have "regions_overlap p n (sram_base cfg) (sram_size cfg * 1024)"
    using assms(7) no_overlap_disjoint [OF assms(5,4)] by blast
  then have ov: "list_ex (\<lambda>r. regions_overlap p n (start_addr r) (rsize r)) (regions ?s)"
    using ram unfolding list_ex_iff by (elim bexE, intro bexI) simp_all
  have P: "\<exists>r. r \<noteq> 0 \<and> protect_memory_region crc p n g ?s = (r, ?s)" for g
    using ov by (auto simp: protect_memory_region_def mem_err_defs)
  obtain r' where r': "r' \<noteq> 0" "protect_memory_region crc p n (PROT_READ OR PROT_WRITE) ?s = (r', ?s)"
    using P by blast
  then have "setup_redundant_memory crc p q n ?s = (r', ?s)"
    using len by (simp add: setup_redundant_memory_def MAX_PROTECTED_REGIONS_def)
  then show ?thesis using P [of f] r'(1) by blast
qed

definition esp32_config :: mem_config where
  "esp32_config = \<lparr>flash_base = 0x42000000, flash_size = 8192, sram_base = 0x3FC88000, sram_size = 416,
     peripheral_base = 0x60000000, peripheral_size = 0xD1000\<rparr>"

lemma ram_is_taken_after_init_witness:
  "\<exists>r. r \<noteq> 0 \<and>
    protect_memory_region (\<lambda>_. 0) 0x3FC90000 4096 3 (memory_protection_init (\<lambda>_. 0) esp32_config empty_table) =
      (r, memory_protection_init (\<lambda>_. 0) esp32_config empty_table)"
proof -
  have "regions empty_table = []" "is_aligned (sram_base esp32_config) PAGE_SIZE"
    "\<not> regions_overlap (sram_base esp32_config) (sram_size esp32_config * 1024)
        (flash_base esp32_config) (flash_size esp32_config * 1024)"
    "no_wrap (sram_base esp32_config) (sram_size esp32_config * 1024)" "no_wrap 0x3FC90000 4096" "(0 :: u32) < 4096"
    "span 0x3FC90000 4096 \<subseteq> span (sram_base esp32_config) (sram_size esp32_config * 1024)"
    by (simp_all add: empty_table_def esp32_config_def is_aligned_def PAGE_SIZE_def regions_overlap_def
        no_wrap_def span_def)
  from ram_is_taken_after_init [OF this] show ?thesis by blast
qed

section \<open>Redundant pairs in the table\<close>

text \<open>Every redundant region points to another of its size that points back.\<close>

definition mirrored :: "protected_region list \<Rightarrow> bool" where
  "mirrored rs \<longleftrightarrow> (\<forall>r \<in> set rs. is_redundant r \<longrightarrow>
     (\<exists>t \<in> set rs. start_addr t = redundant_addr r \<and> redundant_addr t = start_addr r \<and> rsize t = rsize r))"

lemma mirrored_extend: "mirrored rs \<Longrightarrow> \<forall>r \<in> set rs'. \<not> is_redundant r \<Longrightarrow> mirrored (rs @ rs')"
  by (auto simp: mirrored_def)

lemma protect_regions:
  "\<exists>rs'. regions (snd (protect_memory_region crc a n f s)) = regions s @ rs' \<and> (\<forall>r \<in> set rs'. \<not> is_redundant r)"
  by (simp add: protect_memory_region_def)

lemma protect_mirrored: "mirrored (regions s) \<Longrightarrow> mirrored (regions (snd (protect_memory_region crc a n f s)))"
  using protect_regions [of crc a n f s] mirrored_extend by auto

lemma protect_ok_regions:
  "protect_memory_region crc a n f s = (0, s') \<Longrightarrow>
    \<exists>r. regions s' = regions s @ [r] \<and> start_addr r = a \<and> rsize r = n \<and> \<not> is_redundant r"
  by (auto simp: protect_memory_region_def mem_err_defs split: if_splits)

lemma link_last_two:
  "link_pair p q (rs @ [a, b]) =
     rs @ [a\<lparr>is_redundant := True, redundant_addr := q\<rparr>, b\<lparr>is_redundant := True, redundant_addr := p\<rparr>]"
  by (simp add: link_pair_def nth_append list_update_append)

lemma redundant_mirrored:
  assumes "mirrored (regions s)"
  shows "mirrored (regions (snd (setup_redundant_memory crc p q n s)))"
proof -
  obtain r1 s1 where 1: "protect_memory_region crc p n (PROT_READ OR PROT_WRITE) s = (r1, s1)" by fastforce
  obtain r2 s2 where 2: "protect_memory_region crc q n (PROT_READ OR PROT_WRITE) s1 = (r2, s2)" by fastforce
  have m: "mirrored (regions s1)" "mirrored (regions s2)"
    using protect_mirrored [OF assms, of crc p n "PROT_READ OR PROT_WRITE"] 1
      protect_mirrored [of s1 crc q n "PROT_READ OR PROT_WRITE"] 2 by simp_all
  have "mirrored (link_pair p q (regions s2))" if ok: "r1 = 0" "r2 = 0"
  proof -
    obtain a where a: "regions s1 = regions s @ [a]" "start_addr a = p" "rsize a = n"
      using protect_ok_regions [of crc p n "PROT_READ OR PROT_WRITE" s s1] 1 ok(1) by auto
    obtain b where b: "regions s2 = regions s1 @ [b]" "start_addr b = q" "rsize b = n"
      using protect_ok_regions [of crc q n "PROT_READ OR PROT_WRITE" s1 s2] 2 ok(2) by auto
    have "regions s2 = regions s @ [a, b]" using a(1) b(1) by simp
    then show ?thesis using assms a(2,3) b(2,3) by (auto simp: link_last_two mirrored_def)
  qed
  then show ?thesis using assms m 1 2 by (simp add: setup_redundant_memory_def)
qed

lemma stack_mirrored:
  "mirrored (regions s) \<Longrightarrow> mirrored (regions (snd (setup_stack_protection crc p n s)))"
  using protect_mirrored by (auto simp: setup_stack_protection_def Let_def case_prod_beta)

text \<open>What happens to the memory and the table: registrations, writes of the program, checks.\<close>

datatype mem_event = Register table_op | Write "memory \<Rightarrow> memory" | Check

definition mem_step :: "crc_fn \<Rightarrow> verify_fn \<Rightarrow> mem_state \<Rightarrow> mem_event \<Rightarrow> mem_state" where
  "mem_step crc verify s e = (case e of
     Register t \<Rightarrow> table_step crc s t
   | Write f \<Rightarrow> s\<lparr>mem := f (mem s)\<rparr>
   | Check \<Rightarrow> periodic_memory_check verify s)"

definition event_fits :: "mem_event \<Rightarrow> bool" where
  "event_fits e = (case e of Register t \<Rightarrow> op_fits t | _ \<Rightarrow> True)"

definition table_sound :: "mem_state \<Rightarrow> bool" where
  "table_sound s \<longleftrightarrow> table_inv s \<and> mirrored (regions s)"

lemma mem_step_sound: "table_sound s \<Longrightarrow> event_fits e \<Longrightarrow> table_sound (mem_step crc verify s e)"
proof (cases e)
  case (Register t)
  assume "table_sound s" "event_fits e"
  then show ?thesis
    using Register protect_inv setup_stack_inv setup_redundant_inv protect_mirrored stack_mirrored redundant_mirrored
    by (auto simp: table_sound_def mem_step_def table_step_def event_fits_def op_fits_def split: table_op.splits)
qed (auto simp: table_sound_def mem_step_def table_inv_def regions_periodic)

interpretation memory_life: fallible_machine "\<lambda>s e. Inr (mem_step crc verify s e)" table_sound event_fits "\<lambda>_. False"
  for crc verify by unfold_locales (auto intro: mem_step_sound)

lemma table_sound_run:
  assumes "regions s = []" and "list_all event_fits es"
  shows "table_sound (foldl (mem_step crc verify) s es)"
proof -
  have "table_sound s" using assms(1) by (simp add: table_sound_def table_inv_def disjoint_regions_def mirrored_def)
  then show ?thesis using memory_life.run_ok [OF _ assms(2), of s crc verify] by (simp add: run_Inr)
qed

section \<open>Repair of redundant pairs\<close>

lemma offset_inj:
  assumes "i < 4294967296" and "j < 4294967296" and "(a :: u32) + word_of_nat i = a + word_of_nat j"
  shows "i = j"
proof -
  have "unat (word_of_nat i :: u32) = unat (word_of_nat j :: u32)"
    by (rule arg_cong [OF add_left_imp_eq [OF assms(3)]])
  then show ?thesis by (simp only: unat_of_nat_u32 [OF assms(1)] unat_of_nat_u32 [OF assms(2)])
qed

text \<open>Copying into an area that the source does not meet.\<close>

lemma mem_copy_prefix:
  fixes src dst n :: u32
  assumes "\<And>i j. i < unat n \<Longrightarrow> j < unat n \<Longrightarrow> src + word_of_nat i \<noteq> dst + word_of_nat j" and "k \<le> unat n"
  shows "(\<forall>i < k. copy_bytes dst src k m (dst + word_of_nat i) = m (src + word_of_nat i)) \<and>
    (\<forall>x. (\<forall>i < k. x \<noteq> dst + word_of_nat i) \<longrightarrow> copy_bytes dst src k m x = m x)"
  using assms(2)
proof (induction k)
  case 0
  then show ?case by simp
next
  case (Suc k)
  then have IH: "\<forall>i < k. copy_bytes dst src k m (dst + word_of_nat i) = m (src + word_of_nat i)"
    "\<forall>x. (\<forall>i < k. x \<noteq> dst + word_of_nat i) \<longrightarrow> copy_bytes dst src k m x = m x"
    by auto
  have "copy_bytes dst src k m (src + word_of_nat k) = m (src + word_of_nat k)"
    using IH(2) assms(1) [of k] Suc.prems by simp
  moreover have "i = k" if "i < Suc k" "dst + word_of_nat i = dst + word_of_nat k" for i
    by (rule offset_inj [OF _ _ that(2)]) (use that(1) Suc.prems unat_u32_less [of n] in linarith)+
  ultimately show ?case using IH by (auto simp: less_Suc_eq)
qed

lemma span_disjoint_offsets:
  assumes "no_wrap a n" and "no_wrap b n" and "span a n \<inter> span b n = {}"
    and "i < unat n" and "j < unat n"
  shows "a + word_of_nat i \<noteq> b + word_of_nat j"
proof
  assume eq: "a + word_of_nat i = b + word_of_nat j"
  have u: "unat (x + word_of_nat l) = unat x + l" if "no_wrap x n" "l < unat n" for x :: u32 and l
    using that unat_u32_less [of n] by (simp add: no_wrap_def unat_word_ariths unat_of_nat_u32)
  have "unat a + i = unat b + j" using arg_cong [OF eq, of unat] u assms by simp
  moreover have "unat a + i \<in> span a n" "unat b + j \<in> span b n" using assms(4,5) by (simp_all add: span_def)
  ultimately show False using assms(3) by auto
qed

lemma mem_copy_bytes:
  assumes "no_wrap dst n" and "no_wrap src n" and "span src n \<inter> span dst n = {}"
  shows "mem_bytes (mem_copy dst src n m) dst n = mem_bytes m src n"
    and "mem_bytes (mem_copy dst src n m) src n = mem_bytes m src n"
  using mem_copy_prefix [of n src dst "unat n" m] span_disjoint_offsets [OF assms(2,1,3)]
  by (auto simp: mem_bytes_def mem_copy_def)

text \<open>Two regions of the table that are linked to each other.\<close>

definition redundant_pair :: "protected_region \<Rightarrow> protected_region \<Rightarrow> bool" where
  "redundant_pair p q \<longleftrightarrow> is_redundant p \<and> is_redundant q \<and>
     redundant_addr p = start_addr q \<and> redundant_addr q = start_addr p \<and> rsize q = rsize p \<and>
     start_addr p \<noteq> 0 \<and> start_addr q \<noteq> 0"

definition region_span :: "protected_region \<Rightarrow> nat set" where
  "region_span r = span (start_addr r) (rsize r)"

definition region_bytes :: "memory \<Rightarrow> protected_region \<Rightarrow> bytes" where
  "region_bytes m r = mem_bytes m (start_addr r) (rsize r)"

lemma disjoint_members:
  "disjoint_regions rs \<Longrightarrow> q \<in> set rs \<Longrightarrow> r \<in> set rs \<Longrightarrow> q \<noteq> r \<Longrightarrow> region_span q \<inter> region_span r = {}"
  by (induction rs) (auto simp: disjoint_regions_def region_span_def)

lemma table_sound_disjoint:
  "table_sound s \<Longrightarrow> q \<in> set (regions s) \<Longrightarrow> r \<in> set (regions s) \<Longrightarrow> q \<noteq> r \<Longrightarrow> region_span q \<inter> region_span r = {}"
  by (rule disjoint_members) (simp_all add: table_sound_def table_inv_def)

lemma table_sound_no_wrap: "table_sound s \<Longrightarrow> r \<in> set (regions s) \<Longrightarrow> no_wrap (start_addr r) (rsize r)"
  by (simp add: table_sound_def table_inv_def)

text \<open>A copy changes nothing outside its target.\<close>

lemma unat_offset: "no_wrap a n \<Longrightarrow> i < unat n \<Longrightarrow> unat (a + word_of_nat i) = unat a + i"
  using unat_u32_less [of n] by (simp add: no_wrap_def unat_word_ariths unat_of_nat_u32)

lemma copy_bytes_outside: "\<forall>i < k. x \<noteq> dst + word_of_nat i \<Longrightarrow> copy_bytes dst src k m x = m x"
  by (induction k) simp_all

lemma mem_copy_outside: "no_wrap dst n \<Longrightarrow> unat x \<notin> span dst n \<Longrightarrow> mem_copy dst src n m x = m x"
  unfolding mem_copy_def by (rule copy_bytes_outside) (auto simp: unat_offset span_def)

lemma region_bytes_cong:
  assumes "no_wrap (start_addr r) (rsize r)" and "\<And>x. unat x \<in> region_span r \<Longrightarrow> m' x = m x"
  shows "region_bytes m' r = region_bytes m r"
  using assms by (auto simp: region_bytes_def mem_bytes_def region_span_def span_def unat_offset)

text \<open>What one check may do to the memory: nothing, or write the region or its mirror.\<close>

lemma check_region_mem:
  "mem (check_region verify r s) \<in> {mem s} \<union>
    (if is_redundant r then {mem_copy (redundant_addr r) (start_addr r) (rsize r) (mem s),
       mem_copy (start_addr r) (redundant_addr r) (rsize r) (mem s)} else {})"
  by (simp add: check_region_def handle_memory_violation_def Let_def)

lemma check_other_region:
  assumes "table_sound s" and "r \<in> set (regions s)" and "p \<in> set (regions s)" and "q \<in> set (regions s)"
    and "redundant_pair p q" and "r \<noteq> p" "r \<noteq> q" and "regions u = regions s"
  shows "region_bytes (mem (check_region verify r u)) p = region_bytes (mem u) p"
proof (cases "is_redundant r")
  case False
  then show ?thesis using check_region_mem [of verify r u] by simp
next
  case True
  then obtain t where t: "t \<in> set (regions s)" "start_addr t = redundant_addr r" "redundant_addr t = start_addr r"
      "rsize t = rsize r"
    using assms(1,2) by (auto simp: table_sound_def mirrored_def)
  note disj = table_sound_disjoint [OF assms(1)]
  have r: "region_span r \<inter> region_span p = {}" "region_span r \<inter> region_span q = {}"
    using disj assms(2-4,6,7) by blast+
  have "region_span t \<inter> region_span p = {}"
  proof (cases "t = p")
    case True
    then have "start_addr r = start_addr q" "rsize r = rsize q" using t assms(5) by (simp_all add: redundant_pair_def)
    then have "region_span r = {}" using r(2) by (simp add: region_span_def)
    then show ?thesis using t(4) True by (simp add: region_span_def span_def)
  next
    case False
    then show ?thesis by (rule disj [OF t(1) assms(3)])
  qed
  then have t_span: "span (redundant_addr r) (rsize r) \<inter> region_span p = {}" using t by (simp add: region_span_def)
  have wrap: "no_wrap (start_addr r) (rsize r)" "no_wrap (redundant_addr r) (rsize r)"
    using table_sound_no_wrap [OF assms(1,2)] table_sound_no_wrap [OF assms(1) t(1)] t(2,4) by simp_all
  have "mem (check_region verify r u) x = mem u x" if "unat x \<in> region_span p" for x
  proof -
    have "unat x \<notin> span (start_addr r) (rsize r)" "unat x \<notin> span (redundant_addr r) (rsize r)"
      using that t_span r(1) unfolding region_span_def by blast+
    then show ?thesis using check_region_mem [of verify r u] mem_copy_outside wrap by (auto split: if_splits)
  qed
  then show ?thesis by (rule region_bytes_cong [OF table_sound_no_wrap [OF assms(1,3)]])
qed

lemma redundant_pair_commute: "redundant_pair p q \<Longrightarrow> redundant_pair q p"
  by (simp add: redundant_pair_def)

text \<open>The check of the intact copy, and the check of the other one, damaged or repaired.\<close>

lemma check_good:
  assumes "redundant_pair p q" and "verify (mem u) (start_addr p) (rsize p) (rcrc p)"
    and "no_wrap (start_addr p) (rsize p)" and "no_wrap (start_addr q) (rsize q)"
    and "region_span p \<inter> region_span q = {}"
  shows "region_bytes (mem (check_region verify p u)) p = region_bytes (mem u) p \<and>
    region_bytes (mem (check_region verify p u)) q = region_bytes (mem u) p"
proof (cases "region_bytes (mem u) p = region_bytes (mem u) q")
  case True
  then show ?thesis
    using assms(1,2) by (simp add: check_region_def verify_redundant_memory_def region_bytes_def redundant_pair_def)
next
  case False
  have f: "no_wrap (start_addr q) (rsize p)" "span (start_addr p) (rsize p) \<inter> span (start_addr q) (rsize p) = {}"
    using assms(1,4,5) by (simp_all add: redundant_pair_def region_span_def)
  show ?thesis
    using False assms(1,2) mem_copy_bytes [OF f(1) assms(3) f(2)]
    by (simp add: check_region_def verify_redundant_memory_def region_bytes_def handle_memory_violation_def
        redundant_pair_def)
qed

lemma check_bad:
  assumes "redundant_pair p q"
    and "\<not> verify (mem u) (start_addr q) (rsize q) (rcrc q) \<or> region_bytes (mem u) q = region_bytes (mem u) p"
  shows "mem (check_region verify q u) = mem u"
  using assms by (auto simp: check_region_def verify_redundant_memory_def region_bytes_def handle_memory_violation_def
      redundant_pair_def)

lemma pass_repairs:
  assumes "\<And>m a n c. verify m a n c \<longleftrightarrow> crc (mem_bytes m a n) = c"
    and "table_sound s" and "good \<in> set (regions s)" and "bad \<in> set (regions s)" and "redundant_pair good bad"
    and "crc g = rcrc good" and "crc b \<noteq> rcrc bad" and "good \<noteq> bad" and "set rs \<subseteq> set (regions s)"
    and "regions u = regions s" and "region_bytes (mem u) good = g" and "region_bytes (mem u) bad \<in> {b, g}"
  shows "region_bytes (mem (fold (check_region verify) rs u)) good = g \<and>
    region_bytes (mem (fold (check_region verify) rs u)) bad \<in> {b, g} \<and>
    (good \<in> set rs \<or> region_bytes (mem u) bad = g \<longrightarrow>
      region_bytes (mem (fold (check_region verify) rs u)) bad = g)"
  using assms(9-12)
proof (induction rs arbitrary: u)
  case (Cons r rs)
  let ?u = "check_region verify r u"
  have wrap: "no_wrap (start_addr good) (rsize good)" "no_wrap (start_addr bad) (rsize bad)"
    using table_sound_no_wrap [OF assms(2)] assms(3,4) by blast+
  have disj: "region_span good \<inter> region_span bad = {}" by (rule table_sound_disjoint [OF assms(2,3,4,8)])
  have v: "verify m (start_addr x) (rsize x) c \<longleftrightarrow> crc (region_bytes m x) = c" for m x c
    using assms(1) by (simp add: region_bytes_def)
  have step: "region_bytes (mem ?u) good = g \<and> region_bytes (mem ?u) bad \<in> {b, g} \<and>
      (r = good \<or> region_bytes (mem u) bad = g \<longrightarrow> region_bytes (mem ?u) bad = g)"
  proof -
    consider "r = good" | "r = bad" | "r \<noteq> good" "r \<noteq> bad" by blast
    then show ?thesis
    proof cases
      case 1
      then show ?thesis using check_good [of good bad verify u, OF assms(5) _ wrap disj] Cons.prems(3) assms(6) v by simp
    next
      case 2
      have "\<not> verify (mem u) (start_addr bad) (rsize bad) (rcrc bad) \<or>
          region_bytes (mem u) bad = region_bytes (mem u) good"
        using Cons.prems(3,4) assms(7) v by auto
      then show ?thesis using check_bad [OF assms(5)] 2 Cons.prems(3,4) assms(8) by simp
    next
      case 3
      have r: "r \<in> set (regions s)" using Cons.prems(1) by simp
      show ?thesis
        using check_other_region [OF assms(2) r assms(3,4,5) 3 Cons.prems(2), of verify]
          check_other_region [OF assms(2) r assms(4,3) redundant_pair_commute [OF assms(5)] 3(2,1) Cons.prems(2), of verify]
          3 Cons.prems(3,4) by simp
    qed
  qed
  have "regions ?u = regions s" using Cons.prems(2) by (simp add: regions_check_region)
  from Cons.IH [OF _ this] step Cons.prems(1) show ?case by auto
qed simp

text \<open>C11: One pass of the periodic check repairs any damaged copy. After any history of
  registrations of regions that end within the address space, of writes of the program and of
  earlier checks, take two linked regions of the table of which one, \<open>good\<close>, still has the checksum
  of its registration and the other, \<open>bad\<close>, does not have its own, at whatever places of the table
  and whatever other regions and redundant pairs there are. After the pass both have the content of
  the intact one. The check of one region is taken to compare the CRC of its bytes.\<close>

theorem damaged_copy_is_repaired:
  assumes "\<And>m a n c. verify m a n c \<longleftrightarrow> crc (mem_bytes m a n) = c"
    and "regions s0 = []" and "list_all event_fits es" and "s = foldl (mem_step crc verify) s0 es"
    and "good \<in> set (regions s)" and "bad \<in> set (regions s)" and "redundant_pair good bad"
    and "crc (region_bytes (mem s) good) = rcrc good" and "crc (region_bytes (mem s) bad) \<noteq> rcrc bad"
  shows "region_bytes (mem (periodic_memory_check verify s)) good = region_bytes (mem s) good \<and>
    region_bytes (mem (periodic_memory_check verify s)) bad = region_bytes (mem s) good"
proof -
  have sound: "table_sound s" unfolding assms(4) by (rule table_sound_run [OF assms(2,3)])
  have "good \<noteq> bad" using assms(8,9) by auto
  from pass_repairs [OF assms(1) sound assms(5,6,7,8,9) this, of "regions s" s] assms(5)
  show ?thesis by (simp add: periodic_memory_check_def)
qed

text \<open>Two pairs of regions of one byte; the first copy of the first pair is overwritten.\<close>

definition pair_region :: "u32 \<Rightarrow> u32 \<Rightarrow> protected_region" where
  "pair_region a b = \<lparr>start_addr = a, rsize = 1, rflags = 3, rcrc = 0, is_redundant = True, redundant_addr = b\<rparr>"

definition first_byte :: crc_fn where "first_byte b = ucast (hd (b @ [0]))"

theorem damaged_copy_is_repaired_witness:
  "region_bytes (mem (periodic_memory_check (\<lambda>m a n c. first_byte (mem_bytes m a n) = c)
     (foldl (mem_step first_byte (\<lambda>m a n c. first_byte (mem_bytes m a n) = c)) empty_table
       [Register (Redundant 0x1000 0x2000 1), Register (Redundant 0x4000 0x5000 1),
        Write (\<lambda>m. m(0x1000 := 7))]))) (pair_region 0x1000 0x2000) = [0]"
proof -
  let ?v = "\<lambda>m a n c. first_byte (mem_bytes m a n) = c"
  let ?es = "[Register (Redundant 0x1000 0x2000 1), Register (Redundant 0x4000 0x5000 1), Write (\<lambda>m. m(0x1000 := 7))]"
  define s where "s = foldl (mem_step first_byte ?v) empty_table ?es"
  have regions: "regions s = [pair_region 0x1000 0x2000, pair_region 0x2000 0x1000,
      pair_region 0x4000 0x5000, pair_region 0x5000 0x4000]" and mem: "mem s = (\<lambda>_. 0)(0x1000 := 7)"
    by (simp_all add: s_def mem_step_def table_step_def empty_table_def setup_redundant_memory_def
        protect_memory_region_def is_aligned_def PAGE_SIZE_def MAX_PROTECTED_REGIONS_def regions_overlap_def
        link_pair_def pair_region_def first_byte_def mem_bytes_def PROT_READ_def PROT_WRITE_def)
  have bytes: "region_bytes (mem s) (pair_region 0x2000 0x1000) = [0]"
      "region_bytes (mem s) (pair_region 0x1000 0x2000) = [7]"
    by (simp_all add: mem region_bytes_def pair_region_def mem_bytes_def)
  have "region_bytes (mem (periodic_memory_check ?v s)) (pair_region 0x2000 0x1000) =
      region_bytes (mem s) (pair_region 0x2000 0x1000) \<and>
    region_bytes (mem (periodic_memory_check ?v s)) (pair_region 0x1000 0x2000) =
      region_bytes (mem s) (pair_region 0x2000 0x1000)"
  proof (rule damaged_copy_is_repaired [where crc = first_byte and es = ?es, OF refl _ _ s_def])
    show "regions empty_table = []" by (simp add: empty_table_def)
    show "list_all event_fits ?es" by (simp add: event_fits_def op_fits_def no_wrap_def)
    show "redundant_pair (pair_region 0x2000 0x1000) (pair_region 0x1000 0x2000)"
      by (simp add: redundant_pair_def pair_region_def)
    show "first_byte (region_bytes (mem s) (pair_region 0x2000 0x1000)) = rcrc (pair_region 0x2000 0x1000)"
      "first_byte (region_bytes (mem s) (pair_region 0x1000 0x2000)) \<noteq> rcrc (pair_region 0x1000 0x2000)"
      unfolding bytes by (simp_all add: first_byte_def pair_region_def)
  qed (simp_all add: regions)
  then show ?thesis unfolding bytes unfolding s_def by (rule conjunct2)
qed

end
