(* ===== verification/Runtime_Stats.thy ===== *)
theory Runtime_Stats
  imports Prelude
begin

text \<open>
  The execution-time statistics of \<^verbatim>\<open>common/safety/runtime_stats.c\<close>. A C string is the list of
  its characters before the terminator; the live part of the table is a list. \<open>now\<close> is what
  \<^verbatim>\<open>k_uptime_get\<close> returns. The mutexes make each routine atomic; the log output is left out.
\<close>

section \<open>State\<close>

definition MAX_TASKS :: nat where "MAX_TASKS = 32"
definition HISTORY_SIZE :: nat where "HISTORY_SIZE = 10"
definition MOVING_AVG_WINDOW :: nat where "MOVING_AVG_WINDOW = 5"
definition NAME_SIZE :: nat where "NAME_SIZE = 32"

lemmas size_defs = MAX_TASKS_def HISTORY_SIZE_def MOVING_AVG_WINDOW_def NAME_SIZE_def

record runtime_stats =
  start_time :: u64
  total_runtime :: u64
  execution_count :: u32
  max_execution_time :: u32
  min_execution_time :: u32
  avg_execution_time :: u32
  deadline_misses :: u32

definition zero_stats :: runtime_stats where
  "zero_stats = \<lparr>start_time = 0, total_runtime = 0, execution_count = 0, max_execution_time = 0,
     min_execution_time = 0, avg_execution_time = 0, deadline_misses = 0\<rparr>"

record task_runtime_data =
  tname :: string
  current :: runtime_stats
  history :: "runtime_stats list"
  execution_times :: "u32 list"
  history_index :: nat
  moving_avg_index :: nat
  is_active :: bool

definition zero_entry :: task_runtime_data where
  "zero_entry = \<lparr>tname = [], current = zero_stats, history = replicate HISTORY_SIZE zero_stats,
     execution_times = replicate MOVING_AVG_WINDOW 0, history_index = 0, moving_avg_index = 0,
     is_active = False\<rparr>"

definition runtime_stats_init :: "task_runtime_data list" where
  "runtime_stats_init = []"

section \<open>Operations\<close>

text \<open>\<open>strncpy\<close> into the zeroed name array keeps at most 31 characters.\<close>

definition new_entry :: "string \<Rightarrow> task_runtime_data" where
  "new_entry task_name = zero_entry\<lparr>tname := take (NAME_SIZE - 1) task_name, is_active := True\<rparr>"

fun find_index :: "string \<Rightarrow> task_runtime_data list \<Rightarrow> nat option" where
  "find_index task_name [] = None"
| "find_index task_name (t # ts) =
     (if tname t = task_name then Some 0 else map_option Suc (find_index task_name ts))"

text \<open>The result is the index of the entry, or \<open>None\<close> for the null pointer, and the table.\<close>

definition find_or_create_task ::
  "string \<Rightarrow> task_runtime_data list \<Rightarrow> nat option \<times> task_runtime_data list" where
  "find_or_create_task task_name ts =
     (case find_index task_name ts of
        Some i \<Rightarrow> (Some i, ts)
      | None \<Rightarrow> if length ts < MAX_TASKS then (Some (length ts), ts @ [new_entry task_name]) else (None, ts))"

definition start_entry :: "u64 \<Rightarrow> task_runtime_data \<Rightarrow> task_runtime_data" where
  "start_entry now t = t\<lparr>current := (current t)\<lparr>start_time := now,
     execution_count := execution_count (current t) + 1\<rparr>\<rparr>"

definition runtime_stats_start_task :: "u64 \<Rightarrow> string \<Rightarrow> task_runtime_data list \<Rightarrow> task_runtime_data list" where
  "runtime_stats_start_task now task_name ts =
     (case find_or_create_task task_name ts of
        (None, ts') \<Rightarrow> ts'
      | (Some i, ts') \<Rightarrow> ts'[i := start_entry now (ts' ! i)])"

definition update_moving_average :: "u32 \<Rightarrow> task_runtime_data \<Rightarrow> task_runtime_data" where
  "update_moving_average duration t =
     (let times = (execution_times t)[moving_avg_index t := duration];
          total = foldl (\<lambda>s d. s + ucast d) (0 :: u64) times
      in t\<lparr>execution_times := times,
           moving_avg_index := (moving_avg_index t + 1) mod MOVING_AVG_WINDOW,
           current := (current t)\<lparr>avg_execution_time := ucast (total div word_of_nat MOVING_AVG_WINDOW)\<rparr>\<rparr>)"

definition duration :: "u64 \<Rightarrow> u64 \<Rightarrow> u32" where
  "duration begin_time end_time =
     (if begin_time \<le> end_time then ucast (end_time - begin_time)
      else ucast ((0xFFFFFFFFFFFFFFFF - begin_time) + end_time))"

definition update_stats :: "u32 \<Rightarrow> runtime_stats \<Rightarrow> runtime_stats" where
  "update_stats d c = c\<lparr>
     total_runtime := (if total_runtime c + ucast d \<le> 0xFFFFFFFF then total_runtime c + ucast d else 0xFFFFFFFF),
     max_execution_time := (if max_execution_time c < d then d else max_execution_time c),
     min_execution_time := (if d < min_execution_time c \<or> min_execution_time c = 0 then d else min_execution_time c)\<rparr>"

definition store_history :: "task_runtime_data \<Rightarrow> task_runtime_data" where
  "store_history t =
     (if execution_count (current t) mod 100 = 0 \<and> 0 < execution_count (current t) then
        (let i = (history_index t + 1) mod HISTORY_SIZE in
         t\<lparr>history_index := i, history := (history t)[i := current t]\<rparr>)
      else t)"

definition end_entry :: "u64 \<Rightarrow> task_runtime_data \<Rightarrow> task_runtime_data" where
  "end_entry now t =
     (let d = duration (start_time (current t)) now;
          t1 = t\<lparr>current := update_stats d (current t)\<rparr>;
          t2 = store_history (update_moving_average d t1)
      in t2\<lparr>current := (current t2)\<lparr>execution_count := execution_count (current t2) + 1\<rparr>\<rparr>)"

definition runtime_stats_end_task :: "u64 \<Rightarrow> string \<Rightarrow> task_runtime_data list \<Rightarrow> task_runtime_data list" where
  "runtime_stats_end_task now task_name ts =
     (case find_or_create_task task_name ts of
        (None, ts') \<Rightarrow> ts'
      | (Some i, ts') \<Rightarrow> ts'[i := end_entry now (ts' ! i)])"

text \<open>The caller's structure is left as it was when no entry has the name.\<close>

definition runtime_stats_get :: "string \<Rightarrow> task_runtime_data list \<Rightarrow> runtime_stats \<Rightarrow> runtime_stats" where
  "runtime_stats_get task_name ts stats =
     (case find_index task_name ts of None \<Rightarrow> stats | Some i \<Rightarrow> current (ts ! i))"

definition runtime_stats_verify_history :: "string \<Rightarrow> task_runtime_data list \<Rightarrow> bool" where
  "runtime_stats_verify_history task_name ts =
     (case find_index task_name ts of
        None \<Rightarrow> True
      | Some i \<Rightarrow> list_all (\<lambda>h. 0 < execution_count h \<longrightarrow> min_execution_time h \<le> max_execution_time h)
                   (history (ts ! i)))"

section \<open>Calls as events\<close>

datatype stats_call = Start u64 string | End u64 string

fun stats_step :: "task_runtime_data list \<Rightarrow> stats_call \<Rightarrow> task_runtime_data list" where
  "stats_step ts (Start now n) = runtime_stats_start_task now n ts"
| "stats_step ts (End now n) = runtime_stats_end_task now n ts"

section \<open>Invariant\<close>

text \<open>Every record, current or historical, has its minimum below its maximum.\<close>

definition entry_inv :: "task_runtime_data \<Rightarrow> bool" where
  "entry_inv t \<longleftrightarrow> min_execution_time (current t) \<le> max_execution_time (current t) \<and>
     (\<forall>h \<in> set (history t). min_execution_time h \<le> max_execution_time h) \<and>
     length (history t) = HISTORY_SIZE \<and> length (execution_times t) = MOVING_AVG_WINDOW \<and>
     history_index t < HISTORY_SIZE \<and> moving_avg_index t < MOVING_AVG_WINDOW \<and>
     total_runtime (current t) \<le> 0xFFFFFFFF"

definition stats_inv :: "task_runtime_data list \<Rightarrow> bool" where
  "stats_inv ts \<longleftrightarrow> length ts \<le> MAX_TASKS \<and> (\<forall>t \<in> set ts. entry_inv t \<and> length (tname t) < NAME_SIZE)"

lemma find_index_Some: "find_index n ts = Some i \<Longrightarrow> i < length ts \<and> tname (ts ! i) = n"
  by (induction ts arbitrary: i) (auto split: if_splits)

lemma find_index_None: "find_index n ts = None \<longleftrightarrow> (\<forall>t \<in> set ts. tname t \<noteq> n)"
  by (induction ts) auto

lemma new_entry_inv: "entry_inv (new_entry n) \<and> length (tname (new_entry n)) < NAME_SIZE"
  by (simp add: new_entry_def entry_inv_def zero_entry_def zero_stats_def size_defs)

lemma find_or_create_inv:
  assumes "stats_inv ts" and "find_or_create_task n ts = (r, ts')"
  shows "stats_inv ts' \<and> (\<forall>i. r = Some i \<longrightarrow> i < length ts')"
  using assms new_entry_inv find_index_Some
  by (fastforce simp: find_or_create_task_def stats_inv_def split: option.splits if_splits)

lemma start_entry_inv: "entry_inv t \<Longrightarrow> entry_inv (start_entry now t)"
  by (simp add: entry_inv_def start_entry_def)

lemma update_stats_inv:
  "min_execution_time c \<le> max_execution_time c \<Longrightarrow>
     min_execution_time (update_stats d c) \<le> max_execution_time (update_stats d c) \<and>
     total_runtime (update_stats d c) \<le> 0xFFFFFFFF"
  by (auto simp: update_stats_def)

lemma moving_average_inv: "entry_inv t \<Longrightarrow> entry_inv (update_moving_average d t)"
  by (simp add: entry_inv_def update_moving_average_def Let_def size_defs)

lemma store_history_inv: "entry_inv t \<Longrightarrow> entry_inv (store_history t)"
  by (auto simp: entry_inv_def store_history_def Let_def size_defs dest!: set_update_subset_insert [THEN subsetD])

lemma end_entry_inv: "entry_inv t \<Longrightarrow> entry_inv (end_entry now t)"
proof -
  assume t: "entry_inv t"
  let ?d = "duration (start_time (current t)) now"
  have "entry_inv (t\<lparr>current := update_stats ?d (current t)\<rparr>)"
    using t update_stats_inv [of "current t" ?d] by (simp add: entry_inv_def)
  then have "entry_inv (store_history (update_moving_average ?d (t\<lparr>current := update_stats ?d (current t)\<rparr>)))"
    by (intro store_history_inv moving_average_inv)
  then show ?thesis by (simp add: end_entry_def Let_def entry_inv_def)
qed

lemma names_kept [simp]: "tname (start_entry now t) = tname t" "tname (end_entry now t) = tname t"
  by (simp_all add: start_entry_def end_entry_def store_history_def update_moving_average_def Let_def)

lemma stats_step_inv:
  assumes "stats_inv ts"
  shows "stats_inv (stats_step ts e)"
proof -
  have upd: "stats_inv (ts'[i := f (ts' ! i)])"
    if "stats_inv ts'" "i < length ts'" "\<And>t. entry_inv t \<Longrightarrow> entry_inv (f t)" "\<And>t. tname (f t) = tname t"
    for ts' i and f :: "task_runtime_data \<Rightarrow> task_runtime_data"
    using that by (auto simp: stats_inv_def dest!: set_update_subset_insert [THEN subsetD])
  show ?thesis
    using find_or_create_inv [OF assms] upd start_entry_inv end_entry_inv
    by (cases e) (auto simp: runtime_stats_start_task_def runtime_stats_end_task_def split: prod.splits option.splits)
qed

interpretation stats: invariant_machine stats_step stats_inv
  by unfold_locales (rule stats_step_inv)

text \<open>The integrity check of the statistics cannot fail: after any sequence of starts and ends,
  with any names and times, the recorded history of every task passes it.\<close>

lemma history_check_never_fails:
  "runtime_stats_verify_history n (foldl stats_step runtime_stats_init es)"
proof -
  have "stats_inv runtime_stats_init" by (simp add: stats_inv_def runtime_stats_init_def)
  then have "stats_inv (foldl stats_step runtime_stats_init es)" by (rule stats.run_inv)
  then show ?thesis
    by (auto simp: runtime_stats_verify_history_def stats_inv_def entry_inv_def list_all_iff
        dest!: find_index_Some split: option.split)
qed

section \<open>The statistics of a task that is started and ended in turn\<close>

definition run_cycle :: "task_runtime_data \<Rightarrow> u64 \<times> u64 \<Rightarrow> task_runtime_data" where
  "run_cycle t p = end_entry (snd p) (start_entry (fst p) t)"

definition cycle_calls :: "string \<Rightarrow> (u64 \<times> u64) list \<Rightarrow> stats_call list" where
  "cycle_calls n ps = concat (map (\<lambda>(b, e). [Start b n, End e n]) ps)"

lemma cycles_one_entry:
  assumes "tname t = n"
  shows "foldl stats_step [t] (cycle_calls n ps) = [foldl run_cycle t ps]"
  using assms
proof (induction ps arbitrary: t)
  case Nil
  then show ?case by (simp add: cycle_calls_def)
next
  case (Cons p ps)
  have "tname (run_cycle t p) = n" using Cons.prems by (simp add: run_cycle_def)
  from Cons.IH [OF this] Cons.prems show ?case
    by (cases p) (simp add: cycle_calls_def runtime_stats_start_task_def runtime_stats_end_task_def
        find_or_create_task_def run_cycle_def)
qed

lemma cycles_from_empty:
  assumes "length n < NAME_SIZE" and "ps \<noteq> []"
  shows "foldl stats_step runtime_stats_init (cycle_calls n ps) = [foldl run_cycle (new_entry n) ps]"
proof -
  have n: "tname (new_entry n) = n" using assms(1) by (simp add: new_entry_def)
  obtain p qs where ps: "ps = p # qs" using assms(2) by (cases ps) auto
  have "foldl stats_step runtime_stats_init (cycle_calls n [p]) = [run_cycle (new_entry n) p]"
    using n by (cases p) (simp add: cycle_calls_def runtime_stats_start_task_def runtime_stats_end_task_def
        find_or_create_task_def run_cycle_def runtime_stats_init_def size_defs)
  moreover have "cycle_calls n ps = cycle_calls n [p] @ cycle_calls n qs"
    by (simp add: cycle_calls_def ps)
  moreover have "tname (run_cycle (new_entry n) p) = n" using n by (simp add: run_cycle_def)
  ultimately show ?thesis using cycles_one_entry by (simp add: ps)
qed

text \<open>The ring of the last five durations, read from its oldest element on.\<close>

lemma ring_write:
  "i < length xs \<Longrightarrow> rotate ((i + 1) mod length xs) (xs[i := d]) = tl (rotate i xs) @ [d]"
proof -
  assume i: "i < length xs"
  have "rotate ((i + 1) mod length xs) (xs[i := d]) = rotate (i + 1) (xs[i := d])"
    by (metis length_list_update rotate_conv_mod)
  also have "\<dots> = rotate1 (rotate i (xs[i := d]))" by simp
  also have "rotate i (xs[i := d]) = d # drop (Suc i) xs @ take i xs"
    using i by (simp add: rotate_drop_take drop_update_cancel flip: Cons_nth_drop_Suc)
  also have "rotate1 \<dots> = tl (rotate i xs) @ [d]"
    using i by (simp add: rotate_drop_take flip: Cons_nth_drop_Suc)
  finally show ?thesis .
qed

definition ring_inv :: "u32 list \<Rightarrow> task_runtime_data \<Rightarrow> bool" where
  "ring_inv ds t \<longleftrightarrow> length (execution_times t) = MOVING_AVG_WINDOW \<and> moving_avg_index t < MOVING_AVG_WINDOW \<and>
     rotate (moving_avg_index t) (execution_times t) = drop (length ds) (replicate MOVING_AVG_WINDOW 0 @ ds)"

lemma shift_window: "k < length xs \<Longrightarrow> tl (drop k xs) @ [d] = drop (Suc k) (xs @ [d])"
  by (simp add: drop_Suc tl_drop [symmetric] Suc_diff_le)

lemma ring_inv_update:
  assumes "ring_inv ds t"
  shows "ring_inv (ds @ [d]) (update_moving_average d t)"
proof -
  have "rotate ((moving_avg_index t + 1) mod MOVING_AVG_WINDOW) ((execution_times t)[moving_avg_index t := d]) =
      tl (drop (length ds) (replicate MOVING_AVG_WINDOW 0 @ ds)) @ [d]"
    using assms ring_write [of "moving_avg_index t" "execution_times t" d] by (simp add: ring_inv_def)
  also have "\<dots> = drop (Suc (length ds)) ((replicate MOVING_AVG_WINDOW 0 @ ds) @ [d])"
    by (rule shift_window) (simp add: size_defs)
  also have "\<dots> = drop (length (ds @ [d])) (replicate MOVING_AVG_WINDOW 0 @ ds @ [d])"
    by simp
  finally show ?thesis
    using assms by (simp add: ring_inv_def update_moving_average_def Let_def size_defs)
qed

lemma sum_small: "foldl (\<lambda>s d. s + ucast d) (a :: u64) xs = a + word_of_nat (sum_list (map unat (xs :: u32 list)))"
proof (induction xs arbitrary: a)
  case Nil
  then show ?case by simp
next
  case (Cons x xs)
  have "(ucast x :: u64) = word_of_nat (unat x)" by (simp add: unsigned_ucast_eq)
  then show ?case using Cons by (simp add: add.assoc)
qed

lemma sum_bound: "sum_list (map unat (xs :: u32 list)) \<le> length xs * 4294967295"
proof (induction xs)
  case (Cons x xs)
  moreover have "unat x \<le> 4294967295" using unat_u32_less [of x] by linarith
  ultimately show ?case by simp
qed simp

lemma unat_of_nat_u64: "n < 18446744073709551616 \<Longrightarrow> unat (word_of_nat n :: u64) = n"
  by (simp add: unat_of_nat_word)

lemma average_value:
  assumes "length (execution_times t) = MOVING_AVG_WINDOW" and "moving_avg_index t < MOVING_AVG_WINDOW"
  shows "unat (avg_execution_time (current (update_moving_average d t))) =
    sum_list (map unat (execution_times (update_moving_average d t))) div 5"
proof -
  let ?xs = "(execution_times t)[moving_avg_index t := d]"
  let ?n = "sum_list (map unat ?xs)"
  have n: "?n \<le> 5 * 4294967295" using sum_bound [of ?xs] assms(1) by (simp add: size_defs)
  have "unat ((word_of_nat ?n :: u64) div 5) = ?n div 5"
    using n by (simp add: unat_div_distrib unat_of_nat_u64)
  moreover have "unat (ucast x :: u32) = unat x" if "unat x < 4294967296" for x :: u64
    using that by (simp add: unsigned_ucast_eq take_bit_nat_eq_self)
  moreover have "?n div 5 < 4294967296" using n by linarith
  ultimately show ?thesis
    by (simp add: update_moving_average_def Let_def sum_small size_defs)
qed

text \<open>A minimum of 0 is taken for an unset one, so the recorded minimum is the least of the durations
  after the last one of 0 ms.\<close>

definition recorded_min :: "nat list \<Rightarrow> nat" where
  "recorded_min ds = (let live = takeWhile (\<lambda>d. 0 < d) (rev ds) in if live = [] then 0 else Min (set live))"

lemma recorded_min_snoc:
  "recorded_min (ds @ [d]) = (if d < recorded_min ds \<or> recorded_min ds = 0 then d else recorded_min ds)"
proof -
  define live where "live = takeWhile (\<lambda>d. 0 < d) (rev ds)"
  have snoc: "recorded_min (ds @ [d]) = (if d = 0 then 0 else Min (insert d (set live)))"
    by (simp add: recorded_min_def Let_def live_def)
  show ?thesis
  proof (cases "live = []")
    case True
    then show ?thesis unfolding snoc by (simp add: recorded_min_def Let_def flip: live_def)
  next
    case False
    define m where "m = Min (set live)"
    from False have "m \<in> set live" unfolding m_def by (intro Min_in) simp_all
    then have "0 < m" using set_takeWhileD unfolding live_def by fastforce
    moreover have "Min (insert d (set live)) = min d m" using False by (simp add: m_def)
    moreover have "recorded_min ds = m" using False by (simp add: recorded_min_def Let_def m_def flip: live_def)
    ultimately show ?thesis unfolding snoc by auto
  qed
qed

text \<open>What the entry of a task holds after cycles of the durations \<open>ds\<close>.\<close>

definition cycles_inv :: "u32 list \<Rightarrow> task_runtime_data \<Rightarrow> bool" where
  "cycles_inv ds t \<longleftrightarrow> ring_inv ds t \<and>
     unat (total_runtime (current t)) = min 4294967295 (sum_list (map unat ds)) \<and>
     unat (max_execution_time (current t)) = fold max (map unat ds) 0 \<and>
     unat (min_execution_time (current t)) = recorded_min (map unat ds) \<and>
     execution_count (current t) = 2 * word_of_nat (length ds) \<and>
     history t = replicate HISTORY_SIZE zero_stats \<and>
     (ds \<noteq> [] \<longrightarrow> unat (avg_execution_time (current t)) =
        sum_list (map unat (drop (length ds) (replicate MOVING_AVG_WINDOW 0 @ ds))) div 5)"

lemma odd_count: "(2 * w + 1 :: u32) mod 100 \<noteq> 0"
proof
  assume "(2 * w + 1) mod 100 = 0"
  then have "2 * w + 1 = 2 * (50 * ((2 * w + 1) div 100))"
    using div_mult_mod_eq [of "2 * w + 1" 100] by (simp add: mult.commute)
  then have "even (2 * w + 1)" by (rule dvdI)
  then show False by simp
qed

lemma sum_list_rotate: "sum_list (map f (rotate n xs)) = (sum_list (map f xs) :: nat)"
proof -
  let ?k = "n mod length xs"
  have "sum_list (map f xs) = sum_list (map f (take ?k xs @ drop ?k xs))" by (simp only: append_take_drop_id)
  then show ?thesis by (simp only: rotate_drop_take map_append sum_list_append add.commute)
qed

lemma saturating_add:
  assumes "unat (a :: u64) = min 4294967295 n"
  shows "unat (if a + ucast d \<le> 0xFFFFFFFF then a + ucast d else 0xFFFFFFFF) = min 4294967295 (n + unat (d :: u32))"
proof -
  have "unat d < 18446744073709551616" using unat_u32_less [of d] by linarith
  then have "unat (ucast d :: u64) = unat d"
    by (simp add: unsigned_ucast_eq take_bit_nat_eq_self)
  moreover have "unat a + unat d < 18446744073709551616" using assms unat_u32_less [of d] by linarith
  ultimately have "unat (a + ucast d) = unat a + unat d" by (simp add: unat_word_ariths)
  then show ?thesis using assms by (auto simp: word_le_nat_alt)
qed

lemma run_cycle_inv:
  assumes "cycles_inv ds t"
  shows "cycles_inv (ds @ [duration (fst p) (snd p)]) (run_cycle t p)"
proof -
  let ?d = "duration (fst p) (snd p)"
  let ?t1 = "start_entry (fst p) t"
  let ?t2 = "update_moving_average ?d (?t1\<lparr>current := update_stats ?d (current ?t1)\<rparr>)"
  have ring: "ring_inv ds (?t1\<lparr>current := update_stats ?d (current ?t1)\<rparr>)"
    using assms by (simp add: cycles_inv_def ring_inv_def start_entry_def)
  then have ring2: "ring_inv (ds @ [?d]) ?t2" by (rule ring_inv_update)
  have cnt: "execution_count (current ?t2) = 2 * word_of_nat (length ds) + 1"
    using assms by (simp add: cycles_inv_def update_moving_average_def Let_def update_stats_def start_entry_def)
  have "store_history ?t2 = ?t2" using odd_count by (simp add: store_history_def cnt)
  then have eq: "run_cycle t p = ?t2\<lparr>current := (current ?t2)\<lparr>execution_count := execution_count (current ?t2) + 1\<rparr>\<rparr>"
    by (simp add: run_cycle_def end_entry_def Let_def start_entry_def)
  have avg: "unat (avg_execution_time (current ?t2)) =
      sum_list (map unat (drop (length (ds @ [?d])) (replicate MOVING_AVG_WINDOW 0 @ ds @ [?d]))) div 5"
  proof -
    have "unat (avg_execution_time (current ?t2)) = sum_list (map unat (execution_times ?t2)) div 5"
      using ring by (intro average_value) (simp_all add: ring_inv_def)
    also have "sum_list (map unat (execution_times ?t2)) =
        sum_list (map unat (rotate (moving_avg_index ?t2) (execution_times ?t2)))"
      by (simp only: sum_list_rotate)
    finally show ?thesis using ring2 by (simp add: ring_inv_def)
  qed
  have tot: "unat (total_runtime (current ?t2)) = min 4294967295 (sum_list (map unat (ds @ [?d])))"
    using saturating_add [of "total_runtime (current t)" "sum_list (map unat ds)" ?d] assms
    by (simp add: cycles_inv_def update_moving_average_def Let_def update_stats_def start_entry_def split: if_splits)
  have mx: "unat (max_execution_time (current ?t2)) = fold max (map unat (ds @ [?d])) 0"
    using assms by (auto simp: cycles_inv_def update_moving_average_def Let_def update_stats_def start_entry_def
        word_less_nat_alt max_def)
  have "unat (min_execution_time (current t)) = recorded_min (map unat ds)"
    using assms by (simp add: cycles_inv_def)
  then have mn: "unat (min_execution_time (current ?t2)) = recorded_min (map unat (ds @ [?d]))"
    by (auto simp: update_moving_average_def Let_def update_stats_def start_entry_def
        recorded_min_snoc word_less_nat_alt unat_eq_0 simp flip: unat_0_iff)
  have hist: "history ?t2 = replicate HISTORY_SIZE zero_stats"
    using assms by (simp add: cycles_inv_def update_moving_average_def Let_def start_entry_def)
  show ?thesis
    unfolding cycles_inv_def eq
    using ring2 avg tot mx mn hist cnt by (simp add: ring_inv_def)
qed

lemma run_cycles_inv:
  "cycles_inv ds t \<Longrightarrow> cycles_inv (ds @ map (\<lambda>p. duration (fst p) (snd p)) ps) (foldl run_cycle t ps)"
proof (induction ps arbitrary: ds t)
  case Nil
  then show ?case by simp
next
  case (Cons p ps)
  from Cons.IH [OF run_cycle_inv [OF Cons.prems, of p]] show ?case by simp
qed

lemma cycles_inv_new: "cycles_inv [] (new_entry n)"
  by (simp add: cycles_inv_def ring_inv_def recorded_min_def new_entry_def zero_entry_def zero_stats_def size_defs)

text \<open>C32: The statistics of a task that is started and ended in turn are those of the list of its
  durations: the total is their sum, held at \<open>2 ^ 32 - 1\<close>, the maximum is the largest, the
  minimum is the least of those after the last duration of 0 ms (0 if that is the last one of all, since
  the code takes a minimum of 0 for an unset one), the moving
  average is a fifth of the sum of the last five (zeros before the first). The counter advances by
  two per cycle and the history is never written, since it waits for a multiple of a hundred at a
  moment when the counter is odd.\<close>

theorem cycles_compute_statistics:
  assumes "length n < 32" and "ps \<noteq> []"
  shows "let ts = foldl stats_step runtime_stats_init (cycle_calls n ps);
             ds = map (\<lambda>p. unat (duration (fst p) (snd p))) ps;
             c = runtime_stats_get n ts zero_stats
    in unat (total_runtime c) = min 4294967295 (sum_list ds) \<and>
       unat (max_execution_time c) = fold max ds 0 \<and>
       unat (min_execution_time c) =
         (let live = takeWhile (\<lambda>d. 0 < d) (rev ds) in if live = [] then 0 else Min (set live)) \<and>
       unat (avg_execution_time c) = sum_list (drop (length ds) (replicate 5 0 @ ds)) div 5 \<and>
       execution_count c = 2 * word_of_nat (length ps) \<and>
       (\<forall>t \<in> set ts. history t = replicate 10 zero_stats)"
proof -
  let ?t = "foldl run_cycle (new_entry n) ps"
  let ?ds = "map (\<lambda>p. duration (fst p) (snd p)) ps"
  have ts: "foldl stats_step runtime_stats_init (cycle_calls n ps) = [?t]"
    using assms by (intro cycles_from_empty) (simp_all add: NAME_SIZE_def)
  have names: "tname (foldl run_cycle t qs) = tname t" for t qs
    by (induction qs arbitrary: t) (simp_all add: run_cycle_def)
  have "tname ?t = n" using assms(1) names by (simp add: new_entry_def NAME_SIZE_def)
  moreover have "cycles_inv ?ds ?t" using run_cycles_inv [where ps = ps, OF cycles_inv_new [of n]] by simp
  ultimately show ?thesis
    using assms(2)
    by (simp add: ts runtime_stats_get_def Let_def cycles_inv_def recorded_min_def size_defs drop_map comp_def)
qed

theorem cycles_compute_statistics_witness:
  "let c = runtime_stats_get ''brake'' (foldl stats_step runtime_stats_init
       (cycle_calls ''brake'' [(5, 8), (10, 10), (20, 29), (40, 44), (50, 57)])) zero_stats
   in unat (total_runtime c) = 23 \<and> unat (max_execution_time c) = 9 \<and> unat (min_execution_time c) = 4 \<and>
      unat (avg_execution_time c) = 4"
  using cycles_compute_statistics [of "''brake''" "[(5, 8), (10, 10), (20, 29), (40, 44), (50, 57)]"]
  by (simp add: Let_def duration_def)

section \<open>Names that do not fit\<close>

lemma long_name_never_found:
  assumes "NAME_SIZE \<le> length n" and "\<forall>t \<in> set ts. length (tname t) < NAME_SIZE"
  shows "find_index n ts = None"
  using assms by (auto simp: find_index_None)

fun call_name :: "stats_call \<Rightarrow> string" where
  "call_name (Start now n) = n"
| "call_name (End now n) = n"

lemma long_name_call:
  assumes "NAME_SIZE \<le> length (call_name e)" and "stats_inv ts"
  shows "if length ts < MAX_TASKS then \<exists>t. stats_step ts e = ts @ [t] \<and> tname t = take (NAME_SIZE - 1) (call_name e)
    else stats_step ts e = ts"
proof -
  have "find_index (call_name e) ts = None"
    using assms by (intro long_name_never_found) (auto simp: stats_inv_def)
  then show ?thesis
    by (cases e) (auto simp: runtime_stats_start_task_def runtime_stats_end_task_def find_or_create_task_def new_entry_def)
qed

text \<open>A task whose name has 32 or more characters is never found again: each call adds an entry
  under the shortened name until the table is full, nothing can be read back under the name, and
  after 32 calls the statistics take up no further task.\<close>

lemma long_names_exhaust_table:
  assumes "\<forall>e \<in> set es. call_name e = n" and "32 \<le> length n"
  shows "let ts = foldl stats_step runtime_stats_init es in
    length ts = min 32 (length es) \<and> (\<forall>t \<in> set ts. tname t = take 31 n) \<and>
    (\<forall>c. runtime_stats_get n ts c = c) \<and>
    (32 \<le> length es \<longrightarrow> (\<forall>m. m \<noteq> take 31 n \<longrightarrow> find_or_create_task m ts = (None, ts)))"
proof -
  let ?P = "\<lambda>es ts. length ts = min 32 (length es) \<and> (\<forall>t \<in> set ts. tname t = take 31 n) \<and> stats_inv ts"
  have "?P es (foldl stats_step runtime_stats_init es)"
    using assms(1)
  proof (induction es rule: rev_induct)
    case Nil
    then show ?case by (simp add: runtime_stats_init_def stats_inv_def)
  next
    case (snoc e es)
    let ?ts = "foldl stats_step runtime_stats_init es"
    have ts: "?P es ?ts" and e: "call_name e = n" using snoc by auto
    have "stats_inv (stats_step ?ts e)" using ts by (intro stats_step_inv) simp
    moreover have "if length ?ts < 32 then \<exists>t. stats_step ?ts e = ?ts @ [t] \<and> tname t = take 31 n
        else stats_step ?ts e = ?ts"
      using long_name_call [of e ?ts] ts e assms(2) by (simp add: size_defs split: if_splits)
    ultimately show ?case using ts by (auto split: if_splits)
  qed
  moreover from this have "find_index n (foldl stats_step runtime_stats_init es) = None"
    using assms(2) by (intro long_name_never_found) (simp_all add: size_defs)
  ultimately show ?thesis
    by (auto simp: Let_def runtime_stats_get_def find_or_create_task_def size_defs dest!: find_index_Some
        split: option.split)
qed

lemma long_names_exhaust_table_witness:
  "let ts = foldl stats_step runtime_stats_init (replicate 40 (End 9 (replicate 33 CHR ''x''))) in
    length ts = 32 \<and> find_or_create_task ''brake'' ts = (None, ts)"
proof -
  have ne: "''brake'' \<noteq> take 31 (replicate 33 CHR ''x'')" by (simp add: numeral_eq_Suc)
  show ?thesis
    using long_names_exhaust_table [of "replicate 40 (End 9 (replicate 33 CHR ''x''))" "replicate 33 CHR ''x''"] ne
    by (simp add: Let_def)
qed

end
