(* ===== verification/Asil.thy ===== *)
theory Asil
  imports Prelude
begin

text \<open>
  The safety kernel of \<^verbatim>\<open>common/safety/asil.c\<close> and \<^verbatim>\<open>asil.h\<close>: the monitor task, recovery with its
  back-off, the safe state, the checkpoint comparison and the event queue.

  The routines the file calls and nobody in the repository defines are answered by \<open>ext\<close> from a
  state of its own; they are listed in \<open>asil_call\<close>. Time passes in \<^verbatim>\<open>k_sleep\<close> only. A routine that
  enters the safe state never returns: its outcome is \<open>Halted\<close>, and the rest of its caller is not run.
\<close>

section \<open>Constants and state\<close>

definition MAX_CHECKPOINTS :: nat where "MAX_CHECKPOINTS = 16"
definition MAX_RECOVERY_ATTEMPTS :: u8 where "MAX_RECOVERY_ATTEMPTS = 3"
definition MAX_CRITICAL_TASK_TIME_MS :: u32 where "MAX_CRITICAL_TASK_TIME_MS = 50"
definition SAFETY_MONITOR_PERIOD_MS :: nat where "SAFETY_MONITOR_PERIOD_MS = 100"
definition RECOVERY_INITIAL_DELAY_MS :: u32 where "RECOVERY_INITIAL_DELAY_MS = 100"
definition RECOVERY_MAX_DELAY_MS :: u32 where "RECOVERY_MAX_DELAY_MS = 2000"
definition RECOVERY_BACKOFF_FACTOR :: u32 where "RECOVERY_BACKOFF_FACTOR = 2"
definition MAX_EVENT_LOG_SIZE :: nat where "MAX_EVENT_LOG_SIZE = 100"
definition ERROR_CONTROL_FLOW_VIOLATION :: u32 where "ERROR_CONTROL_FLOW_VIOLATION = 0x100"
definition ERROR_REDUNDANCY_MISMATCH :: u32 where "ERROR_REDUNDANCY_MISMATCH = 0x102"
definition ERROR_MEMORY_CORRUPTION :: u32 where "ERROR_MEMORY_CORRUPTION = 0x104"

lemmas asil_error_defs = ERROR_CONTROL_FLOW_VIOLATION_def ERROR_REDUNDANCY_MISMATCH_def
  ERROR_MEMORY_CORRUPTION_def

datatype safety_state = SAFETY_STATE_NORMAL | SAFETY_STATE_DEGRADED | SAFETY_STATE_RECOVERY
  | SAFETY_STATE_SAFE_STOP

datatype recovery_result = RECOVERY_RESULT_SUCCESS | RECOVERY_RESULT_RETRY
  | RECOVERY_RESULT_FAIL_SAFE | RECOVERY_RESULT_SYSTEM_RESET

text \<open>The states in the order of their C values: how far the node has left normal operation.\<close>

fun state_rank :: "safety_state \<Rightarrow> nat" where
  "state_rank SAFETY_STATE_NORMAL = 0"
| "state_rank SAFETY_STATE_DEGRADED = 1"
| "state_rank SAFETY_STATE_RECOVERY = 2"
| "state_rank SAFETY_STATE_SAFE_STOP = 3"

instantiation safety_state :: linorder
begin

definition less_eq_safety_state :: "safety_state \<Rightarrow> safety_state \<Rightarrow> bool" where
  "less_eq_safety_state a b \<longleftrightarrow> state_rank a \<le> state_rank b"

definition less_safety_state :: "safety_state \<Rightarrow> safety_state \<Rightarrow> bool" where
  "less_safety_state a b \<longleftrightarrow> state_rank a < state_rank b"

instance
proof
  fix a b :: safety_state
  show "a \<le> b \<Longrightarrow> b \<le> a \<Longrightarrow> a = b"
    by (cases a; cases b) (simp_all add: less_eq_safety_state_def)
qed (auto simp: less_eq_safety_state_def less_safety_state_def)

end

lemma safe_stop_top: "s \<le> SAFETY_STATE_SAFE_STOP"
  by (cases s) (simp_all add: less_eq_safety_state_def)

record safety_stats =
  control_flow_violations :: u32
  timing_violations :: u32
  memory_violations :: u32
  redundancy_mismatches :: u32
  successful_recoveries :: u32
  failed_recoveries :: u32

record safety_event =
  timestamp :: u32
  event :: string
  param :: u32

record 'x safety =
  current_state :: safety_state
  monitor_counter :: u32
  last_monitor_time :: u32
  control_flow_valid :: bool
  recovery_attempts :: u8
  stats :: safety_stats
  control_flow_checkpoints :: "u32 list"
  expected_sequence :: "u32 list"
  safety_event_queue :: "safety_event list"
  clock :: nat
  env :: 'x

datatype asil_call = Verify_Memory_Integrity | Verify_Redundant_Variables | Restore_Memory_Backup
  | Restore_Redundant_Variables | Handle_Timing_Violation | Disable_Critical_Outputs
  | Notify_Safe_State_Entry | Init_Redundant_Memory | Verify_Critical_Parameters

type_synonym 'x asil_env = "asil_call \<Rightarrow> 'x \<Rightarrow> bool \<times> 'x"

definition call_env :: "'x asil_env \<Rightarrow> asil_call \<Rightarrow> 'x safety \<Rightarrow> bool \<times> 'x safety" where
  "call_env ext c s = (let (b, x) = ext c (env s) in (b, s\<lparr>env := x\<rparr>))"

definition now :: "'x safety \<Rightarrow> u32" where
  "now s = word_of_nat (clock s)"

definition sleep :: "nat \<Rightarrow> 'x safety \<Rightarrow> 'x safety" where
  "sleep ms s = s\<lparr>clock := clock s + ms\<rparr>"

section \<open>Routines that may not return\<close>

datatype 'a outcome = Running 'a | Halted 'a

fun and_then :: "'a outcome \<Rightarrow> ('a \<Rightarrow> 'a outcome) \<Rightarrow> 'a outcome" where
  "and_then (Running s) k = k s"
| "and_then (Halted s) k = Halted s"

lemma and_then_Running: "and_then m k = Running t \<longleftrightarrow> (\<exists>s. m = Running s \<and> k s = Running t)"
  by (cases m) auto

section \<open>Events and the safe state\<close>

definition log_safety_event :: "string \<Rightarrow> u32 \<Rightarrow> 'x safety \<Rightarrow> 'x safety" where
  "log_safety_event e p s =
     (let evt = \<lparr>timestamp = now s, event = e, param = p\<rparr> in
      if length (safety_event_queue s) < MAX_EVENT_LOG_SIZE
      then s\<lparr>safety_event_queue := safety_event_queue s @ [evt]\<rparr>
      else s\<lparr>safety_event_queue := [evt]\<rparr>)"

definition process_safety_events :: "'x safety \<Rightarrow> 'x safety" where
  "process_safety_events s = s\<lparr>safety_event_queue := []\<rparr>"

definition enter_safe_state :: "'x asil_env \<Rightarrow> 'x safety \<Rightarrow> 'x safety outcome" where
  "enter_safe_state ext s =
     (let s1 = s\<lparr>current_state := SAFETY_STATE_SAFE_STOP\<rparr>;
          s2 = snd (call_env ext Disable_Critical_Outputs s1);
          s3 = snd (call_env ext Notify_Safe_State_Entry s2)
      in Halted (log_safety_event ''Entered safe state'' 0 s3))"

section \<open>Control flow\<close>

definition register_safety_checkpoint :: "u32 \<Rightarrow> u32 \<Rightarrow> 'x safety \<Rightarrow> bool \<times> 'x safety" where
  "register_safety_checkpoint checkpoint_id expected_value s =
     (if MAX_CHECKPOINTS \<le> length (expected_sequence s) then (False, s)
      else (True, s\<lparr>expected_sequence := expected_sequence s @ [expected_value]\<rparr>))"

interpretation checkpoint_table: bounded_table MAX_CHECKPOINTS expected_sequence
    "\<lambda>v s. snd (register_safety_checkpoint i v s)" for i
  by unfold_locales (auto simp: register_safety_checkpoint_def)

definition verify_control_flow :: "'x safety \<Rightarrow> bool" where
  "verify_control_flow s \<longleftrightarrow>
     list_all (\<lambda>i. control_flow_checkpoints s ! i = expected_sequence s ! i) [0..<length (expected_sequence s)]"

definition reset_safety_monitors :: "'x safety \<Rightarrow> 'x safety" where
  "reset_safety_monitors s = s\<lparr>control_flow_checkpoints := replicate MAX_CHECKPOINTS 0,
     monitor_counter := 0, control_flow_valid := True\<rparr>"

section \<open>Recovery\<close>

definition execute_recovery_action :: "'x asil_env \<Rightarrow> u32 \<Rightarrow> 'x safety \<Rightarrow> recovery_result \<times> 'x safety" where
  "execute_recovery_action ext error_type s =
     (if error_type = ERROR_CONTROL_FLOW_VIOLATION then
        (let s' = reset_safety_monitors s in
         (if verify_control_flow s' then RECOVERY_RESULT_SUCCESS else RECOVERY_RESULT_RETRY, s'))
      else if error_type = ERROR_MEMORY_CORRUPTION then
        (let (ok, s') = call_env ext Restore_Memory_Backup s in
         (if ok then RECOVERY_RESULT_SUCCESS else RECOVERY_RESULT_RETRY, s'))
      else if error_type = ERROR_REDUNDANCY_MISMATCH then
        (let (ok, s') = call_env ext Restore_Redundant_Variables s in
         (if ok then RECOVERY_RESULT_SUCCESS else RECOVERY_RESULT_SYSTEM_RESET, s'))
      else (RECOVERY_RESULT_FAIL_SAFE, s))"

primrec backoff :: "nat \<Rightarrow> u32" where
  "backoff 0 = RECOVERY_INITIAL_DELAY_MS"
| "backoff (Suc k) = backoff k * RECOVERY_BACKOFF_FACTOR"

definition recovery_delay :: "u8 \<Rightarrow> u32" where
  "recovery_delay attempts = min (backoff (unat attempts)) RECOVERY_MAX_DELAY_MS"

definition attempt_recovery :: "'x asil_env \<Rightarrow> u32 \<Rightarrow> 'x safety \<Rightarrow> recovery_result \<times> 'x safety" where
  "attempt_recovery ext error_type s =
     (if MAX_RECOVERY_ATTEMPTS \<le> recovery_attempts s then
        (RECOVERY_RESULT_FAIL_SAFE, s\<lparr>stats := (stats s)\<lparr>failed_recoveries := failed_recoveries (stats s) + 1\<rparr>\<rparr>)
      else
        (let s1 = sleep (unat (recovery_delay (recovery_attempts s))) (s\<lparr>current_state := SAFETY_STATE_RECOVERY\<rparr>);
             (result, s2) = execute_recovery_action ext error_type s1;
             s3 = s2\<lparr>recovery_attempts := recovery_attempts s2 + 1\<rparr>
         in (result,
             if result = RECOVERY_RESULT_SUCCESS then
               s3\<lparr>stats := (stats s3)\<lparr>successful_recoveries := successful_recoveries (stats s3) + 1\<rparr>,
                  recovery_attempts := 0, current_state := SAFETY_STATE_NORMAL\<rparr>
             else s3)))"

section \<open>The monitor task\<close>

definition recover_or_stop :: "'x asil_env \<Rightarrow> u32 \<Rightarrow> 'x safety \<Rightarrow> 'x safety outcome" where
  "recover_or_stop ext error_type s =
     (let (result, s') = attempt_recovery ext error_type s in
      if result \<noteq> RECOVERY_RESULT_SUCCESS then enter_safe_state ext s' else Running s')"

definition check_control_flow :: "'x asil_env \<Rightarrow> 'x safety \<Rightarrow> 'x safety outcome" where
  "check_control_flow ext s =
     (if \<not> verify_control_flow s then
        recover_or_stop ext ERROR_CONTROL_FLOW_VIOLATION
          (s\<lparr>stats := (stats s)\<lparr>control_flow_violations := control_flow_violations (stats s) + 1\<rparr>\<rparr>)
      else Running s)"

definition check_timing :: "'x asil_env \<Rightarrow> u32 \<Rightarrow> 'x safety \<Rightarrow> 'x safety" where
  "check_timing ext current_time s =
     (if MAX_CRITICAL_TASK_TIME_MS < current_time - last_monitor_time s then
        snd (call_env ext Handle_Timing_Violation
          (s\<lparr>stats := (stats s)\<lparr>timing_violations := timing_violations (stats s) + 1\<rparr>\<rparr>))
      else s)"

definition check_memory :: "'x asil_env \<Rightarrow> 'x safety \<Rightarrow> 'x safety outcome" where
  "check_memory ext s =
     (let (ok, s') = call_env ext Verify_Memory_Integrity s in
      if \<not> ok then
        recover_or_stop ext ERROR_MEMORY_CORRUPTION
          (s'\<lparr>stats := (stats s')\<lparr>memory_violations := memory_violations (stats s') + 1\<rparr>\<rparr>)
      else Running s')"

definition check_redundancy :: "'x asil_env \<Rightarrow> 'x safety \<Rightarrow> 'x safety outcome" where
  "check_redundancy ext s =
     (let (ok, s') = call_env ext Verify_Redundant_Variables s in
      if \<not> ok then
        recover_or_stop ext ERROR_REDUNDANCY_MISMATCH
          (s'\<lparr>stats := (stats s')\<lparr>redundancy_mismatches := redundancy_mismatches (stats s') + 1\<rparr>\<rparr>)
      else Running s')"

text \<open>One round of the loop of \<^verbatim>\<open>safety_monitor_task\<close>, and \<open>n\<close> rounds.\<close>

definition monitor_pass :: "'x asil_env \<Rightarrow> 'x safety \<Rightarrow> 'x safety outcome" where
  "monitor_pass ext s =
     and_then (check_control_flow ext (process_safety_events s)) (\<lambda>s1.
       let current_time = now s1 in
       and_then (check_memory ext (check_timing ext current_time s1)) (\<lambda>s2.
       and_then (check_redundancy ext s2) (\<lambda>s3.
         Running (sleep SAFETY_MONITOR_PERIOD_MS (s3\<lparr>last_monitor_time := current_time\<rparr>)))))"

primrec safety_monitor_task :: "'x asil_env \<Rightarrow> nat \<Rightarrow> 'x safety \<Rightarrow> 'x safety outcome" where
  "safety_monitor_task ext 0 s = Running s"
| "safety_monitor_task ext (Suc n) s = and_then (monitor_pass ext s) (safety_monitor_task ext n)"

definition zero_safety_stats :: safety_stats where
  "zero_safety_stats = \<lparr>control_flow_violations = 0, timing_violations = 0, memory_violations = 0,
     redundancy_mismatches = 0, successful_recoveries = 0, failed_recoveries = 0\<rparr>"

definition safety_init :: "'x asil_env \<Rightarrow> 'x safety \<Rightarrow> 'x safety" where
  "safety_init ext s =
     (let s1 = s\<lparr>current_state := SAFETY_STATE_NORMAL, monitor_counter := 0, last_monitor_time := 0,
                 control_flow_valid := False, recovery_attempts := 0, stats := zero_safety_stats\<rparr>;
          s2 = snd (call_env ext Init_Redundant_Memory s1)
      in snd (call_env ext Verify_Critical_Parameters s2))"

section \<open>What the environment may not change\<close>

lemma call_env_simps [simp]:
  "current_state (snd (call_env ext c s)) = current_state s"
  "recovery_attempts (snd (call_env ext c s)) = recovery_attempts s"
  "stats (snd (call_env ext c s)) = stats s"
  "control_flow_checkpoints (snd (call_env ext c s)) = control_flow_checkpoints s"
  "expected_sequence (snd (call_env ext c s)) = expected_sequence s"
  "clock (snd (call_env ext c s)) = clock s"
  "last_monitor_time (snd (call_env ext c s)) = last_monitor_time s"
  "safety_event_queue (snd (call_env ext c s)) = safety_event_queue s"
  "fst (call_env ext c s) = fst (ext c (env s))"
  by (simp_all add: call_env_def case_prod_beta)

lemma sleep_simps [simp]:
  "current_state (sleep n s) = current_state s" "recovery_attempts (sleep n s) = recovery_attempts s"
  "stats (sleep n s) = stats s" "control_flow_checkpoints (sleep n s) = control_flow_checkpoints s"
  "expected_sequence (sleep n s) = expected_sequence s" "clock (sleep n s) = clock s + n"
  "last_monitor_time (sleep n s) = last_monitor_time s" "env (sleep n s) = env s"
  by (simp_all add: sleep_def)

lemma log_safety_event_simps [simp]:
  "current_state (log_safety_event e p s) = current_state s" "stats (log_safety_event e p s) = stats s"
  "recovery_attempts (log_safety_event e p s) = recovery_attempts s" "clock (log_safety_event e p s) = clock s"
  by (simp_all add: log_safety_event_def Let_def)

lemma enter_safe_state_halts:
  "\<exists>t. enter_safe_state ext s = Halted t \<and> current_state t = SAFETY_STATE_SAFE_STOP \<and> stats t = stats s"
  by (simp add: enter_safe_state_def Let_def)

lemma enter_safe_state_not_running [simp]: "enter_safe_state ext s \<noteq> Running t"
  by (simp add: enter_safe_state_def Let_def)

lemma enter_safe_state_stops: "\<exists>t. enter_safe_state ext s = Halted t \<and> current_state t = SAFETY_STATE_SAFE_STOP"
  using enter_safe_state_halts by blast

section \<open>The event queue\<close>

lemma event_queue_bound:
  "length (safety_event_queue s) \<le> MAX_EVENT_LOG_SIZE \<Longrightarrow>
     length (safety_event_queue (log_safety_event e p s)) \<le> MAX_EVENT_LOG_SIZE \<and>
     safety_event_queue (log_safety_event e p s) \<noteq> [] \<and>
     last (safety_event_queue (log_safety_event e p s)) = \<lparr>timestamp = now s, event = e, param = p\<rparr>"
  by (simp add: log_safety_event_def Let_def MAX_EVENT_LOG_SIZE_def)

section \<open>Checkpoints\<close>

lemma verify_zero_checkpoints:
  assumes "control_flow_checkpoints s = replicate MAX_CHECKPOINTS 0"
    and "length (expected_sequence s) \<le> MAX_CHECKPOINTS"
  shows "verify_control_flow s \<longleftrightarrow> (\<forall>v \<in> set (expected_sequence s). v = 0)"
proof -
  have "verify_control_flow s \<longleftrightarrow> (\<forall>i < length (expected_sequence s). expected_sequence s ! i = 0)"
    using assms by (auto simp: verify_control_flow_def list_all_iff)
  then show ?thesis by (metis in_set_conv_nth)
qed

lemma control_flow_recovery_fails:
  assumes "v \<in> set (expected_sequence s)" and "v \<noteq> 0" and "length (expected_sequence s) \<le> MAX_CHECKPOINTS"
  shows "fst (attempt_recovery ext ERROR_CONTROL_FLOW_VIOLATION s) \<noteq> RECOVERY_RESULT_SUCCESS"
proof -
  have "\<not> verify_control_flow (reset_safety_monitors (sleep n (s\<lparr>current_state := SAFETY_STATE_RECOVERY\<rparr>)))" for n
    using assms by (subst verify_zero_checkpoints) (auto simp: reset_safety_monitors_def)
  then show ?thesis by (simp add: attempt_recovery_def execute_recovery_action_def Let_def)
qed

text \<open>No code path ever writes a checkpoint value, so a node that registers a single checkpoint
  with a nonzero expected value stops in the safe state during the first round of its monitor: the
  comparison fails, the one recovery compares against zeros again and fails, and the round ends in
  the safe state with one control-flow violation counted, whatever the environment answers.\<close>

lemma nonzero_checkpoint_stops_node:
  assumes "control_flow_checkpoints s = replicate MAX_CHECKPOINTS 0"
    and "length (expected_sequence s) \<le> MAX_CHECKPOINTS"
    and "v \<in> set (expected_sequence s)" and "v \<noteq> 0"
  shows "\<exists>t. safety_monitor_task ext (Suc n) s = Halted t \<and> current_state t = SAFETY_STATE_SAFE_STOP \<and>
    control_flow_violations (stats t) = control_flow_violations (stats s) + 1"
proof -
  let ?s = "process_safety_events s"
  let ?s1 = "?s\<lparr>stats := (stats ?s)\<lparr>control_flow_violations := control_flow_violations (stats ?s) + 1\<rparr>\<rparr>"
  let ?r = "attempt_recovery ext ERROR_CONTROL_FLOW_VIOLATION ?s1"
  have "\<not> verify_control_flow ?s"
    using assms by (subst verify_zero_checkpoints) (auto simp: process_safety_events_def)
  moreover have "fst ?r \<noteq> RECOVERY_RESULT_SUCCESS"
    using assms by (intro control_flow_recovery_fails) (auto simp: process_safety_events_def)
  moreover have "control_flow_violations (stats (snd ?r)) = control_flow_violations (stats s) + 1"
    by (simp add: attempt_recovery_def execute_recovery_action_def reset_safety_monitors_def Let_def
        process_safety_events_def asil_error_defs)
  ultimately show ?thesis
    using enter_safe_state_halts [of ext "snd ?r"]
    by (auto simp: monitor_pass_def check_control_flow_def recover_or_stop_def case_prod_beta)
qed

section \<open>Recovery in the monitor\<close>

lemma attempt_recovery_attempts:
  "fst (attempt_recovery ext e s) = RECOVERY_RESULT_SUCCESS \<Longrightarrow> recovery_attempts (snd (attempt_recovery ext e s)) = 0"
  by (auto simp: attempt_recovery_def Let_def case_prod_beta split: if_splits)

lemma attempt_recovery_first:
  assumes "recovery_attempts s = 0"
  shows "clock (snd (attempt_recovery ext e s)) = clock s + 100"
    and "failed_recoveries (stats (snd (attempt_recovery ext e s))) = failed_recoveries (stats s)"
  using assms
  by (simp_all add: attempt_recovery_def Let_def case_prod_beta execute_recovery_action_def recovery_delay_def
      reset_safety_monitors_def MAX_RECOVERY_ATTEMPTS_def RECOVERY_INITIAL_DELAY_MS_def RECOVERY_MAX_DELAY_MS_def)

lemma recover_running:
  assumes "recover_or_stop ext e s = Running t"
  shows "recovery_attempts t = 0"
  using assms attempt_recovery_attempts
  by (auto simp: recover_or_stop_def case_prod_beta split: if_splits)

lemma checks_keep_attempts:
  "check_control_flow ext s = Running t \<Longrightarrow> recovery_attempts s = 0 \<Longrightarrow> recovery_attempts t = 0"
  "check_memory ext s = Running t \<Longrightarrow> recovery_attempts s = 0 \<Longrightarrow> recovery_attempts t = 0"
  "check_redundancy ext s = Running t \<Longrightarrow> recovery_attempts s = 0 \<Longrightarrow> recovery_attempts t = 0"
  by (auto simp: check_control_flow_def check_memory_def check_redundancy_def case_prod_beta
      dest: recover_running split: if_splits)

lemma monitor_pass_attempts:
  assumes "recovery_attempts s = 0" and "monitor_pass ext s = Running t"
  shows "recovery_attempts t = 0"
proof -
  obtain s1 s2 s3 where run: "check_control_flow ext (process_safety_events s) = Running s1"
    "check_memory ext (check_timing ext (now s1) s1) = Running s2" "check_redundancy ext s2 = Running s3"
    and t: "t = sleep SAFETY_MONITOR_PERIOD_MS (s3\<lparr>last_monitor_time := now s1\<rparr>)"
    using assms(2) by (auto simp: monitor_pass_def and_then_Running Let_def)
  have "recovery_attempts (process_safety_events s) = 0"
    using assms(1) by (simp add: process_safety_events_def)
  then have "recovery_attempts s1 = 0" by (rule checks_keep_attempts(1) [OF run(1)])
  then have "recovery_attempts (check_timing ext (now s1) s1) = 0" by (simp add: check_timing_def)
  then have "recovery_attempts s2 = 0" by (rule checks_keep_attempts(2) [OF run(2)])
  then have "recovery_attempts s3 = 0" by (rule checks_keep_attempts(3) [OF run(3)])
  then show ?thesis by (simp add: t)
qed

text \<open>C39: The retries and the back-off of the recovery are never used by the monitor: in every state
  its loop reaches, the attempt counter is zero, so a recovery waits exactly the initial 100 ms and
  the counter of failed recoveries stays as it is; the first recovery that fails stops the node.\<close>

theorem backoff_never_used:
  assumes "recovery_attempts s = 0" and "safety_monitor_task ext n s = Running t"
  shows "recovery_attempts t = 0 \<and> clock (snd (attempt_recovery ext e t)) = clock t + 100 \<and>
    failed_recoveries (stats (snd (attempt_recovery ext e t))) = failed_recoveries (stats t) \<and>
    (fst (attempt_recovery ext e t) \<noteq> RECOVERY_RESULT_SUCCESS \<longrightarrow>
      (\<exists>u. recover_or_stop ext e t = Halted u \<and> current_state u = SAFETY_STATE_SAFE_STOP))"
proof -
  have "recovery_attempts t = 0"
    using assms
  proof (induction n arbitrary: s)
    case (Suc n)
    then show ?case using monitor_pass_attempts by (auto simp: and_then_Running)
  qed simp
  then show ?thesis
    using attempt_recovery_first [of t ext e] enter_safe_state_stops [of ext "snd (attempt_recovery ext e t)"]
    by (simp add: recover_or_stop_def case_prod_beta)
qed

section \<open>A healthy node\<close>

lemma healthy_pass:
  assumes "\<And>c x. fst (ext c x)" and "verify_control_flow s" and "now s - last_monitor_time s = 100"
  shows "\<exists>t. monitor_pass ext s = Running t \<and> verify_control_flow t \<and> now t - last_monitor_time t = 100 \<and>
    current_state t = current_state s \<and> clock t = clock s + 100 \<and>
    stats t = (stats s)\<lparr>timing_violations := timing_violations (stats s) + 1\<rparr>"
  using assms
  by (simp add: monitor_pass_def check_control_flow_def check_memory_def check_redundancy_def check_timing_def
      case_prod_beta process_safety_events_def Let_def verify_control_flow_def MAX_CRITICAL_TASK_TIME_MS_def
      SAFETY_MONITOR_PERIOD_MS_def now_def)

text \<open>On a healthy node, with every check of the environment passing and the checkpoints in
  order, the monitor keeps running in the state it is in, but it reports a timing violation in
  every single round: its own period of 100 ms is longer than the 50 ms it allows between rounds.\<close>

lemma healthy_node_reports_timing_every_round:
  assumes "\<And>c x. fst (ext c x)" and "verify_control_flow s" and "now s - last_monitor_time s = 100"
  shows "\<exists>t. safety_monitor_task ext n s = Running t \<and> current_state t = current_state s \<and>
    clock t = clock s + 100 * n \<and>
    stats t = (stats s)\<lparr>timing_violations := timing_violations (stats s) + word_of_nat n\<rparr>"
  using assms(2,3)
proof (induction n arbitrary: s)
  case 0
  then show ?case by simp
next
  case (Suc n)
  obtain u where u: "monitor_pass ext s = Running u" "verify_control_flow u" "now u - last_monitor_time u = 100"
    "current_state u = current_state s" "clock u = clock s + 100"
    "stats u = (stats s)\<lparr>timing_violations := timing_violations (stats s) + 1\<rparr>"
    using healthy_pass [where ext = ext, OF assms(1) Suc.prems] by blast
  from Suc.IH [OF u(2,3)] show ?case
    using u by (auto simp: add.assoc)
qed

section \<open>Instances\<close>

definition fresh_node :: "unit safety" where
  "fresh_node = \<lparr>current_state = SAFETY_STATE_NORMAL, monitor_counter = 0, last_monitor_time = 0,
     control_flow_valid = False, recovery_attempts = 0, stats = zero_safety_stats,
     control_flow_checkpoints = replicate MAX_CHECKPOINTS 0, expected_sequence = [],
     safety_event_queue = [], clock = 100, env = ()\<rparr>"

lemma nonzero_checkpoint_stops_node_witness:
  "\<exists>t. safety_monitor_task (\<lambda>_ x. (True, x)) 1 (snd (register_safety_checkpoint 7 42 fresh_node)) = Halted t \<and>
    current_state t = SAFETY_STATE_SAFE_STOP"
  using nonzero_checkpoint_stops_node [of "snd (register_safety_checkpoint 7 42 fresh_node)" 42 "\<lambda>_ x. (True, x)" 0]
  by (auto simp: register_safety_checkpoint_def fresh_node_def MAX_CHECKPOINTS_def)

theorem backoff_never_used_witness:
  "clock (snd (attempt_recovery (\<lambda>_ x. (True, x)) ERROR_MEMORY_CORRUPTION fresh_node)) = 200"
  using backoff_never_used [of fresh_node "\<lambda>_ x. (True, x)" 0 fresh_node ERROR_MEMORY_CORRUPTION]
  by (simp add: fresh_node_def)

lemma healthy_node_reports_timing_every_round_witness:
  "\<exists>t. safety_monitor_task (\<lambda>_ x. (True, x)) 10 fresh_node = Running t \<and> timing_violations (stats t) = 10"
proof -
  have "verify_control_flow fresh_node" "now fresh_node - last_monitor_time fresh_node = 100"
    by (simp_all add: fresh_node_def verify_control_flow_def now_def)
  from healthy_node_reports_timing_every_round [of "\<lambda>_ x. (True, x)", OF _ this, of 10] show ?thesis
    by (auto simp: fresh_node_def zero_safety_stats_def)
qed

end
