(* ===== verification/Control_Flow.thy ===== *)
theory Control_Flow
  imports Asil
begin

text \<open>
  The checkpoint log of \<^verbatim>\<open>common/safety/control_flow.c\<close> and its comparison with the one valid
  sequence. The log array has the 32 entries of \<^verbatim>\<open>control_flow.h\<close>; the valid sequence is a local
  array of five, and reading past it is a fault. Violations go to the event queue of the safety
  kernel; the message text without the number is enough to tell them apart.
\<close>

definition CF_MAX_CHECKPOINTS :: nat where "CF_MAX_CHECKPOINTS = 32"
definition CF_INIT_START :: u32 where "CF_INIT_START = 1"
definition CF_SENSOR_READ :: u32 where "CF_SENSOR_READ = 2"
definition CF_CAN_SEND :: u32 where "CF_CAN_SEND = 4"
definition CF_TASK_MONITOR :: u32 where "CF_TASK_MONITOR = 5"
definition CF_ERROR_CHECK :: u32 where "CF_ERROR_CHECK = 6"

lemmas cf_defs = CF_INIT_START_def CF_SENSOR_READ_def CF_CAN_SEND_def CF_TASK_MONITOR_def CF_ERROR_CHECK_def

record 'x control_flow =
  current_checkpoint :: u32
  checkpoint_sequence :: "u32 list"
  kernel :: "'x safety"

definition control_flow_init :: "'x control_flow \<Rightarrow> 'x control_flow" where
  "control_flow_init s = s\<lparr>checkpoint_sequence := [], current_checkpoint := CF_INIT_START\<rparr>"

definition checkpoint_reached :: "u32 \<Rightarrow> 'x control_flow \<Rightarrow> 'x control_flow" where
  "checkpoint_reached checkpoint_id s =
     (if length (checkpoint_sequence s) < CF_MAX_CHECKPOINTS then
        s\<lparr>checkpoint_sequence := checkpoint_sequence s @ [checkpoint_id], current_checkpoint := checkpoint_id\<rparr>
      else s)"

interpretation checkpoint_log: bounded_table CF_MAX_CHECKPOINTS checkpoint_sequence checkpoint_reached
  by unfold_locales (auto simp: checkpoint_reached_def)

definition valid_sequence :: "u32 list" where
  "valid_sequence = [CF_INIT_START, CF_SENSOR_READ, CF_CAN_SEND, CF_TASK_MONITOR, CF_ERROR_CHECK]"

definition log_control_flow_violation :: "'x control_flow \<Rightarrow> 'x control_flow" where
  "log_control_flow_violation s =
     s\<lparr>kernel := log_safety_event ''Control flow violation at'' (current_checkpoint s) (kernel s)\<rparr>"

text \<open>The loop of \<^verbatim>\<open>verify_control_flow_sequence\<close> from index \<open>i\<close> on.\<close>

fun verify_from :: "nat \<Rightarrow> u32 list \<Rightarrow> 'x control_flow \<Rightarrow> (bool \<times> 'x control_flow) res" where
  "verify_from i [] s = Inr (True, s)"
| "verify_from i (c # cs) s =
     res_bind (mem_get valid_sequence i) (\<lambda>v.
       if c \<noteq> v then Inr (False, log_control_flow_violation s) else verify_from (i + 1) cs s)"

definition verify_control_flow_sequence :: "'x control_flow \<Rightarrow> (bool \<times> 'x control_flow) res" where
  "verify_control_flow_sequence s = verify_from 0 (checkpoint_sequence s) s"

lemma verify_from_spec:
  "i \<le> 5 \<Longrightarrow> verify_from i cs s =
     (if cs = take (length cs) (drop i valid_sequence) then Inr (True, s)
      else if take (5 - i) cs = drop i valid_sequence then Inl Out_Of_Bounds
      else Inr (False, log_control_flow_violation s))"
proof (induction cs arbitrary: i)
  case Nil
  then show ?case by simp
next
  case (Cons c cs)
  have len: "length valid_sequence = 5" by (simp add: valid_sequence_def)
  show ?case
  proof (cases "i = 5")
    case True
    then show ?thesis using len by (simp add: mem_get_def)
  next
    case False
    then have i: "i < 5" using Cons.prems by simp
    then have d: "drop i valid_sequence = valid_sequence ! i # drop (i + 1) valid_sequence"
      using len by (simp add: Cons_nth_drop_Suc)
    have "5 - i = Suc (5 - (i + 1))" using i by simp
    then show ?thesis using Cons.IH [of "i + 1"] i len d by (simp add: mem_get_def)
  qed
qed

text \<open>The sequence check answers as it should only while at most five checkpoints are in the log.
  It accepts exactly the beginnings of the valid sequence, and rejects a log that leaves it at one
  of its five places; but a program that runs through the whole valid sequence and then reaches any
  further checkpoint makes the check read behind the array of valid values.\<close>

lemma sequence_check_outcome:
  "verify_control_flow_sequence (fold checkpoint_reached cs (control_flow_init s)) =
    (let log = take 32 cs; s' = fold checkpoint_reached cs (control_flow_init s) in
     if log = take (length log) valid_sequence then Inr (True, s')
     else if take 5 log = valid_sequence then Inl Out_Of_Bounds
     else Inr (False, log_control_flow_violation s'))"
proof -
  have "checkpoint_sequence (fold checkpoint_reached cs (control_flow_init s)) = take 32 cs"
    using checkpoint_log.fold_register [of "control_flow_init s" cs]
    by (simp add: control_flow_init_def CF_MAX_CHECKPOINTS_def)
  then show ?thesis by (simp add: verify_control_flow_sequence_def verify_from_spec Let_def)
qed

end
