(* ===== verification/Asil_Monitor.thy ===== *)
theory Asil_Monitor
  imports Asil
begin

text \<open>
  The safety goals of \<^verbatim>\<open>common/safety/asil_monitor.c\<close>. The verification and recovery functions of a
  goal are registered by the applications: they are numbers, the null pointer is \<open>None\<close>, and
  \<open>gext\<close> runs them on the state of the environment. A null verification function is called all the
  same, which is a fault.
\<close>

definition MAX_SAFETY_GOALS :: nat where "MAX_SAFETY_GOALS = 16"

record safety_goal =
  goal_id :: u32
  verify_func :: "nat option"
  recovery_func :: "nat option"
  timeout_ms :: u32
  last_verified :: u32

record 'x goal_state =
  safety_goals :: "safety_goal list"
  goal_kernel :: "'x safety"

type_synonym 'x goal_env = "nat \<Rightarrow> 'x \<Rightarrow> bool \<times> 'x"

definition call_goal :: "'x goal_env \<Rightarrow> nat \<Rightarrow> 'x goal_state \<Rightarrow> bool \<times> 'x goal_state" where
  "call_goal gext f s =
     (let (b, x) = gext f (env (goal_kernel s)) in (b, s\<lparr>goal_kernel := (goal_kernel s)\<lparr>env := x\<rparr>\<rparr>))"

definition register_safety_goal :: "safety_goal \<Rightarrow> 'x goal_state \<Rightarrow> 'x goal_state" where
  "register_safety_goal g s =
     (if length (safety_goals s) < MAX_SAFETY_GOALS then s\<lparr>safety_goals := safety_goals s @ [g]\<rparr> else s)"

interpretation goal_table: bounded_table MAX_SAFETY_GOALS safety_goals register_safety_goal
  by unfold_locales (auto simp: register_safety_goal_def)

text \<open>The first goal with the identifier that has a recovery function; else the safe state.\<close>

definition handle_goal_violation :: "'x asil_env \<Rightarrow> 'x goal_env \<Rightarrow> u32 \<Rightarrow> 'x goal_state \<Rightarrow> 'x goal_state outcome" where
  "handle_goal_violation aext gext gid s =
     (case find (\<lambda>g. goal_id g = gid \<and> recovery_func g \<noteq> None) (safety_goals s) of
        Some g \<Rightarrow> Running (snd (call_goal gext (the (recovery_func g)) s))
      | None \<Rightarrow> (case enter_safe_state aext (goal_kernel s) of
            Halted k \<Rightarrow> Halted (s\<lparr>goal_kernel := k\<rparr>)
          | Running k \<Rightarrow> Running (s\<lparr>goal_kernel := k\<rparr>)))"

definition check_goal :: "'x asil_env \<Rightarrow> 'x goal_env \<Rightarrow> u32 \<Rightarrow> nat \<Rightarrow> 'x goal_state \<Rightarrow> 'x goal_state outcome res" where
  "check_goal aext gext current_time i s =
     (let g = safety_goals s ! i in
      if timeout_ms g < current_time - last_verified g then Inr (handle_goal_violation aext gext (goal_id g) s)
      else (case verify_func g of
          None \<Rightarrow> Inl Null_Call
        | Some f \<Rightarrow>
            (let (ok, s') = call_goal gext f s in
             if \<not> ok then Inr (handle_goal_violation aext gext (goal_id g) s')
             else Inr (Running (s'\<lparr>safety_goals := (safety_goals s')[i := g\<lparr>last_verified := current_time\<rparr>]\<rparr>)))))"

fun check_goals :: "'x asil_env \<Rightarrow> 'x goal_env \<Rightarrow> u32 \<Rightarrow> nat list \<Rightarrow> 'x goal_state \<Rightarrow> 'x goal_state outcome res" where
  "check_goals aext gext t [] s = Inr (Running s)"
| "check_goals aext gext t (i # is) s =
     res_bind (check_goal aext gext t i s) (\<lambda>r. case r of
         Running s' \<Rightarrow> check_goals aext gext t is s'
       | Halted s' \<Rightarrow> Inr (Halted s'))"

definition monitor_safety_goals :: "'x asil_env \<Rightarrow> 'x goal_env \<Rightarrow> 'x goal_state \<Rightarrow> 'x goal_state outcome res" where
  "monitor_safety_goals aext gext s =
     check_goals aext gext (now (goal_kernel s)) [0..<length (safety_goals s)] s"

lemma handle_goal_violation_goals:
  "handle_goal_violation aext gext gid s = Running t \<Longrightarrow> safety_goals t = safety_goals s"
  by (auto simp: handle_goal_violation_def call_goal_def case_prod_beta split: option.splits outcome.splits)

lemma call_goal_goals [simp]: "safety_goals (snd (call_goal gext f s)) = safety_goals s"
  by (simp add: call_goal_def case_prod_beta)

lemma running_result:
  assumes "(case r of Running s' \<Rightarrow> f s' | Halted s' \<Rightarrow> Inr (Halted s')) = Inr (Running t)"
  obtains u where "r = Running u" "f u = Inr (Running t)"
  using assms by (cases r) auto

lemma expired_goal_kept:
  assumes "check_goals aext gext t is s = Inr (Running s')" and "k < length (safety_goals s)"
    and "timeout_ms (safety_goals s ! k) < t - last_verified (safety_goals s ! k)"
  shows "safety_goals s' ! k = safety_goals s ! k \<and> length (safety_goals s') = length (safety_goals s)"
  using assms
proof (induction "is" arbitrary: s)
  case Nil
  then show ?case by simp
next
  case (Cons i "is")
  obtain u where u: "check_goal aext gext t i s = Inr (Running u)" "check_goals aext gext t is u = Inr (Running s')"
    using Cons.prems(1) by (auto simp: res_bind_Inr_iff elim!: running_result)
  have "safety_goals u ! k = safety_goals s ! k \<and> length (safety_goals u) = length (safety_goals s)"
    using u(1) Cons.prems(2,3)
    by (cases "i = k") (auto simp: check_goal_def Let_def case_prod_beta
        dest!: handle_goal_violation_goals split: if_splits option.splits)
  then show ?case using Cons.IH [OF u(2)] Cons.prems(2,3) by simp
qed

text \<open>Rounds of the monitor at given uptimes.\<close>

fun goal_rounds :: "'x asil_env \<Rightarrow> 'x goal_env \<Rightarrow> nat list \<Rightarrow> 'x goal_state \<Rightarrow> 'x goal_state outcome res" where
  "goal_rounds aext gext [] s = Inr (Running s)"
| "goal_rounds aext gext (t # ts) s =
     res_bind (monitor_safety_goals aext gext (s\<lparr>goal_kernel := (goal_kernel s)\<lparr>clock := t\<rparr>\<rparr>)) (\<lambda>r. case r of
         Running s' \<Rightarrow> goal_rounds aext gext ts s'
       | Halted s' \<Rightarrow> Inr (Halted s'))"

text \<open>A safety goal that has run into its timeout is never verified again: through any number
  of rounds in which the node keeps running and the timeout stays exceeded, its entry is not
  refreshed, whether the goal holds by then or not, and the round after them reports it violated
  without asking its verification function.\<close>

lemma expired_goal_never_verified_again:
  assumes "k < length (safety_goals s)"
    and "\<forall>t \<in> set ts. timeout_ms (safety_goals s ! k) < word_of_nat t - last_verified (safety_goals s ! k)"
    and "goal_rounds aext gext ts s = Inr (Running s')"
    and "timeout_ms (safety_goals s ! k) < t - last_verified (safety_goals s ! k)"
  shows "safety_goals s' ! k = safety_goals s ! k \<and>
    check_goal aext gext t k s' = Inr (handle_goal_violation aext gext (goal_id (safety_goals s ! k)) s')"
proof -
  have "safety_goals s' ! k = safety_goals s ! k"
    using assms(1-3)
  proof (induction ts arbitrary: s)
    case Nil
    then show ?case by simp
  next
    case (Cons r ts)
    let ?s = "s\<lparr>goal_kernel := (goal_kernel s)\<lparr>clock := r\<rparr>\<rparr>"
    obtain u where u: "monitor_safety_goals aext gext ?s = Inr (Running u)" "goal_rounds aext gext ts u = Inr (Running s')"
      using Cons.prems(3) by (auto simp: res_bind_Inr_iff elim!: running_result)
    have "safety_goals u ! k = safety_goals s ! k \<and> length (safety_goals u) = length (safety_goals s)"
      using expired_goal_kept [of aext gext _ _ ?s u k] u(1) Cons.prems(1,2)
      by (simp add: monitor_safety_goals_def now_def)
    then show ?case using Cons.IH [of u] Cons.prems(1,2) u(2) by simp
  qed
  then show ?thesis using assms(4) by (simp add: check_goal_def)
qed

lemma expired_goal_never_verified_again_witness:
  "safety_goals (case goal_rounds (\<lambda>_ x. (True, x)) (\<lambda>_ x. (True, x)) [500, 600]
      \<lparr>safety_goals = [\<lparr>goal_id = 1, verify_func = Some 0, recovery_func = Some 1, timeout_ms = 100, last_verified = 0\<rparr>],
       goal_kernel = fresh_node\<rparr> of Inr (Running s') \<Rightarrow> s') ! 0 =
     \<lparr>goal_id = 1, verify_func = Some 0, recovery_func = Some 1, timeout_ms = 100, last_verified = 0\<rparr>"
proof -
  let ?g = "\<lparr>goal_id = 1, verify_func = Some 0, recovery_func = Some 1, timeout_ms = 100, last_verified = 0\<rparr>"
  let ?s = "\<lparr>safety_goals = [?g], goal_kernel = fresh_node\<rparr>"
  obtain s' where r: "goal_rounds (\<lambda>_ x. (True, x)) (\<lambda>_ x. (True, x)) [500, 600] ?s = Inr (Running s')"
    by (simp add: monitor_safety_goals_def check_goal_def handle_goal_violation_def call_goal_def now_def
        fresh_node_def)
  have "safety_goals s' ! 0 = ?g"
    using expired_goal_never_verified_again [OF _ _ r, of 0 700] by simp
  then show ?thesis using r by simp
qed

end
