(* ===== verification/Error_Handler.thy ===== *)
theory Error_Handler
  imports Asil
begin

text \<open>
  The error handler of \<^verbatim>\<open>common/error/error_handler.c\<close>: a retry counter per error type, one
  recovery routine per type, and the safe state when the retries are used up.

  The error types the switch names are not declared anywhere in the repository, apart from two:
  they are the parameter \<open>types\<close>, and the size of the counter array is the length of the list. The
  drivers and task services the recovery routines call are answered by \<open>ext\<close>, with C's truth
  value of their result; tasks are known by their index.
\<close>

definition MAX_RETRIES :: u32 where "MAX_RETRIES = 3"
definition MAX_MONITORED_TASKS :: nat where "MAX_MONITORED_TASKS = 16"
definition ERROR_SECURE_BOOT :: u32 where "ERROR_SECURE_BOOT = 5"

record error_types =
  ERROR_CAN_BUS :: u32
  ERROR_SENSOR :: u32
  ERROR_TASK_DEADLINE :: u32
  ERROR_STACK_OVERFLOW :: u32

datatype err_call =
    Can_Recover_From_Bus_Off | Can_Stop | Can_Start | Reset_Can_Statistics
  | Reinitialize_Sensors | Verify_Sensor_Readings
  | Reset_Violated_Task | Is_Cpu_Overloaded | Terminate_Violated_Task
  | Get_Task_Name nat | Task_Uses_More_Than_20 nat | Is_Critical_Task nat | Reduce_Task_Priority nat
  | Verify_Stack_Guards nat
  | Get_Last_Fault_Address | Is_Critical_Memory_Region | Err_Restore_Memory_Backup | Err_Verify_Memory_Integrity

text \<open>\<open>True\<close> is a nonzero result or a non-null pointer.\<close>

type_synonym 'x err_env = "err_call \<Rightarrow> 'x \<Rightarrow> bool \<times> 'x"

record 'x err_state =
  error_counts :: "u32 list"
  err_kernel :: "'x safety"

definition call_err :: "'x err_env \<Rightarrow> err_call \<Rightarrow> 'x err_state \<Rightarrow> bool \<times> 'x err_state" where
  "call_err ext c s =
     (let (b, x) = ext c (env (err_kernel s)) in (b, s\<lparr>err_kernel := (err_kernel s)\<lparr>env := x\<rparr>\<rparr>))"

definition err_sleep :: "nat \<Rightarrow> 'x err_state \<Rightarrow> 'x err_state" where
  "err_sleep ms s = s\<lparr>err_kernel := sleep ms (err_kernel s)\<rparr>"

definition error_handler_init :: "'x err_state \<Rightarrow> 'x err_state" where
  "error_handler_init s = s\<lparr>error_counts := map (\<lambda>_. 0) (error_counts s)\<rparr>"

section \<open>Counters\<close>

definition should_attempt_recovery :: "u32 \<Rightarrow> 'x err_state \<Rightarrow> (bool \<times> 'x err_state) res" where
  "should_attempt_recovery error_type s =
     res_bind (mem_get (error_counts s) (unat error_type)) (\<lambda>c.
       if c < MAX_RETRIES then Inr (True, s\<lparr>error_counts := (error_counts s)[unat error_type := c + 1]\<rparr>)
       else Inr (False, s))"

definition reset_error_count :: "u32 \<Rightarrow> 'x err_state \<Rightarrow> 'x err_state res" where
  "reset_error_count error_type s =
     res_bind (mem_get (error_counts s) (unat error_type)) (\<lambda>_.
       Inr (s\<lparr>error_counts := (error_counts s)[unat error_type := 0]\<rparr>))"

definition notify_error_recovery :: "u32 \<Rightarrow> 'x err_state \<Rightarrow> 'x err_state res" where
  "notify_error_recovery error_type s = reset_error_count error_type s"

definition get_error_count :: "u32 \<Rightarrow> 'x err_state \<Rightarrow> u32" where
  "get_error_count error_type s =
     (if length (error_counts s) \<le> unat error_type then 0 else error_counts s ! unat error_type)"

section \<open>Recovery routines\<close>

definition handle_can_bus_error :: "'x err_env \<Rightarrow> 'x err_state \<Rightarrow> bool \<times> 'x err_state" where
  "handle_can_bus_error ext s =
     (let (failed, s1) = call_err ext Can_Recover_From_Bus_Off s in
      if failed then (False, s1)
      else
        (let (_, s2) = call_err ext Can_Stop s1;
             (failed', s3) = call_err ext Can_Start (err_sleep 100 s2) in
         if failed' then (False, s3)
         else (True, snd (call_err ext Reset_Can_Statistics s3))))"

definition handle_sensor_error :: "'x err_env \<Rightarrow> 'x err_state \<Rightarrow> bool \<times> 'x err_state" where
  "handle_sensor_error ext s =
     (let (failed, s1) = call_err ext Reinitialize_Sensors s in
      if failed then (False, s1)
      else
        (let (ok, s2) = call_err ext Verify_Sensor_Readings s1 in
         if \<not> ok then (False, s2) else (True, s2)))"

definition reduce_task :: "'x err_env \<Rightarrow> nat \<Rightarrow> bool \<times> 'x err_state \<Rightarrow> bool \<times> 'x err_state" where
  "reduce_task ext i acc =
     (let (reduced, s) = acc; (named, s1) = call_err ext (Get_Task_Name i) s in
      if \<not> named then (reduced, s1)
      else
        (let (busy, s2) = call_err ext (Task_Uses_More_Than_20 i) s1 in
         if \<not> busy then (reduced, s2)
         else
           (let (critical, s3) = call_err ext (Is_Critical_Task i) s2 in
            if critical then (reduced, s3)
            else
              (let (ok, s4) = call_err ext (Reduce_Task_Priority i) s3 in
               (if ok then True else reduced, s4)))))"

definition reduce_system_load :: "'x err_env \<Rightarrow> 'x err_state \<Rightarrow> bool \<times> 'x err_state" where
  "reduce_system_load ext s = fold (reduce_task ext) [0..<MAX_MONITORED_TASKS] (False, s)"

definition handle_task_deadline_miss :: "'x err_env \<Rightarrow> 'x err_state \<Rightarrow> bool \<times> 'x err_state" where
  "handle_task_deadline_miss ext s =
     (let (_, s1) = call_err ext Reset_Violated_Task s;
          (overloaded, s2) = call_err ext Is_Cpu_Overloaded s1 in
      if overloaded then
        (let (reduced, s3) = reduce_system_load ext s2 in
         if \<not> reduced then (False, s3) else (True, s3))
      else (True, s2))"

fun verify_stack_integrity :: "'x err_env \<Rightarrow> nat list \<Rightarrow> 'x err_state \<Rightarrow> bool \<times> 'x err_state" where
  "verify_stack_integrity ext [] s = (True, s)"
| "verify_stack_integrity ext (i # is) s =
     (let (named, s1) = call_err ext (Get_Task_Name i) s in
      if \<not> named then verify_stack_integrity ext is s1
      else
        (let (ok, s2) = call_err ext (Verify_Stack_Guards i) s1 in
         if \<not> ok then (False, s2) else verify_stack_integrity ext is s2))"

definition handle_stack_overflow :: "'x err_env \<Rightarrow> 'x err_state \<Rightarrow> bool \<times> 'x err_state" where
  "handle_stack_overflow ext s =
     (let (_, s1) = call_err ext Terminate_Violated_Task s;
          (ok, s2) = verify_stack_integrity ext [0..<MAX_MONITORED_TASKS] s1 in
      if \<not> ok then (False, s2) else (True, s2))"

definition handle_memory_violation :: "'x err_env \<Rightarrow> 'x err_state \<Rightarrow> bool \<times> 'x err_state" where
  "handle_memory_violation ext s =
     (let (_, s1) = call_err ext Get_Last_Fault_Address s;
          (critical, s2) = call_err ext Is_Critical_Memory_Region s1 in
      if critical then (False, s2)
      else
        (let (restored, s3) = call_err ext Err_Restore_Memory_Backup s2 in
         if restored then
           (let (ok, s4) = call_err ext Err_Verify_Memory_Integrity s3 in
            if ok then (True, s4) else (False, s4))
         else (False, s3)))"

text \<open>The switch: \<open>None\<close> stands for its two branches that enter the safe state.\<close>

definition run_recovery :: "error_types \<Rightarrow> 'x err_env \<Rightarrow> u32 \<Rightarrow> 'x err_state \<Rightarrow> (bool \<times> 'x err_state) option" where
  "run_recovery types ext error_type s =
     (if error_type = ERROR_CAN_BUS types then Some (handle_can_bus_error ext s)
      else if error_type = ERROR_SENSOR types then Some (handle_sensor_error ext s)
      else if error_type = ERROR_TASK_DEADLINE types then Some (handle_task_deadline_miss ext s)
      else if error_type = ERROR_STACK_OVERFLOW types then Some (handle_stack_overflow ext s)
      else if error_type = ERROR_MEMORY_CORRUPTION then Some (handle_memory_violation ext s)
      else if error_type = ERROR_SECURE_BOOT then None
      else None)"

section \<open>The handler\<close>

definition stop_node :: "'x asil_env \<Rightarrow> 'x err_state \<Rightarrow> 'x err_state outcome" where
  "stop_node aext s =
     (case enter_safe_state aext (err_kernel s) of
        Halted k \<Rightarrow> Halted (s\<lparr>err_kernel := k\<rparr>)
      | Running k \<Rightarrow> Running (s\<lparr>err_kernel := k\<rparr>))"

definition handle_error ::
  "error_types \<Rightarrow> 'x asil_env \<Rightarrow> 'x err_env \<Rightarrow> u32 \<Rightarrow> 'x err_state \<Rightarrow> 'x err_state outcome res" where
  "handle_error types aext ext error_type s =
     res_bind (should_attempt_recovery error_type s) (\<lambda>(attempt, s1).
       if \<not> attempt then Inr (stop_node aext s1)
       else (case run_recovery types ext error_type s1 of
           None \<Rightarrow> Inr (stop_node aext s1)
         | Some (recovered, s2) \<Rightarrow>
             if recovered then res_bind (reset_error_count error_type s2) (\<lambda>s3. Inr (Running s3))
             else
               res_bind (should_attempt_recovery error_type s2) (\<lambda>(again, s3).
                 if \<not> again then Inr (stop_node aext s3) else Inr (Running s3))))"

section \<open>What the handler does\<close>

lemma call_err_counts [simp]: "error_counts (snd (call_err ext c s)) = error_counts s"
  by (simp add: call_err_def case_prod_beta)

lemma err_sleep_counts [simp]: "error_counts (err_sleep n s) = error_counts s"
  by (simp add: err_sleep_def)

lemma reduce_task_counts: "error_counts (snd (reduce_task ext i acc)) = error_counts (snd acc)"
  by (simp add: reduce_task_def case_prod_beta Let_def)

lemma reduce_load_counts: "error_counts (snd (fold (reduce_task ext) is acc)) = error_counts (snd acc)"
  by (induction "is" arbitrary: acc) (simp_all add: reduce_task_counts)

lemma verify_stack_counts: "error_counts (snd (verify_stack_integrity ext is s)) = error_counts s"
  by (induction "is" arbitrary: s) (simp_all add: case_prod_beta)

lemma run_recovery_counts:
  "run_recovery types ext e s = Some (r, s') \<Longrightarrow> error_counts s' = error_counts s"
  using reduce_load_counts [of ext "[0..<MAX_MONITORED_TASKS]"] verify_stack_counts [of ext "[0..<MAX_MONITORED_TASKS]"]
  by (auto simp: run_recovery_def handle_can_bus_error_def handle_sensor_error_def handle_task_deadline_miss_def
      handle_stack_overflow_def handle_memory_violation_def reduce_system_load_def case_prod_beta Let_def
      split: if_splits)

definition with_count :: "u32 \<Rightarrow> u32 \<Rightarrow> 'x err_state \<Rightarrow> 'x err_state" where
  "with_count e c s = s\<lparr>error_counts := (error_counts s)[unat e := c]\<rparr>"

lemma stop_node_halts: "\<exists>t. stop_node aext s = Halted t \<and> current_state (err_kernel t) = SAFETY_STATE_SAFE_STOP"
  using enter_safe_state_stops [of aext "err_kernel s"] by (auto simp: stop_node_def)

text \<open>C33: What one call does for an error with a recovery routine, by the counter it finds. A count
  of three stops the node; a recovery that succeeds sets the counter back to zero; one that fails
  has counted twice, so it leaves the counter at two above where it was, or stops the node when
  the first of the two steps already reached three: from zero the second failure in a row stops the
  node, although three retries are configured.\<close>

theorem handle_error_by_count:
  assumes "unat e < length (error_counts s)" and "error_counts s ! unat e = c" and "c \<le> 3"
    and "run_recovery types ext e (with_count e (c + 1) s) = Some (recovered, s')"
  shows "handle_error types aext ext e s =
    Inr (if c = 3 then stop_node aext s
         else if recovered then Running (with_count e 0 s')
         else if c = 2 then stop_node aext s'
         else Running (with_count e (c + 2) s'))"
proof -
  have counts: "error_counts s' = (error_counts s)[unat e := c + 1]"
    using run_recovery_counts [OF assms(4)] by (simp add: with_count_def)
  have "unat c = 0 \<or> unat c = 1 \<or> unat c = 2 \<or> unat c = 3"
    using assms(3) unfolding word_le_nat_alt by auto
  then have "c = 0 \<or> c = 1 \<or> c = 2 \<or> c = 3" by (simp add: word_unat_eq_iff)
  then show ?thesis
    using assms(1,2,4) counts
    by (elim disjE) (simp_all add: handle_error_def should_attempt_recovery_def reset_error_count_def mem_get_def
        MAX_RETRIES_def with_count_def)
qed

text \<open>The handler indexes its counters with whatever error type it is given: a type beyond the
  array is an access outside it, in the handler as in the confirmation of a recovery, while the
  query of the same type answers zero.\<close>

lemma unknown_type_leaves_array:
  assumes "length (error_counts s) \<le> unat e"
  shows "handle_error types aext ext e s = Inl Out_Of_Bounds \<and>
    notify_error_recovery e s = Inl Out_Of_Bounds \<and> get_error_count e s = 0"
  using assms
  by (simp add: handle_error_def should_attempt_recovery_def notify_error_recovery_def reset_error_count_def
      get_error_count_def mem_get_def)

section \<open>Instances\<close>

definition demo_types :: error_types where
  "demo_types = \<lparr>ERROR_CAN_BUS = 1, ERROR_SENSOR = 2, ERROR_TASK_DEADLINE = 3, ERROR_STACK_OVERFLOW = 4\<rparr>"

definition demo_errors :: "unit err_state" where
  "demo_errors = \<lparr>error_counts = [0, 0, 1, 0, 0, 0], err_kernel = fresh_node\<rparr>"

theorem handle_error_by_count_witness:
  "handle_error demo_types (\<lambda>_ x. (True, x)) (\<lambda>_ x. (True, x)) 2 demo_errors =
     Inr (Running (with_count 2 3 (demo_errors\<lparr>err_kernel := fresh_node\<rparr>)))"
proof -
  have r: "run_recovery demo_types (\<lambda>_ x. (True, x)) 2 (with_count 2 (1 + 1) demo_errors) =
      Some (False, (with_count 2 (1 + 1) demo_errors)\<lparr>err_kernel := (fresh_node\<lparr>env := ()\<rparr>)\<rparr>)"
    by (simp add: run_recovery_def demo_types_def handle_sensor_error_def call_err_def with_count_def demo_errors_def)
  show ?thesis
    using handle_error_by_count [OF _ _ _ r, of "\<lambda>_ x. (True, x)"]
    by (simp add: demo_errors_def with_count_def)
qed

lemma unknown_type_leaves_array_witness:
  "handle_error demo_types (\<lambda>_ x. (True, x)) (\<lambda>_ x. (True, x)) ERROR_MEMORY_CORRUPTION demo_errors = Inl Out_Of_Bounds"
  using unknown_type_leaves_array [of demo_errors ERROR_MEMORY_CORRUPTION demo_types]
  by (simp add: demo_errors_def asil_error_defs)

end
