(* ===== verification/Task_Monitor.thy ===== *)
theory Task_Monitor
  imports Control_Flow
begin

text \<open>
  The task supervision of \<^verbatim>\<open>common/safety/task_monitor.c\<close> and \<^verbatim>\<open>task_monitor.h\<close>: the table of
  monitored tasks, one round of the monitor thread, error handling and recovery, the load
  computation and the safety status.

  Tasks are found by name, as the code does. What the kernel reports about a thread (free stack,
  cycles, preemptions) is an argument; \<^verbatim>\<open>log_task_violation\<close> has no definition in the repository and
  is recorded. Result buffers of redundant tasks hold 256 bytes. The field for the last runtime
  statistics and the limit \<^verbatim>\<open>max_interference_count\<close> are used by the code though its structures do
  not declare them; they are fields here.
\<close>

section \<open>Constants and state\<close>

definition TM_MAX_MONITORED_TASKS :: nat where "TM_MAX_MONITORED_TASKS = 16"
definition MAX_MISSED_DEADLINES :: u32 where "MAX_MISSED_DEADLINES = 3"
definition CPU_OVERLOAD_THRESHOLD :: u32 where "CPU_OVERLOAD_THRESHOLD = 80"
definition RESULT_SIZE :: nat where "RESULT_SIZE = 256"
definition TASK_DEADLINE_MISSED :: u32 where "TASK_DEADLINE_MISSED = 1"
definition TASK_STACK_OVERFLOW :: u32 where "TASK_STACK_OVERFLOW = 2"
definition TASK_RUNTIME_EXCEED :: u32 where "TASK_RUNTIME_EXCEED = 3"
definition TASK_CONTROL_FLOW_ERROR :: u32 where "TASK_CONTROL_FLOW_ERROR = 4"
definition TASK_INTERFERENCE_ERROR :: u32 where "TASK_INTERFERENCE_ERROR = 6"

lemmas task_error_defs = TASK_DEADLINE_MISSED_def TASK_STACK_OVERFLOW_def TASK_RUNTIME_EXCEED_def
  TASK_CONTROL_FLOW_ERROR_def TASK_INTERFERENCE_ERROR_def

datatype task_state = TASK_STATE_INIT | TASK_STATE_READY | TASK_STATE_RUNNING | TASK_STATE_BLOCKED
  | TASK_STATE_SUSPENDED | TASK_STATE_TERMINATED | TASK_STATE_ERROR

record task_config =
  name :: string
  deadline_ms :: u32
  max_runtime_ms :: u32
  min_stack_remaining :: u32
  is_critical :: bool
  needs_redundancy :: bool
  max_interference_count :: u32

record task_statistics =
  stack_usage_peak :: u32
  cpu_usage_percent :: u32
  deadline_misses :: u32
  cf_violations :: u32
  interference_count :: u32
  tm_recovery_attempts :: u32
  stack_overflow :: bool

definition zero_task_stats :: task_statistics where
  "zero_task_stats = \<lparr>stack_usage_peak = 0, cpu_usage_percent = 0, deadline_misses = 0,
     cf_violations = 0, interference_count = 0, tm_recovery_attempts = 0, stack_overflow = False\<rparr>"

record monitored_task =
  config :: task_config
  last_checkpoint :: u64
  execution_start :: u64
  missed_deadlines :: u32
  task_active :: bool
  results :: "bytes list"
  task_current_state :: task_state
  task_last_state :: task_state
  tstats :: task_statistics
  last_preempt_count :: u32

record 'x monitor =
  tasks :: "monitored_task list"
  system_cpu_load :: u32
  task_violations :: "(string \<times> u32) list"
  mon_kernel :: "'x safety"

definition task_name :: "monitored_task \<Rightarrow> string" where
  "task_name t = name (config t)"

definition stop_tasks :: "'x asil_env \<Rightarrow> 'x monitor \<Rightarrow> 'x monitor outcome" where
  "stop_tasks aext s =
     (case enter_safe_state aext (mon_kernel s) of
        Halted k \<Rightarrow> Halted (s\<lparr>mon_kernel := k\<rparr>)
      | Running k \<Rightarrow> Running (s\<lparr>mon_kernel := k\<rparr>))"

text \<open>The first task of that name, changed by \<open>f\<close>.\<close>

fun update_task :: "string \<Rightarrow> (monitored_task \<Rightarrow> monitored_task) \<Rightarrow> monitored_task list \<Rightarrow> monitored_task list" where
  "update_task n f [] = []"
| "update_task n f (t # ts) = (if task_name t = n then f t # ts else t # update_task n f ts)"

definition find_task :: "string \<Rightarrow> monitored_task list \<Rightarrow> monitored_task option" where
  "find_task n ts = find (\<lambda>t. task_name t = n) ts"

section \<open>Registration\<close>

definition new_task :: "u64 \<Rightarrow> task_config \<Rightarrow> monitored_task" where
  "new_task t c = \<lparr>config = c, last_checkpoint = t, execution_start = 0, missed_deadlines = 0,
     task_active = True, results = (if needs_redundancy c then replicate 3 (replicate RESULT_SIZE 0) else []),
     task_current_state = TASK_STATE_INIT, task_last_state = TASK_STATE_INIT, tstats = zero_task_stats,
     last_preempt_count = 0\<rparr>"

definition register_monitored_task :: "u64 \<Rightarrow> task_config \<Rightarrow> 'x monitor \<Rightarrow> int \<times> 'x monitor" where
  "register_monitored_task t c s =
     (if TM_MAX_MONITORED_TASKS \<le> length (tasks s) then (- ENOMEM, s)
      else (0, s\<lparr>tasks := tasks s @ [new_task t c]\<rparr>))"

text \<open>
  The initialisation. It clears the table and not its length, so a call after registrations leaves
  entries whose name is a null pointer; the model has no value for these, the result is \<open>None\<close>.
\<close>

definition task_monitor_init :: "'y control_flow \<Rightarrow> 'x monitor \<Rightarrow> (int \<times> 'y control_flow \<times> 'x monitor) option" where
  "task_monitor_init cf s = (if tasks s = [] then Some (0, control_flow_init cf, s) else None)"

text \<open>Seen through the configurations, the table is a bounded table.\<close>

interpretation task_table: bounded_table TM_MAX_MONITORED_TASKS "\<lambda>s. map config (tasks s)"
    "\<lambda>c s. snd (register_monitored_task t c s)" for t
  by unfold_locales (auto simp: register_monitored_task_def new_task_def)

section \<open>Errors and recovery\<close>

definition recover_task :: "monitored_task \<Rightarrow> monitored_task" where
  "recover_task t = t\<lparr>missed_deadlines := 0, execution_start := 0, task_current_state := TASK_STATE_READY,
     tstats := (tstats t)\<lparr>stack_overflow := False\<rparr>\<rparr>"

definition recover_task_error :: "string \<Rightarrow> 'x monitor \<Rightarrow> bool \<times> 'x monitor" where
  "recover_task_error n s =
     (case find_task n (tasks s) of
        None \<Rightarrow> (False, s)
      | Some t \<Rightarrow> (needs_redundancy (config t), s\<lparr>tasks := update_task n recover_task (tasks s)\<rparr>))"

definition count_error :: "u32 \<Rightarrow> monitored_task \<Rightarrow> monitored_task" where
  "count_error error_type t =
     (let st = tstats t;
          st1 = (if error_type = TASK_DEADLINE_MISSED then st\<lparr>deadline_misses := deadline_misses st + 1\<rparr>
                 else if error_type = TASK_CONTROL_FLOW_ERROR then st\<lparr>cf_violations := cf_violations st + 1\<rparr>
                 else if error_type = TASK_INTERFERENCE_ERROR then st\<lparr>interference_count := interference_count st + 1\<rparr>
                 else st)
      in t\<lparr>tstats := st1\<lparr>tm_recovery_attempts := tm_recovery_attempts st1 + 1\<rparr>,
           task_current_state := TASK_STATE_ERROR\<rparr>)"

definition log_task_violation :: "string \<Rightarrow> u32 \<Rightarrow> 'x monitor \<Rightarrow> 'x monitor" where
  "log_task_violation n e s = s\<lparr>task_violations := task_violations s @ [(n, e)]\<rparr>"

definition handle_task_error :: "'x asil_env \<Rightarrow> string \<Rightarrow> u32 \<Rightarrow> 'x monitor \<Rightarrow> 'x monitor outcome" where
  "handle_task_error aext n error_type s =
     (case find_task n (tasks s) of
        None \<Rightarrow> Running (log_task_violation n error_type s)
      | Some t \<Rightarrow>
          (let s1 = s\<lparr>tasks := update_task n (count_error error_type) (tasks s)\<rparr> in
           if is_critical (config t) then stop_tasks aext s1
           else Running (log_task_violation n error_type (snd (recover_task_error n s1)))))"

definition reset_task :: "u64 \<Rightarrow> monitored_task \<Rightarrow> monitored_task" where
  "reset_task uptime t = t\<lparr>missed_deadlines := 0, execution_start := uptime, last_checkpoint := uptime,
     task_current_state := TASK_STATE_READY, tstats := zero_task_stats\<rparr>"

definition reset_task_monitoring :: "u64 \<Rightarrow> string \<Rightarrow> 'x monitor \<Rightarrow> 'x monitor" where
  "reset_task_monitoring uptime n s = s\<lparr>tasks := update_task n (reset_task uptime) (tasks s)\<rparr>"

section \<open>The monitor thread\<close>

definition check_deadline :: "'x asil_env \<Rightarrow> u64 \<Rightarrow> nat \<Rightarrow> 'x monitor \<Rightarrow> 'x monitor outcome" where
  "check_deadline aext current_time i s =
     (let t = tasks s ! i in
      if ucast (deadline_ms (config t)) < current_time - last_checkpoint t then
        (let t1 = t\<lparr>missed_deadlines := missed_deadlines t + 1,
                    tstats := (tstats t)\<lparr>deadline_misses := deadline_misses (tstats t) + 1\<rparr>\<rparr>;
             s1 = s\<lparr>tasks := (tasks s)[i := t1]\<rparr> in
         if MAX_MISSED_DEADLINES \<le> missed_deadlines t1 then
           (if is_critical (config t) then stop_tasks aext s1
            else handle_task_error aext (task_name t) TASK_DEADLINE_MISSED s1)
         else Running s1)
      else Running s)"

definition check_runtime :: "'x asil_env \<Rightarrow> u64 \<Rightarrow> nat \<Rightarrow> 'x monitor \<Rightarrow> 'x monitor outcome" where
  "check_runtime aext current_time i s =
     (let t = tasks s ! i in
      if 0 < execution_start t \<and> ucast (max_runtime_ms (config t)) < current_time - execution_start t
      then handle_task_error aext (task_name t) TASK_RUNTIME_EXCEED s
      else Running s)"

definition check_stack :: "'x asil_env \<Rightarrow> u32 \<Rightarrow> nat \<Rightarrow> 'x monitor \<Rightarrow> 'x monitor outcome" where
  "check_stack aext stack_free i s =
     and_then
       (if stack_free < min_stack_remaining (config (tasks s ! i)) then
          handle_task_error aext (task_name (tasks s ! i)) TASK_STACK_OVERFLOW
            (s\<lparr>tasks := (tasks s)[i := (tasks s ! i)\<lparr>tstats := (tstats (tasks s ! i))\<lparr>stack_overflow := True\<rparr>\<rparr>]\<rparr>)
        else Running s)
       (\<lambda>s1. let t = tasks s1 ! i in
          if stack_free < stack_usage_peak (tstats t) then
            Running (s1\<lparr>tasks := (tasks s1)[i := t\<lparr>tstats := (tstats t)\<lparr>stack_usage_peak := stack_free\<rparr>\<rparr>]\<rparr>)
          else Running s1)"

definition watch_task :: "'x asil_env \<Rightarrow> u64 \<Rightarrow> u32 \<Rightarrow> nat \<Rightarrow> 'x monitor \<Rightarrow> 'x monitor outcome" where
  "watch_task aext current_time stack_free i s =
     (if \<not> task_active (tasks s ! i) then Running s
      else and_then (check_deadline aext current_time i s) (\<lambda>s1.
           and_then (check_runtime aext current_time i s1) (check_stack aext stack_free i)))"

fun watch_tasks :: "'x asil_env \<Rightarrow> u64 \<Rightarrow> u32 \<Rightarrow> nat list \<Rightarrow> 'x monitor \<Rightarrow> 'x monitor outcome" where
  "watch_tasks aext current_time stack_free [] s = Running s"
| "watch_tasks aext current_time stack_free (i # is) s =
     and_then (watch_task aext current_time stack_free i s) (watch_tasks aext current_time stack_free is)"

text \<open>One round of \<^verbatim>\<open>monitor_thread\<close>, given the time and the free stack the kernel reports.\<close>

definition monitor_round :: "'x asil_env \<Rightarrow> u64 \<times> u32 \<Rightarrow> 'x monitor \<Rightarrow> 'x monitor outcome" where
  "monitor_round aext e s = watch_tasks aext (fst e) (snd e) [0..<length (tasks s)] s"

fun monitor_thread :: "'x asil_env \<Rightarrow> (u64 \<times> u32) list \<Rightarrow> 'x monitor \<Rightarrow> 'x monitor outcome" where
  "monitor_thread aext [] s = Running s"
| "monitor_thread aext (e # es) s = and_then (monitor_round aext e s) (monitor_thread aext es)"

section \<open>Load, interference, redundancy, status\<close>

text \<open>
  \<open>sample i\<close> is what the kernel answers in round \<open>i\<close> of the loop: the execution cycles of the
  monitor thread and the cycle counter. The division faults when the counter reads zero.
\<close>

fun cpu_loop :: "(nat \<Rightarrow> u64 \<times> u32) \<Rightarrow> nat \<Rightarrow> monitored_task list \<Rightarrow> u32 \<Rightarrow> (monitored_task list \<times> u32) res" where
  "cpu_loop sample i [] total_load = Inr ([], total_load)"
| "cpu_loop sample i (t # ts) total_load =
     (if task_active t then
        (let (cycles, counter) = sample i in
         if counter = 0 then Inl Div_By_Zero
         else
           (let pct = (ucast ((cycles * 100) div ucast counter) :: u32) in
            res_bind (cpu_loop sample (i + 1) ts (total_load + pct)) (\<lambda>(ts', l).
              Inr (t\<lparr>tstats := (tstats t)\<lparr>cpu_usage_percent := pct\<rparr>\<rparr> # ts', l))))
      else res_bind (cpu_loop sample (i + 1) ts total_load) (\<lambda>(ts', l). Inr (t # ts', l)))"

definition cpu_monitor_round :: "(nat \<Rightarrow> u64 \<times> u32) \<Rightarrow> 'x monitor \<Rightarrow> 'x monitor res" where
  "cpu_monitor_round sample s =
     res_bind (cpu_loop sample 0 (tasks s) 0) (\<lambda>(ts, l). Inr (s\<lparr>tasks := ts, system_cpu_load := l\<rparr>))"

definition is_cpu_overloaded :: "'x monitor \<Rightarrow> bool" where
  "is_cpu_overloaded s \<longleftrightarrow> CPU_OVERLOAD_THRESHOLD < system_cpu_load s"

definition monitor_task_interference :: "u32 \<Rightarrow> string \<Rightarrow> 'x monitor \<Rightarrow> bool \<times> 'x monitor" where
  "monitor_task_interference preempt_count n s =
     (case find_task n (tasks s) of
        None \<Rightarrow> (False, s)
      | Some t \<Rightarrow>
          if max_interference_count (config t) < preempt_count - last_preempt_count t then
            (True, log_task_violation n TASK_INTERFERENCE_ERROR
               (s\<lparr>tasks := update_task n (\<lambda>t. t\<lparr>tstats := (tstats t)\<lparr>interference_count := interference_count (tstats t) + 1\<rparr>,
                                                last_preempt_count := preempt_count\<rparr>) (tasks s)\<rparr>))
          else (False, s\<lparr>tasks := update_task n (\<lambda>t. t\<lparr>last_preempt_count := preempt_count\<rparr>) (tasks s)\<rparr>))"

text \<open>The first task of the name that needs redundancy takes the results.\<close>

fun store_results :: "string \<Rightarrow> bytes \<Rightarrow> bytes \<Rightarrow> bytes \<Rightarrow> monitored_task list \<Rightarrow> monitored_task list res" where
  "store_results n r1 r2 r3 [] = Inr []"
| "store_results n r1 r2 r3 (t # ts) =
     (if task_name t = n \<and> needs_redundancy (config t) then
        res_bind (memcpy_at (results t ! 0) 0 r1) (\<lambda>b1.
        res_bind (memcpy_at (results t ! 1) 0 r2) (\<lambda>b2.
        res_bind (memcpy_at (results t ! 2) 0 r3) (\<lambda>b3. Inr (t\<lparr>results := [b1, b2, b3]\<rparr> # ts))))
      else res_bind (store_results n r1 r2 r3 ts) (\<lambda>ts'. Inr (t # ts')))"

definition verify_redundant_task_output ::
  "'x asil_env \<Rightarrow> string \<Rightarrow> bytes \<Rightarrow> bytes \<Rightarrow> bytes \<Rightarrow> 'x monitor \<Rightarrow> 'x monitor outcome res" where
  "verify_redundant_task_output aext n r1 r2 r3 s =
     (if \<not> list_ex (\<lambda>t. task_name t = n \<and> needs_redundancy (config t)) (tasks s) then Inr (Running s)
      else if r1 \<noteq> r2 \<or> r2 \<noteq> r3 then Inr (handle_task_error aext n TASK_CONTROL_FLOW_ERROR s)
      else res_bind (store_results n r1 r2 r3 (tasks s)) (\<lambda>ts. Inr (Running (s\<lparr>tasks := ts\<rparr>))))"

definition get_task_safety_status :: "string \<Rightarrow> 'x monitor \<Rightarrow> u32" where
  "get_task_safety_status n s =
     (case find_task n (tasks s) of
        None \<Rightarrow> 0xFFFFFFFF
      | Some t \<Rightarrow>
          (if 0 < deadline_misses (tstats t) then 1 else 0) OR
          (if stack_overflow (tstats t) then 2 else 0) OR
          (if 0 < cf_violations (tstats t) then 4 else 0) OR
          (if 0 < interference_count (tstats t) then 8 else 0) OR
          (if task_current_state t = TASK_STATE_ERROR then 16 else 0))"

end
