(* ===== verification/Task_Properties.thy ===== *)
theory Task_Properties
  imports Task_Monitor
begin

text \<open>
  What the supervision of \<^verbatim>\<open>common/safety/task_monitor.c\<close> does to the tasks of a table with distinct
  names: the effect of a round on each single task, and from it when the node stops, what is
  counted, and what the safety status can show.
\<close>

section \<open>Tasks by name\<close>

definition distinct_names :: "monitored_task list \<Rightarrow> bool" where
  "distinct_names ts \<longleftrightarrow> distinct (map task_name ts)"

lemma first_of_name:
  "distinct_names (t # ts) \<Longrightarrow> i < length ts \<Longrightarrow> task_name t \<noteq> task_name (ts ! i)"
  by (auto simp: distinct_names_def)

lemma update_task_nth:
  "distinct_names ts \<Longrightarrow> i < length ts \<Longrightarrow> update_task (task_name (ts ! i)) f ts = ts[i := f (ts ! i)]"
proof (induction ts arbitrary: i)
  case (Cons t ts)
  have "distinct_names ts" using Cons.prems by (simp add: distinct_names_def)
  then show ?case using Cons first_of_name [OF Cons.prems(1)] by (cases i) auto
qed simp

lemma find_task_nth:
  "distinct_names ts \<Longrightarrow> i < length ts \<Longrightarrow> find_task (task_name (ts ! i)) ts = Some (ts ! i)"
proof (induction ts arbitrary: i)
  case (Cons t ts)
  have "distinct_names ts" using Cons.prems by (simp add: distinct_names_def)
  then show ?case using Cons first_of_name [OF Cons.prems(1)] by (cases i) (auto simp: find_task_def)
qed simp

lemma distinct_names_update:
  "distinct_names ts \<Longrightarrow> task_name t = task_name (ts ! i) \<Longrightarrow> distinct_names (ts[i := t])"
proof -
  assume d: "distinct_names ts" and n: "task_name t = task_name (ts ! i)"
  have "map task_name (ts[i := t]) = map task_name ts"
    by (cases "i < length ts") (simp_all add: map_update n list_update_beyond flip: nth_map)
  then show ?thesis using d by (simp add: distinct_names_def)
qed

lemma task_name_simps [simp]:
  "task_name (recover_task t) = task_name t" "task_name (count_error e t) = task_name t"
  "task_name (t\<lparr>tstats := st\<rparr>) = task_name t" "task_name (t\<lparr>missed_deadlines := m, tstats := st\<rparr>) = task_name t"
  by (simp_all add: task_name_def recover_task_def count_error_def Let_def)

lemma stop_tasks_halts:
  "\<exists>t. stop_tasks aext s = Halted t \<and> current_state (mon_kernel t) = SAFETY_STATE_SAFE_STOP"
  using enter_safe_state_stops [of aext "mon_kernel s"] by (auto simp: stop_tasks_def)

section \<open>The effect of a round on one task\<close>

definition past_deadline :: "u64 \<Rightarrow> monitored_task \<Rightarrow> bool" where
  "past_deadline t x \<longleftrightarrow> ucast (deadline_ms (config x)) < t - last_checkpoint x"

definition past_runtime :: "u64 \<Rightarrow> monitored_task \<Rightarrow> bool" where
  "past_runtime t x \<longleftrightarrow> 0 < execution_start x \<and> ucast (max_runtime_ms (config x)) < t - execution_start x"

definition miss :: "monitored_task \<Rightarrow> monitored_task" where
  "miss x = x\<lparr>missed_deadlines := missed_deadlines x + 1,
     tstats := (tstats x)\<lparr>deadline_misses := deadline_misses (tstats x) + 1\<rparr>\<rparr>"

definition deadline_effect :: "u64 \<Rightarrow> monitored_task \<Rightarrow> monitored_task" where
  "deadline_effect t x =
     (if past_deadline t x then
        (if MAX_MISSED_DEADLINES \<le> missed_deadlines x + 1
         then recover_task (count_error TASK_DEADLINE_MISSED (miss x)) else miss x)
      else x)"

definition runtime_effect :: "u64 \<Rightarrow> monitored_task \<Rightarrow> monitored_task" where
  "runtime_effect t x = (if past_runtime t x then recover_task (count_error TASK_RUNTIME_EXCEED x) else x)"

definition stack_effect :: "u32 \<Rightarrow> monitored_task \<Rightarrow> monitored_task" where
  "stack_effect free x =
     (let x1 = (if free < min_stack_remaining (config x)
                then recover_task (count_error TASK_STACK_OVERFLOW (x\<lparr>tstats := (tstats x)\<lparr>stack_overflow := True\<rparr>\<rparr>))
                else x)
      in if free < stack_usage_peak (tstats x1) then x1\<lparr>tstats := (tstats x1)\<lparr>stack_usage_peak := free\<rparr>\<rparr> else x1)"

definition watch_effect :: "u64 \<times> u32 \<Rightarrow> monitored_task \<Rightarrow> monitored_task" where
  "watch_effect e x =
     (if task_active x then stack_effect (snd e) (runtime_effect (fst e) (deadline_effect (fst e) x)) else x)"

text \<open>Does the round stop the node because of this task?\<close>

definition watch_stops :: "u64 \<times> u32 \<Rightarrow> monitored_task \<Rightarrow> bool" where
  "watch_stops e x \<longleftrightarrow> task_active x \<and> is_critical (config x) \<and>
     (past_deadline (fst e) x \<and> MAX_MISSED_DEADLINES \<le> missed_deadlines x + 1 \<or>
      past_runtime (fst e) x \<or> snd e < min_stack_remaining (config x))"

lemma effect_config [simp]:
  "config (recover_task x) = config x" "config (count_error e x) = config x" "config (miss x) = config x"
  "config (deadline_effect t x) = config x" "config (runtime_effect t x) = config x"
  "config (stack_effect f x) = config x" "config (watch_effect e' x) = config x"
  by (simp_all add: recover_task_def count_error_def miss_def deadline_effect_def runtime_effect_def
      stack_effect_def watch_effect_def Let_def)

lemma effect_name [simp]:
  "task_name (deadline_effect t x) = task_name x" "task_name (runtime_effect t x) = task_name x"
  "task_name (stack_effect f x) = task_name x" "task_name (watch_effect e' x) = task_name x"
  "task_name (miss x) = task_name x"
  by (simp_all add: task_name_def)

lemma effect_times [simp]:
  "last_checkpoint (watch_effect e x) = last_checkpoint x" "task_active (watch_effect e x) = task_active x"
  by (simp_all add: recover_task_def count_error_def miss_def deadline_effect_def runtime_effect_def
      stack_effect_def watch_effect_def Let_def)

lemma handle_error_nth:
  assumes "distinct_names (tasks s)" and "i < length (tasks s)" and "n = task_name (tasks s ! i)"
  shows "if is_critical (config (tasks s ! i)) then \<exists>h. handle_task_error aext n e s = Halted h \<and>
      current_state (mon_kernel h) = SAFETY_STATE_SAFE_STOP
    else \<exists>s'. handle_task_error aext n e s = Running s' \<and>
      tasks s' = (tasks s)[i := recover_task (count_error e (tasks s ! i))]"
proof -
  let ?ts = "(tasks s)[i := count_error e (tasks s ! i)]"
  have up: "update_task n (count_error e) (tasks s) = ?ts"
    using update_task_nth [OF assms(1,2)] assms(3) by simp
  have d: "distinct_names ?ts" using assms(1) by (rule distinct_names_update) simp
  have n: "n = task_name (?ts ! i)" using assms(2,3) by simp
  have "find_task n ?ts = Some (count_error e (tasks s ! i))"
    using find_task_nth [OF d, of i] n assms(2) by simp
  moreover have "update_task n recover_task ?ts = ?ts[i := recover_task (?ts ! i)]"
    using update_task_nth [OF d, of i recover_task] n assms(2) by simp
  ultimately show ?thesis
    using find_task_nth [OF assms(1,2)] assms(2,3) up stop_tasks_halts [of aext "s\<lparr>tasks := ?ts\<rparr>"]
    by (auto simp: handle_task_error_def recover_task_error_def log_task_violation_def)
qed

definition stopped :: "'x monitor outcome \<Rightarrow> bool" where
  "stopped r \<longleftrightarrow> (\<exists>h. r = Halted h \<and> current_state (mon_kernel h) = SAFETY_STATE_SAFE_STOP)"

text \<open>The tasks after a step, when the node is still running.\<close>

definition becomes :: "'x monitor outcome \<Rightarrow> monitored_task list \<Rightarrow> bool" where
  "becomes r ts \<longleftrightarrow> (\<exists>s. r = Running s \<and> tasks s = ts)"

lemma stopped_simps [simp]: "stopped (Halted h) \<longleftrightarrow> current_state (mon_kernel h) = SAFETY_STATE_SAFE_STOP"
  "\<not> stopped (Running s)" "becomes (Running s) ts \<longleftrightarrow> tasks s = ts" "\<not> becomes (Halted h) ts"
  by (simp_all add: stopped_def becomes_def)

lemma becomes_and_then:
  "becomes r ts \<Longrightarrow> (\<And>s. tasks s = ts \<Longrightarrow> P (k s)) \<Longrightarrow> P (and_then r k)"
  by (auto simp: becomes_def)

lemma stopped_and_then: "stopped r \<Longrightarrow> stopped (and_then r k)"
  by (auto simp: stopped_def)

lemma stop_tasks_stopped [simp]: "stopped (stop_tasks aext s)"
  using stop_tasks_halts [of aext s] by (simp add: stopped_def)

lemma handle_error_outcome:
  assumes "distinct_names (tasks s)" and "i < length (tasks s)" and "n = task_name (tasks s ! i)"
  shows "is_critical (config (tasks s ! i)) \<Longrightarrow> stopped (handle_task_error aext n e s)"
    and "\<not> is_critical (config (tasks s ! i)) \<Longrightarrow>
      becomes (handle_task_error aext n e s) ((tasks s)[i := recover_task (count_error e (tasks s ! i))])"
  using handle_error_nth [OF assms, of aext e] by (auto simp: stopped_def becomes_def)

lemma check_deadline_outcome:
  assumes d: "distinct_names (tasks s)" and i: "i < length (tasks s)" and x: "tasks s ! i = x"
  shows "past_deadline t x \<Longrightarrow> MAX_MISSED_DEADLINES \<le> missed_deadlines x + 1 \<Longrightarrow> is_critical (config x) \<Longrightarrow>
      stopped (check_deadline aext t i s)"
    and "\<not> (past_deadline t x \<and> MAX_MISSED_DEADLINES \<le> missed_deadlines x + 1 \<and> is_critical (config x)) \<Longrightarrow>
      becomes (check_deadline aext t i s) ((tasks s)[i := deadline_effect t x])"
proof -
  let ?s = "s\<lparr>tasks := (tasks s)[i := miss x]\<rparr>"
  have d': "distinct_names (tasks ?s)" using distinct_names_update [OF d, of "miss x" i] x by simp
  note h = handle_error_outcome(2) [OF d', of i "task_name x" aext TASK_DEADLINE_MISSED]
  have run: "check_deadline aext t i s =
      (if past_deadline t x then
         (if MAX_MISSED_DEADLINES \<le> missed_deadlines x + 1 then
            (if is_critical (config x) then stop_tasks aext ?s
             else handle_task_error aext (task_name x) TASK_DEADLINE_MISSED ?s)
          else Running ?s)
       else Running s)"
    by (simp add: check_deadline_def past_deadline_def miss_def x)
  show "past_deadline t x \<Longrightarrow> MAX_MISSED_DEADLINES \<le> missed_deadlines x + 1 \<Longrightarrow> is_critical (config x) \<Longrightarrow>
      stopped (check_deadline aext t i s)"
    by (simp add: run)
  assume "\<not> (past_deadline t x \<and> MAX_MISSED_DEADLINES \<le> missed_deadlines x + 1 \<and> is_critical (config x))"
  then show "becomes (check_deadline aext t i s) ((tasks s)[i := deadline_effect t x])"
    using h i x by (auto simp: run deadline_effect_def)
qed

lemma check_runtime_outcome:
  assumes d: "distinct_names (tasks s)" and i: "i < length (tasks s)" and x: "tasks s ! i = x"
  shows "past_runtime t x \<Longrightarrow> is_critical (config x) \<Longrightarrow> stopped (check_runtime aext t i s)"
    and "\<not> (past_runtime t x \<and> is_critical (config x)) \<Longrightarrow>
      becomes (check_runtime aext t i s) ((tasks s)[i := runtime_effect t x])"
proof -
  note h = handle_error_outcome [OF d i, of "task_name x" aext TASK_RUNTIME_EXCEED]
  have run: "check_runtime aext t i s =
      (if past_runtime t x then handle_task_error aext (task_name x) TASK_RUNTIME_EXCEED s else Running s)"
    by (simp add: check_runtime_def past_runtime_def x)
  show "past_runtime t x \<Longrightarrow> is_critical (config x) \<Longrightarrow> stopped (check_runtime aext t i s)"
    using h(1) x by (simp add: run)
  assume "\<not> (past_runtime t x \<and> is_critical (config x))"
  then show "becomes (check_runtime aext t i s) ((tasks s)[i := runtime_effect t x])"
    using h(2) x by (auto simp: run runtime_effect_def)
qed

lemma check_stack_outcome:
  assumes d: "distinct_names (tasks s)" and i: "i < length (tasks s)" and x: "tasks s ! i = x"
  shows "f < min_stack_remaining (config x) \<Longrightarrow> is_critical (config x) \<Longrightarrow> stopped (check_stack aext f i s)"
    and "\<not> (f < min_stack_remaining (config x) \<and> is_critical (config x)) \<Longrightarrow>
      becomes (check_stack aext f i s) ((tasks s)[i := stack_effect f x])"
proof -
  let ?x = "x\<lparr>tstats := (tstats x)\<lparr>stack_overflow := True\<rparr>\<rparr>"
  let ?s = "s\<lparr>tasks := (tasks s)[i := ?x]\<rparr>"
  have d': "distinct_names (tasks ?s)" using distinct_names_update [OF d, of ?x i] x by simp
  note h = handle_error_outcome [OF d', of i "task_name x" aext TASK_STACK_OVERFLOW]
  show "f < min_stack_remaining (config x) \<Longrightarrow> is_critical (config x) \<Longrightarrow> stopped (check_stack aext f i s)"
    using h(1) i x by (simp add: check_stack_def stopped_and_then)
  assume nc: "\<not> (f < min_stack_remaining (config x) \<and> is_critical (config x))"
  show "becomes (check_stack aext f i s) ((tasks s)[i := stack_effect f x])"
  proof (cases "f < min_stack_remaining (config x)")
    case True
    then have "becomes (handle_task_error aext (task_name x) TASK_STACK_OVERFLOW ?s)
        ((tasks s)[i := recover_task (count_error TASK_STACK_OVERFLOW ?x)])"
      using nc h(2) i x by simp
    then show ?thesis using True i x
      by (auto simp: becomes_def check_stack_def stack_effect_def Let_def)
  next
    case False
    then show ?thesis using i x by (auto simp: check_stack_def stack_effect_def Let_def)
  qed
qed

lemma effect_before_stack [simp]:
  "is_critical (config x) \<Longrightarrow> \<not> (past_deadline t x \<and> MAX_MISSED_DEADLINES \<le> missed_deadlines x + 1) \<Longrightarrow>
     past_runtime t (deadline_effect t x) = past_runtime t x"
  by (simp add: deadline_effect_def past_runtime_def miss_def)

lemma watch_task_outcome:
  assumes d: "distinct_names (tasks s)" and i: "i < length (tasks s)" and x: "tasks s ! i = x"
  shows "watch_stops e x \<Longrightarrow> stopped (watch_task aext (fst e) (snd e) i s)"
    and "\<not> watch_stops e x \<Longrightarrow>
      becomes (watch_task aext (fst e) (snd e) i s) ((tasks s)[i := watch_effect e x])"
proof -
  let ?t = "fst e" and ?f = "snd e"
  let ?x1 = "deadline_effect ?t x"
  let ?x2 = "runtime_effect ?t ?x1"
  let ?crit = "is_critical (config x)"
  let ?dl = "past_deadline ?t x \<and> MAX_MISSED_DEADLINES \<le> missed_deadlines x + 1"
  have upd: "distinct_names ((tasks s)[i := y])" if "task_name y = task_name x" for y
    using distinct_names_update [OF d, of y i] that x by simp
  have 1: "?dl \<Longrightarrow> ?crit \<Longrightarrow> stopped (check_deadline aext ?t i s)"
    "\<not> (?dl \<and> ?crit) \<Longrightarrow> becomes (check_deadline aext ?t i s) ((tasks s)[i := ?x1])"
    using check_deadline_outcome [OF d i x] by simp_all
  have 2: "past_runtime ?t ?x1 \<Longrightarrow> ?crit \<Longrightarrow> stopped (check_runtime aext ?t i s1)"
    "\<not> (past_runtime ?t ?x1 \<and> ?crit) \<Longrightarrow> becomes (check_runtime aext ?t i s1) ((tasks s)[i := ?x2])"
    if "tasks s1 = (tasks s)[i := ?x1]" for s1 :: "'a monitor"
    using check_runtime_outcome [of s1 i ?x1 ?t aext] that upd [of ?x1] i by simp_all
  have 3: "?f < min_stack_remaining (config x) \<Longrightarrow> ?crit \<Longrightarrow> stopped (check_stack aext ?f i s2)"
    "\<not> (?f < min_stack_remaining (config x) \<and> ?crit) \<Longrightarrow>
       becomes (check_stack aext ?f i s2) ((tasks s)[i := stack_effect ?f ?x2])"
    if "tasks s2 = (tasks s)[i := ?x2]" for s2 :: "'a monitor"
    using check_stack_outcome [of s2 i ?x2 ?f aext] that upd [of ?x2] i by simp_all
  show "watch_stops e x \<Longrightarrow> stopped (watch_task aext ?t ?f i s)"
  proof (cases ?dl)
    case False
    assume w: "watch_stops e x"
    then have c: ?crit "task_active x" by (simp_all add: watch_stops_def)
    show ?thesis
    proof (cases "past_runtime ?t ?x1")
      case True
      have nd: "\<not> (?dl \<and> ?crit)" using False by blast
      have "stopped (and_then (check_deadline aext ?t i s)
          (\<lambda>s1. and_then (check_runtime aext ?t i s1) (check_stack aext ?f i)))"
        by (rule becomes_and_then [OF 1(2) [OF nd]]) (rule stopped_and_then [OF 2(1) [OF _ True c(1)]])
      then show ?thesis using c(2) x by (simp add: watch_task_def)
    next
      case nr: False
      then have st: "?f < min_stack_remaining (config x)"
        using w False c effect_before_stack [OF c(1) False] by (auto simp: watch_stops_def)
      have "stopped (and_then (check_runtime aext ?t i s1) (check_stack aext ?f i))"
        if "tasks s1 = (tasks s)[i := ?x1]" for s1
        using becomes_and_then [OF 2(2) [OF that], of stopped "check_stack aext ?f i"] nr 3(1) st c by auto
      then show ?thesis
        using becomes_and_then [OF 1(2), of stopped] False c x by (auto simp: watch_task_def)
    qed
  qed (use 1(1) x in \<open>auto simp: watch_task_def watch_stops_def intro: stopped_and_then\<close>)
  show "becomes (watch_task aext ?t ?f i s) ((tasks s)[i := watch_effect e x])" if w: "\<not> watch_stops e x"
  proof (cases "task_active x")
    case True
    let ?r = "(tasks s)[i := stack_effect ?f ?x2]"
    have nd: "\<not> (?dl \<and> ?crit)" and ns: "\<not> (?f < min_stack_remaining (config x) \<and> ?crit)"
      using w True by (auto simp: watch_stops_def)
    have nr: "\<not> (past_runtime ?t ?x1 \<and> ?crit)"
      using w True nd effect_before_stack [of x ?t] by (auto simp: watch_stops_def)
    have "becomes (and_then (check_runtime aext ?t i s1) (check_stack aext ?f i)) ?r"
      if "tasks s1 = (tasks s)[i := ?x1]" for s1
      by (rule becomes_and_then [OF 2(2) [OF that nr]]) (rule 3(2) [OF _ ns])
    then show ?thesis
      using becomes_and_then [OF 1(2) [OF nd], of "\<lambda>r. becomes r ?r"] True x
      by (auto simp: watch_task_def watch_effect_def)
  qed (use x in \<open>auto simp: watch_task_def watch_effect_def\<close>)
qed

lemma watch_tasks_outcome:
  assumes "distinct_names (tasks s)" and "distinct is" and "\<forall>i \<in> set is. i < length (tasks s)"
  shows "(\<exists>i \<in> set is. watch_stops e (tasks s ! i)) \<Longrightarrow> stopped (watch_tasks aext (fst e) (snd e) is s)"
    and "(\<forall>i \<in> set is. \<not> watch_stops e (tasks s ! i)) \<Longrightarrow>
      becomes (watch_tasks aext (fst e) (snd e) is s)
        (map (\<lambda>k. if k \<in> set is then watch_effect e (tasks s ! k) else tasks s ! k) [0..<length (tasks s)])"
proof -
  have "if \<exists>i \<in> set is. watch_stops e (tasks s ! i) then stopped (watch_tasks aext (fst e) (snd e) is s)
    else becomes (watch_tasks aext (fst e) (snd e) is s)
        (map (\<lambda>k. if k \<in> set is then watch_effect e (tasks s ! k) else tasks s ! k) [0..<length (tasks s)])"
    using assms
  proof (induction "is" arbitrary: s)
    case Nil
    then show ?case by (simp add: map_nth)
  next
    case (Cons i "is")
    let ?x = "tasks s ! i"
    show ?case
    proof (cases "watch_stops e ?x")
      case True
      then show ?thesis using watch_task_outcome(1) [of s i ?x e aext] Cons.prems
        by (auto intro: stopped_and_then)
    next
      case False
      then obtain u where u: "watch_task aext (fst e) (snd e) i s = Running u" "tasks u = (tasks s)[i := watch_effect e ?x]"
        using watch_task_outcome(2) [of s i ?x e aext] Cons.prems by (auto simp: becomes_def)
      have same: "tasks u ! k = tasks s ! k" if "k \<in> set is" for k
        using that Cons.prems(2) u(2) by (cases "k = i") auto
      have "distinct_names (tasks u)"
        using u(2) Cons.prems distinct_names_update [of "tasks s" "watch_effect e ?x" i] by simp
      moreover have len: "length (tasks u) = length (tasks s)" using u(2) by simp
      moreover have "distinct is" "\<forall>i \<in> set is. i < length (tasks s)" using Cons.prems by simp_all
      ultimately have ih: "if \<exists>i \<in> set is. watch_stops e (tasks u ! i) then stopped (watch_tasks aext (fst e) (snd e) is u)
        else becomes (watch_tasks aext (fst e) (snd e) is u)
          (map (\<lambda>k. if k \<in> set is then watch_effect e (tasks u ! k) else tasks u ! k) [0..<length (tasks s)])"
        using Cons.IH [of u, unfolded len] by blast
      have 1: "map (\<lambda>k. if k \<in> set is then watch_effect e (tasks u ! k) else tasks u ! k) [0..<length (tasks s)] =
        map (\<lambda>k. if k \<in> set (i # is) then watch_effect e (tasks s ! k) else tasks s ! k) [0..<length (tasks s)]"
        using u(2) Cons.prems by (auto simp: nth_list_update)
      have 2: "(\<exists>i \<in> set is. watch_stops e (tasks u ! i)) \<longleftrightarrow> (\<exists>k \<in> set (i # is). watch_stops e (tasks s ! k))"
        using same False by auto
      have 3: "watch_tasks aext (fst e) (snd e) (i # is) s = watch_tasks aext (fst e) (snd e) is u"
        by (simp add: u(1))
      show ?thesis unfolding 3 using ih unfolding 1 2 .
    qed
  qed
  then show "(\<exists>i \<in> set is. watch_stops e (tasks s ! i)) \<Longrightarrow> stopped (watch_tasks aext (fst e) (snd e) is s)"
    and "(\<forall>i \<in> set is. \<not> watch_stops e (tasks s ! i)) \<Longrightarrow>
      becomes (watch_tasks aext (fst e) (snd e) is s)
        (map (\<lambda>k. if k \<in> set is then watch_effect e (tasks s ! k) else tasks s ! k) [0..<length (tasks s)])"
    by (auto split: if_splits)
qed

text \<open>A round stops the node exactly for the tasks singled out by \<^term>\<open>watch_stops\<close>, and otherwise
  acts on every task on its own.\<close>

lemma monitor_round_outcome:
  assumes "distinct_names (tasks s)"
  shows "(\<exists>x \<in> set (tasks s). watch_stops e x) \<Longrightarrow> stopped (monitor_round aext e s)"
    and "(\<forall>x \<in> set (tasks s). \<not> watch_stops e x) \<Longrightarrow>
      becomes (monitor_round aext e s) (map (watch_effect e) (tasks s))"
proof -
  have all: "set [0..<length (tasks s)] = {..<length (tasks s)}" by auto
  have m: "map (\<lambda>k. if k \<in> set [0..<length (tasks s)] then watch_effect e (tasks s ! k) else tasks s ! k) [0..<length (tasks s)] =
    map (watch_effect e) (tasks s)"
    by (rule nth_equalityI) auto
  note w = watch_tasks_outcome [OF assms, of "[0..<length (tasks s)]" e aext]
  show "(\<exists>x \<in> set (tasks s). watch_stops e x) \<Longrightarrow> stopped (monitor_round aext e s)"
    unfolding monitor_round_def by (rule w(1)) (force simp: in_set_conv_nth)+
  show "(\<forall>x \<in> set (tasks s). \<not> watch_stops e x) \<Longrightarrow>
      becomes (monitor_round aext e s) (map (watch_effect e) (tasks s))"
    unfolding monitor_round_def by (rule w(2) [unfolded m]) auto
qed

section \<open>Many rounds\<close>

lemma map_effect_names: "distinct_names (map (watch_effect e) ts) = distinct_names ts"
  by (simp add: distinct_names_def comp_def)

lemma monitor_thread_running:
  assumes "distinct_names (tasks s)" and "monitor_thread aext es s = Running u"
  shows "tasks u = map (fold watch_effect es) (tasks s)"
  using assms
proof (induction es arbitrary: s)
  case (Cons e es)
  then obtain v where v: "monitor_round aext e s = Running v" "monitor_thread aext es v = Running u"
    by (auto simp: and_then_Running)
  then have "\<forall>x \<in> set (tasks s). \<not> watch_stops e x"
    using monitor_round_outcome(1) [OF Cons.prems(1), of e aext] by auto
  then have "tasks v = map (watch_effect e) (tasks s)"
    using monitor_round_outcome(2) [OF Cons.prems(1), of e aext] v(1) by simp
  then show ?case using Cons.IH [OF _ v(2)] Cons.prems(1) by (simp add: map_effect_names)
qed simp

lemma monitor_thread_stops:
  assumes "distinct_names (tasks s)" and "x \<in> set (tasks s)" and "task_active x" and "is_critical (config x)"
    and "\<forall>e \<in> set es. past_deadline (fst e) x"
    and "unat (missed_deadlines x) < 3" and "3 \<le> unat (missed_deadlines x) + length es"
  shows "stopped (monitor_thread aext es s)"
  using assms
proof (induction es arbitrary: s x)
  case (Cons e es)
  note out = monitor_round_outcome [OF Cons.prems(1), of e aext]
  show ?case
  proof (cases "\<exists>x \<in> set (tasks s). watch_stops e x")
    case True
    then show ?thesis using out(1) by (simp add: stopped_and_then)
  next
    case False
    let ?x = "watch_effect e x"
    have inc: "unat (missed_deadlines x + 1) = unat (missed_deadlines x) + 1"
      using Cons.prems(6) by (simp add: unat_plus_if_size word_size)
    have ns: "\<not> watch_stops e x" and pd: "past_deadline (fst e) x" using False Cons.prems(2,5) by auto
    then have "missed_deadlines x + 1 < MAX_MISSED_DEADLINES"
      using Cons.prems(3,4) by (auto simp: watch_stops_def)
    then have small: "unat (missed_deadlines x) + 1 < 3"
      using inc by (simp add: word_less_nat_alt MAX_MISSED_DEADLINES_def)
    have de: "deadline_effect (fst e) x = miss x"
      using pd \<open>missed_deadlines x + 1 < MAX_MISSED_DEADLINES\<close> by (simp add: deadline_effect_def)
    have "\<not> past_runtime (fst e) (miss x)" "\<not> snd e < min_stack_remaining (config x)"
      using ns Cons.prems(3,4) by (auto simp: watch_stops_def past_runtime_def miss_def)
    then have m: "missed_deadlines ?x = missed_deadlines x + 1"
      using Cons.prems(3) by (simp add: watch_effect_def de runtime_effect_def stack_effect_def)
        (simp add: miss_def Let_def)
    have "stopped (monitor_thread aext es u)" if "tasks u = map (watch_effect e) (tasks s)" for u :: "'a monitor"
    proof (rule Cons.IH [of u ?x])
      show "distinct_names (tasks u)" "?x \<in> set (tasks u)" using that Cons.prems by (simp_all add: map_effect_names)
      show "\<forall>e' \<in> set es. past_deadline (fst e') ?x" using Cons.prems(5) by (simp add: past_deadline_def)
      show "unat (missed_deadlines ?x) < 3" "3 \<le> unat (missed_deadlines ?x) + length es"
        using m inc small Cons.prems(7) by simp_all
    qed (use Cons.prems in simp_all)
    then show ?thesis using becomes_and_then [OF out(2), of stopped] False by auto
  qed
qed simp

text \<open>C15: A critical task that is past its deadline in three readings of the monitor thread stops the
  node in the safe state, whatever the other tasks do: the thread counts a miss in each round and
  enters the safe state at the third, if nothing else stops the node before.\<close>

theorem critical_task_stops_node:
  assumes "distinct_names (tasks s)" and "x \<in> set (tasks s)" and "task_active x" and "is_critical (config x)"
    and "missed_deadlines x = 0" and "\<forall>e \<in> set es. past_deadline (fst e) x" and "3 \<le> length es"
  shows "\<exists>t. monitor_thread aext es s = Halted t \<and> current_state (mon_kernel t) = SAFETY_STATE_SAFE_STOP"
  using monitor_thread_stops [of s x es aext] assms by (simp add: stopped_def)

lemma noncritical_round:
  assumes "distinct_names (tasks s)" and "\<forall>x \<in> set (tasks s). \<not> is_critical (config x)"
  shows "becomes (monitor_round aext e s) (map (watch_effect e) (tasks s))"
  using assms by (intro monitor_round_outcome(2)) (auto simp: watch_stops_def)

lemma noncritical_thread:
  assumes "distinct_names (tasks s)" and "\<forall>x \<in> set (tasks s). \<not> is_critical (config x)"
  shows "\<exists>u. monitor_thread aext es s = Running u \<and> tasks u = map (fold watch_effect es) (tasks s)"
  using assms
proof (induction es arbitrary: s)
  case (Cons e es)
  obtain v where v: "monitor_round aext e s = Running v" "tasks v = map (watch_effect e) (tasks s)"
    using noncritical_round [OF Cons.prems, of aext e] by (auto simp: becomes_def)
  have "\<exists>u. monitor_thread aext es v = Running u \<and> tasks u = map (fold watch_effect es) (tasks v)"
    using Cons.prems v(2) by (intro Cons.IH) (simp_all add: map_effect_names)
  then show ?case using v by auto
qed simp

text \<open>What a task looks like while its deadline is missed in every round and nothing else is wrong:
  \<open>n\<close> misses after the start, of which every third one was also an error.\<close>

definition missed_for :: "monitored_task \<Rightarrow> nat \<Rightarrow> monitored_task \<Rightarrow> bool" where
  "missed_for x n y \<longleftrightarrow> config y = config x \<and> last_checkpoint y = last_checkpoint x \<and> task_active y \<and>
     execution_start y = 0 \<and> missed_deadlines y = word_of_nat (n mod 3) \<and>
     deadline_misses (tstats y) = word_of_nat (n + n div 3) \<and>
     tm_recovery_attempts (tstats y) = word_of_nat (n div 3)"

lemma missed_for_step:
  assumes "missed_for x n y" and "past_deadline (fst e) x" and "\<not> snd e < min_stack_remaining (config x)"
  shows "missed_for x (Suc n) (watch_effect e y)"
proof -
  have pd: "past_deadline (fst e) y" using assms(1,2) by (simp add: missed_for_def past_deadline_def)
  have nr: "runtime_effect (fst e) z = z" if "execution_start z = 0" for z
    using that by (simp add: runtime_effect_def past_runtime_def)
  have st: "execution_start (deadline_effect (fst e) y) = 0"
    using assms(1) by (simp add: missed_for_def deadline_effect_def miss_def recover_task_def)
  have w: "watch_effect e y = stack_effect (snd e) (deadline_effect (fst e) y)"
    using assms(1) by (simp add: watch_effect_def missed_for_def nr [OF st])
  show ?thesis
  proof (cases "n mod 3 = 2")
    case True
    then have "Suc n mod 3 = 0" "Suc n div 3 = Suc (n div 3)" by presburger+
    then show ?thesis using True assms pd
      by (simp add: w missed_for_def deadline_effect_def MAX_MISSED_DEADLINES_def miss_def recover_task_def
          count_error_def task_error_defs stack_effect_def Let_def)
  next
    case False
    then have d: "Suc n mod 3 = Suc (n mod 3)" "Suc n div 3 = n div 3" by presburger+
    from False have "n mod 3 = 0 \<or> n mod 3 = 1" by presburger
    then have "\<not> MAX_MISSED_DEADLINES \<le> word_of_nat (n mod 3) + 1" by (auto simp: MAX_MISSED_DEADLINES_def word_le_nat_alt)
    then show ?thesis using assms pd d
      by (simp add: w missed_for_def deadline_effect_def miss_def stack_effect_def Let_def)
  qed
qed

text \<open>When no task is critical the monitor thread never stops the node, and a task that was just
  registered and then misses its deadline in every one of \<open>n\<close> rounds has \<open>n + n div 3\<close> misses in its
  statistics: the third miss in a row is counted once by the thread and once more by the error
  handler, whose recovery starts the count of misses in a row afresh.\<close>

lemma every_third_miss_counted_twice:
  assumes "distinct_names (tasks s)" and "\<forall>x \<in> set (tasks s). \<not> is_critical (config x)"
    and "i < length (tasks s)" and "tasks s ! i = new_task t c"
    and "\<forall>e \<in> set es. ucast (deadline_ms c) < fst e - t \<and> min_stack_remaining c \<le> snd e"
  shows "\<exists>u. monitor_thread aext es s = Running u \<and>
    deadline_misses (tstats (tasks u ! i)) = word_of_nat (length es + length es div 3) \<and>
    missed_deadlines (tasks u ! i) = word_of_nat (length es mod 3) \<and>
    tm_recovery_attempts (tstats (tasks u ! i)) = word_of_nat (length es div 3)"
proof -
  have "missed_for (new_task t c) (n + length es) (fold watch_effect es y)"
    if "missed_for (new_task t c) n y"
      "\<forall>e \<in> set es. ucast (deadline_ms c) < fst e - t \<and> min_stack_remaining c \<le> snd e" for n y es
    using that
  proof (induction es arbitrary: n y)
    case (Cons e es)
    have "missed_for (new_task t c) (Suc n) (watch_effect e y)"
      using Cons.prems by (intro missed_for_step) (auto simp: new_task_def past_deadline_def)
    then show ?case using Cons.IH [of "Suc n"] Cons.prems by simp
  qed simp
  from this [of 0 "new_task t c" es] have "missed_for (new_task t c) (length es) (fold watch_effect es (new_task t c))"
    using assms(5) by (simp add: missed_for_def new_task_def zero_task_stats_def)
  moreover obtain u where "monitor_thread aext es s = Running u" "tasks u = map (fold watch_effect es) (tasks s)"
    using noncritical_thread [OF assms(1,2)] by blast
  ultimately show ?thesis using assms(3,4) by (simp add: missed_for_def)
qed

definition no_error_flags :: "monitored_task \<Rightarrow> bool" where
  "no_error_flags x \<longleftrightarrow> \<not> stack_overflow (tstats x) \<and> task_current_state x \<noteq> TASK_STATE_ERROR"

lemma no_error_flags_steps:
  "no_error_flags (recover_task x)" "no_error_flags (miss x) \<longleftrightarrow> no_error_flags x"
  "no_error_flags x \<Longrightarrow> no_error_flags (x\<lparr>tstats := (tstats x)\<lparr>stack_usage_peak := p\<rparr>\<rparr>)"
  by (simp_all add: no_error_flags_def recover_task_def miss_def)

lemma no_error_flags_effect: "no_error_flags x \<Longrightarrow> no_error_flags (watch_effect e x)"
  by (simp add: watch_effect_def deadline_effect_def runtime_effect_def stack_effect_def no_error_flags_steps Let_def)

text \<open>While the node is running, the safety status of a task never shows a stack overflow (bit 1)
  or the error state (bit 4) after a round of the monitor thread: what sets them stops the node
  when the task is critical, and is cleared by the recovery within the same round when it is not.\<close>

lemma error_bits_never_visible:
  assumes "distinct_names (tasks s)"
    and "\<forall>x \<in> set (tasks s). \<not> stack_overflow (tstats x) \<and> task_current_state x \<noteq> TASK_STATE_ERROR"
    and "monitor_thread aext es s = Running u" and "x \<in> set (tasks u)"
  shows "\<not> bit (get_task_safety_status (task_name x) u) 1 \<and> \<not> bit (get_task_safety_status (task_name x) u) 4"
proof -
  have u: "tasks u = map (fold watch_effect es) (tasks s)" by (rule monitor_thread_running [OF assms(1,3)])
  have keep: "no_error_flags x \<Longrightarrow> no_error_flags (fold watch_effect es x)" for x
    by (induction es arbitrary: x) (simp_all add: no_error_flags_effect)
  have "task_name (fold watch_effect es x) = task_name x" for x
    by (induction es arbitrary: x) simp_all
  then have "distinct_names (tasks u)" using assms(1) by (simp add: u distinct_names_def comp_def)
  moreover obtain i where "i < length (tasks u)" "x = tasks u ! i"
    using assms(4) by (auto simp: in_set_conv_nth)
  ultimately have f: "find_task (task_name x) (tasks u) = Some x"
    using find_task_nth by blast
  have "no_error_flags x" using assms(2,4) keep by (auto simp: u no_error_flags_def [abs_def])
  then show ?thesis
    by (simp add: get_task_safety_status_def f no_error_flags_def bit_simps)
qed

section \<open>Instances\<close>

definition brake_task :: task_config where
  "brake_task = \<lparr>name = ''brake'', deadline_ms = 20, max_runtime_ms = 5, min_stack_remaining = 64,
     is_critical = True, needs_redundancy = False, max_interference_count = 10\<rparr>"

definition light_task :: task_config where
  "light_task = \<lparr>name = ''light'', deadline_ms = 50, max_runtime_ms = 5, min_stack_remaining = 64,
     is_critical = False, needs_redundancy = True, max_interference_count = 10\<rparr>"

definition monitor_of :: "task_config list \<Rightarrow> unit monitor" where
  "monitor_of cs = fold (\<lambda>c s. snd (register_monitored_task 0 c s)) cs
     \<lparr>tasks = [], system_cpu_load = 0, task_violations = [], mon_kernel = fresh_node\<rparr>"

lemma monitor_of_tasks:
  "tasks (monitor_of [brake_task, light_task]) = [new_task 0 brake_task, new_task 0 light_task]"
  "tasks (monitor_of [light_task]) = [new_task 0 light_task]"
  by (simp_all add: monitor_of_def register_monitored_task_def TM_MAX_MONITORED_TASKS_def)

lemma instance_configs [simp]:
  "name brake_task = ''brake''" "deadline_ms brake_task = 20" "min_stack_remaining brake_task = 64"
  "is_critical brake_task" "name light_task = ''light''" "deadline_ms light_task = 50"
  "min_stack_remaining light_task = 64" "\<not> is_critical light_task"
  by (simp_all add: brake_task_def light_task_def)

theorem critical_task_stops_node_witness:
  "\<exists>t. monitor_thread (\<lambda>_ x. (True, x)) [(100, 512), (110, 512), (120, 512)]
      (monitor_of [brake_task, light_task]) = Halted t \<and> current_state (mon_kernel t) = SAFETY_STATE_SAFE_STOP"
  using critical_task_stops_node [of "monitor_of [brake_task, light_task]" "new_task 0 brake_task"
      "[(100, 512), (110, 512), (120, 512)]" "\<lambda>_ x. (True, x)"]
  by (simp add: monitor_of_tasks distinct_names_def task_name_def new_task_def past_deadline_def
      del: monitor_thread.simps)

lemma every_third_miss_counted_twice_witness:
  "\<exists>u. monitor_thread (\<lambda>_ x. (True, x)) [(100, 512), (110, 512), (120, 512)] (monitor_of [light_task]) = Running u \<and>
     deadline_misses (tstats (tasks u ! 0)) = 4"
  using every_third_miss_counted_twice [of "monitor_of [light_task]" 0 0 light_task
      "[(100, 512), (110, 512), (120, 512)]" "\<lambda>_ x. (True, x)"]
  by (simp add: monitor_of_tasks distinct_names_def new_task_def del: monitor_thread.simps) blast

lemma error_bits_never_visible_witness:
  "\<not> bit (get_task_safety_status ''light'' (monitor_of [light_task])) 4"
  using error_bits_never_visible [of "monitor_of [light_task]" "\<lambda>_ x. (True, x)" "[]" "monitor_of [light_task]"
      "new_task 0 light_task"]
  by (simp add: monitor_of_tasks distinct_names_def new_task_def zero_task_stats_def task_name_def)

end
