(* ===== verification/Event_Manager.thy ===== *)
theory Event_Manager
  imports Prelude
begin

text \<open>
  The event bus of \<^verbatim>\<open>common/events/event_manager.c\<close>: a ring of 64 entries and a table of
  subscribers. The function that adds subscribers is declared but not defined in the repository,
  so the table is part of the state a run starts from. Handler functions are numbers; \<open>None\<close> is a
  null pointer, a call of a handler is recorded with its event.
\<close>

definition MAX_EVENT_QUEUE :: nat where "MAX_EVENT_QUEUE = 64"

datatype event_type = EVENT_SENSOR_DATA | EVENT_SAFETY_VIOLATION | EVENT_COMMUNICATION_ERROR
  | EVENT_SYSTEM_STATE_CHANGE

record bus_event =
  ev_type :: event_type
  ev_data :: nat
  ev_len :: nat

record event_bus =
  subscribers :: "(event_type \<times> nat option) list"
  event_queue :: "bus_event list"
  queue_head :: u8
  queue_tail :: u8
  ev_calls :: "(nat \<times> bus_event) list"

definition zero_event :: bus_event where
  "zero_event = \<lparr>ev_type = EVENT_SENSOR_DATA, ev_data = 0, ev_len = 0\<rparr>"

text \<open>Clearing the tables leaves the number of subscribers and the indices of the ring.\<close>

definition event_manager_init :: "event_bus \<Rightarrow> event_bus" where
  "event_manager_init s =
     s\<lparr>subscribers := map (\<lambda>_. (EVENT_SENSOR_DATA, None)) (subscribers s),
       event_queue := replicate MAX_EVENT_QUEUE zero_event\<rparr>"

fun notify :: "bus_event \<Rightarrow> (event_type \<times> nat option) list \<Rightarrow> event_bus \<Rightarrow> event_bus res" where
  "notify e [] s = Inr s"
| "notify e ((t, h) # subs) s =
     (if t = ev_type e then
        (case h of None \<Rightarrow> Inl Null_Call
         | Some f \<Rightarrow> notify e subs (s\<lparr>ev_calls := ev_calls s @ [(f, e)]\<rparr>))
      else notify e subs s)"

text \<open>The index arithmetic is done in \<^verbatim>\<open>int\<close> after promotion.\<close>

definition next_tail :: "u8 \<Rightarrow> nat" where
  "next_tail t = (unat t + 1) mod MAX_EVENT_QUEUE"

definition publish_event :: "bus_event \<Rightarrow> event_bus \<Rightarrow> (int \<times> event_bus) res" where
  "publish_event e s =
     (if next_tail (queue_tail s) = unat (queue_head s) then Inr (- ENOMEM, s)
      else if length (event_queue s) \<le> unat (queue_tail s) then Inl Out_Of_Bounds
      else
        res_bind (notify e (subscribers s)
            (s\<lparr>event_queue := (event_queue s)[unat (queue_tail s) := e],
               queue_tail := word_of_nat (next_tail (queue_tail s))\<rparr>))
          (\<lambda>s'. Inr (0, s')))"

fun publish_all :: "bus_event list \<Rightarrow> event_bus \<Rightarrow> (int list \<times> event_bus) res" where
  "publish_all [] s = Inr ([], s)"
| "publish_all (e # es) s =
     res_bind (publish_event e s) (\<lambda>(r, s'). res_bind (publish_all es s') (\<lambda>(rs, s''). Inr (r # rs, s'')))"

section \<open>Notification\<close>

definition live_subscribers :: "(event_type \<times> nat option) list \<Rightarrow> bool" where
  "live_subscribers subs \<longleftrightarrow> list_all (\<lambda>(t, h). h \<noteq> None) subs"

text \<open>The handlers an event goes to, in the order of the table.\<close>

definition handlers_of :: "(event_type \<times> nat option) list \<Rightarrow> bus_event \<Rightarrow> nat list" where
  "handlers_of subs e = map (the \<circ> snd) (filter (\<lambda>p. fst p = ev_type e) subs)"

lemma notify_live:
  "live_subscribers subs \<Longrightarrow>
     notify e subs s = Inr (s\<lparr>ev_calls := ev_calls s @ map (\<lambda>f. (f, e)) (handlers_of subs e)\<rparr>)"
proof (induction subs arbitrary: s)
  case (Cons p subs)
  then show ?case
    by (cases p) (auto simp: live_subscribers_def handlers_of_def split: option.splits)
qed (simp add: handlers_of_def)

section \<open>Filling the ring\<close>

text \<open>The ring after \<open>n\<close> accepted events: head where it started, at zero, and tail at \<open>n\<close>.\<close>

definition ring_at :: "nat \<Rightarrow> event_bus \<Rightarrow> bool" where
  "ring_at n s \<longleftrightarrow> queue_head s = 0 \<and> queue_tail s = word_of_nat n \<and> n < MAX_EVENT_QUEUE \<and>
     length (event_queue s) = MAX_EVENT_QUEUE \<and> live_subscribers (subscribers s)"

lemma ring_tail: "ring_at n s \<Longrightarrow> unat (queue_tail s) = n"
  by (simp add: ring_at_def unat_of_nat_small MAX_EVENT_QUEUE_def)

lemma publish_room:
  assumes "ring_at n s" and "n < 63"
  shows "\<exists>s'. publish_event e s = Inr (0, s') \<and> ring_at (Suc n) s' \<and> subscribers s' = subscribers s \<and>
    event_queue s' = (event_queue s)[n := e] \<and>
    ev_calls s' = ev_calls s @ map (\<lambda>f. (f, e)) (handlers_of (subscribers s) e)"
proof -
  have t: "unat (queue_tail s) = n" by (rule ring_tail [OF assms(1)])
  have nt: "next_tail (queue_tail s) = Suc n" using assms(2) by (simp add: next_tail_def t MAX_EVENT_QUEUE_def)
  have s: "queue_head s = 0" "length (event_queue s) = 64" "live_subscribers (subscribers s)"
    using assms(1) by (simp_all add: ring_at_def MAX_EVENT_QUEUE_def)
  show ?thesis
    using assms(2) by (simp add: publish_event_def nt t s ring_at_def notify_live MAX_EVENT_QUEUE_def)
qed

lemma publish_full: "ring_at 63 s \<Longrightarrow> publish_event e s = Inr (- ENOMEM, s)"
  using ring_tail [of 63 s] by (simp add: publish_event_def next_tail_def MAX_EVENT_QUEUE_def ring_at_def)

lemma publish_all_full: "ring_at 63 s \<Longrightarrow> publish_all es s = Inr (replicate (length es) (- ENOMEM), s)"
  by (induction es) (simp_all add: publish_full)

text \<open>C35: The bus accepts 63 events in its lifetime. Nothing ever takes an entry out of the ring, so
  of any number of events published after the start exactly the first 63 are stored and delivered,
  each to its subscribers in the order of the table, and every later one is refused with
  \<^verbatim>\<open>-ENOMEM\<close> without a single handler being called.\<close>

theorem events_stop_after_63:
  assumes "ring_at 0 s" and "ev_calls s = []"
  shows "\<exists>s'. publish_all es s =
      Inr (replicate (min 63 (length es)) 0 @ replicate (length es - 63) (- ENOMEM), s') \<and>
    take (min 63 (length es)) (event_queue s') = take 63 es \<and>
    ev_calls s' = concat (map (\<lambda>e. map (\<lambda>f. (f, e)) (handlers_of (subscribers s) e)) (take 63 es))"
proof -
  have room: "\<exists>s'. publish_all es s =
      Inr (replicate (min (63 - n) (length es)) 0 @ replicate (length es - (63 - n)) (- ENOMEM), s') \<and>
    take (n + min (63 - n) (length es)) (event_queue s') = take n (event_queue s) @ take (63 - n) es \<and>
    ev_calls s' = ev_calls s @ concat (map (\<lambda>e. map (\<lambda>f. (f, e)) (handlers_of (subscribers s) e)) (take (63 - n) es))"
    if "ring_at n s" for n s
    using that
  proof (induction es arbitrary: n s)
    case Nil
    then show ?case by simp
  next
    case (Cons e es)
    show ?case
    proof (cases "n < 63")
      case True
      obtain s1 where s1: "publish_event e s = Inr (0, s1)" "ring_at (Suc n) s1" "subscribers s1 = subscribers s"
        "event_queue s1 = (event_queue s)[n := e]"
        "ev_calls s1 = ev_calls s @ map (\<lambda>f. (f, e)) (handlers_of (subscribers s) e)"
        using publish_room [OF Cons.prems True] by blast
      have d: "63 - n = Suc (63 - Suc n)" using True by simp
      have len: "n < length (event_queue s)" using Cons.prems by (simp add: ring_at_def)
      have q: "take (Suc n) ((event_queue s)[n := e]) = take n (event_queue s) @ [e]"
        using len by (simp add: take_Suc_conv_app_nth)
      show ?thesis using Cons.IH [OF s1(2)] s1 q unfolding d by auto
    next
      case False
      then have "n = 63" using Cons.prems by (simp add: ring_at_def MAX_EVENT_QUEUE_def)
      then show ?thesis using publish_all_full [of s "e # es"] Cons.prems by auto
    qed
  qed
  from room [OF assms(1)] show ?thesis using assms(2) by simp
qed

text \<open>Clearing the tables does not make room, and turns the subscribers into null handlers.\<close>

lemma init_does_not_make_room:
  "ring_at 63 s \<Longrightarrow> publish_event e (event_manager_init s) = Inr (- ENOMEM, event_manager_init s)"
  using ring_tail [of 63 s]
  by (simp add: publish_event_def next_tail_def MAX_EVENT_QUEUE_def ring_at_def event_manager_init_def)

section \<open>Instances\<close>

definition fresh_bus :: event_bus where
  "fresh_bus = \<lparr>subscribers = [(EVENT_SAFETY_VIOLATION, Some 7)], event_queue = replicate MAX_EVENT_QUEUE zero_event,
     queue_head = 0, queue_tail = 0, ev_calls = []\<rparr>"

theorem events_stop_after_63_witness:
  "\<exists>s'. publish_all (replicate 70 (zero_event\<lparr>ev_type := EVENT_SAFETY_VIOLATION\<rparr>)) fresh_bus =
     Inr (replicate 63 0 @ replicate 7 (- 12), s') \<and> length (ev_calls s') = 63"
  using events_stop_after_63 [of fresh_bus "replicate 70 (zero_event\<lparr>ev_type := EVENT_SAFETY_VIOLATION\<rparr>)"]
  by (auto simp: fresh_bus_def ring_at_def live_subscribers_def MAX_EVENT_QUEUE_def handlers_of_def ENOMEM_def
      map_replicate_const length_concat sum_list_replicate)

end
