(* ===== verification/Signal_Manager.thy ===== *)
theory Signal_Manager
  imports Prelude
begin

text \<open>
  The signal queue of \<^verbatim>\<open>common/signals/signal_manager.c\<close>: a message queue of 32 signals, the thread
  that hands signals to callbacks, and the blocking receive other threads use on the same queue.
  A routine that has to wait for a signal has no result (\<open>None\<close>). Callbacks are numbers.
\<close>

definition MAX_SIGNALS :: nat where "MAX_SIGNALS = 32"
definition MAX_CALLBACKS :: nat where "MAX_CALLBACKS = 16"

text \<open>\<^verbatim>\<open>k_msgq_put\<close> answers a full queue with \<^verbatim>\<open>-ENOMSG\<close> when it may not wait.\<close>

definition ENOMSG :: int where "ENOMSG = 35"

record signal =
  sig_id :: u32
  sig_data :: nat
  sig_len :: nat
  sig_sender :: u32
  sig_receiver :: u32

record sig_state =
  callbacks :: "(u32 \<times> nat option) list"
  signal_queue :: "signal list"
  sig_calls :: "(nat \<times> signal) list"

text \<open>The table is cleared, its count is not.\<close>

definition signal_init :: "sig_state \<Rightarrow> sig_state" where
  "signal_init s = s\<lparr>callbacks := map (\<lambda>_. (0, None)) (callbacks s)\<rparr>"

definition register_signal_callback :: "u32 \<Rightarrow> nat option \<Rightarrow> sig_state \<Rightarrow> sig_state" where
  "register_signal_callback i f s =
     (if length (callbacks s) < MAX_CALLBACKS then s\<lparr>callbacks := callbacks s @ [(i, f)]\<rparr> else s)"

interpretation callback_table: bounded_table MAX_CALLBACKS callbacks "\<lambda>(i, f). register_signal_callback i f"
  by unfold_locales (auto simp: register_signal_callback_def)

definition signal_send :: "signal \<Rightarrow> sig_state \<Rightarrow> int \<times> sig_state" where
  "signal_send x s =
     (if length (signal_queue s) < MAX_SIGNALS then (0, s\<lparr>signal_queue := signal_queue s @ [x]\<rparr>)
      else (- ENOMSG, s))"

definition signal_receive :: "u32 \<Rightarrow> sig_state \<Rightarrow> (int \<times> signal \<times> sig_state) option" where
  "signal_receive i s =
     (case signal_queue s of
        [] \<Rightarrow> None
      | x # xs \<Rightarrow> Some (if sig_id x = i then 0 else - EAGAIN, x, s\<lparr>signal_queue := xs\<rparr>))"

fun dispatch :: "signal \<Rightarrow> (u32 \<times> nat option) list \<Rightarrow> sig_state \<Rightarrow> sig_state res" where
  "dispatch x [] s = Inr s"
| "dispatch x ((i, f) # cbs) s =
     (if i = sig_id x then
        (case f of None \<Rightarrow> Inl Null_Call
         | Some g \<Rightarrow> dispatch x cbs (s\<lparr>sig_calls := sig_calls s @ [(g, x)]\<rparr>))
      else dispatch x cbs s)"

text \<open>One round of the processing thread, with the signal it took.\<close>

definition process_signal :: "sig_state \<Rightarrow> (signal \<times> sig_state res) option" where
  "process_signal s =
     (case signal_queue s of
        [] \<Rightarrow> None
      | x # xs \<Rightarrow> Some (x, dispatch x (callbacks s) (s\<lparr>signal_queue := xs\<rparr>)))"

section \<open>Interleavings\<close>

text \<open>
  What happens on the queue, in the order it happens: a send with its result, a receive of a
  thread that waits for an identifier, with the signal it got and its result, a round of the
  processing thread with the signal it took.
\<close>

datatype sig_event = Sent signal int | Received u32 signal int | Processed signal

inductive sig_step :: "sig_state \<Rightarrow> sig_event \<Rightarrow> sig_state \<Rightarrow> bool" where
  send: "signal_send x s = (r, s') \<Longrightarrow> sig_step s (Sent x r) s'"
| receive: "signal_receive i s = Some (r, x, s') \<Longrightarrow> sig_step s (Received i x r) s'"
| process: "process_signal s = Some (x, Inr s') \<Longrightarrow> sig_step s (Processed x) s'"

inductive_cases sig_step_elims: "sig_step s (Sent x r) s'" "sig_step s (Received i x r) s'"
  "sig_step s (Processed x) s'"

inductive sig_run :: "sig_state \<Rightarrow> sig_event list \<Rightarrow> sig_state \<Rightarrow> bool" where
  stop: "sig_run s [] s"
| step: "sig_step s e u \<Longrightarrow> sig_run u es s' \<Longrightarrow> sig_run s (e # es) s'"

fun accepted :: "sig_event list \<Rightarrow> signal list" where
  "accepted [] = []"
| "accepted (Sent x r # es) = (if r = 0 then x # accepted es else accepted es)"
| "accepted (_ # es) = accepted es"

fun consumed :: "sig_event list \<Rightarrow> signal list" where
  "consumed [] = []"
| "consumed (Sent x r # es) = consumed es"
| "consumed (Received i x r # es) = x # consumed es"
| "consumed (Processed x # es) = x # consumed es"

definition callbacks_of :: "(u32 \<times> nat option) list \<Rightarrow> signal \<Rightarrow> nat list" where
  "callbacks_of cbs x = map (the \<circ> snd) (filter (\<lambda>p. fst p = sig_id x) cbs)"

fun calls_made :: "(u32 \<times> nat option) list \<Rightarrow> sig_event list \<Rightarrow> (nat \<times> signal) list" where
  "calls_made cbs [] = []"
| "calls_made cbs (Processed x # es) = map (\<lambda>f. (f, x)) (callbacks_of cbs x) @ calls_made cbs es"
| "calls_made cbs (_ # es) = calls_made cbs es"

lemma dispatch_calls:
  "dispatch x cbs s = Inr s' \<Longrightarrow>
     s' = s\<lparr>sig_calls := sig_calls s @ map (\<lambda>f. (f, x)) (callbacks_of cbs x)\<rparr>"
proof (induction cbs arbitrary: s)
  case (Cons p cbs)
  obtain i f where p: "p = (i, f)" by (cases p)
  show ?case
  proof (cases "i = sig_id x")
    case True
    then obtain g where g: "f = Some g" "dispatch x cbs (s\<lparr>sig_calls := sig_calls s @ [(g, x)]\<rparr>) = Inr s'"
      using Cons.prems by (auto simp: p split: option.splits)
    show ?thesis using Cons.IH [OF g(2)] g(1) True by (simp add: p callbacks_of_def)
  next
    case False
    then show ?thesis using Cons.IH [of s] Cons.prems by (simp add: p callbacks_of_def)
  qed
qed (simp add: callbacks_of_def)

lemma sig_run_account:
  assumes "sig_run s es s'"
  shows "signal_queue s @ accepted es = consumed es @ signal_queue s' \<and> callbacks s' = callbacks s \<and>
    sig_calls s' = sig_calls s @ calls_made (callbacks s) es \<and>
    (length (signal_queue s) \<le> MAX_SIGNALS \<longrightarrow> length (signal_queue s') \<le> MAX_SIGNALS)"
  using assms
proof induction
  case (step s e u es s')
  from step.hyps(1) show ?case
  proof cases
    case (send x r)
    then show ?thesis using step.IH by (auto simp: signal_send_def ENOMSG_def split: if_splits)
  next
    case (receive i r x)
    then show ?thesis using step.IH by (auto simp: signal_receive_def split: list.splits if_splits)
  next
    case (process x)
    then obtain xs where "signal_queue s = x # xs" "dispatch x (callbacks s) (s\<lparr>signal_queue := xs\<rparr>) = Inr u"
      by (auto simp: process_signal_def split: list.splits)
    then show ?thesis using step.IH dispatch_calls process by fastforce
  qed
qed simp

text \<open>C22: Signals leave the queue in the order they were accepted and each exactly once: in every
  interleaving of senders, receivers and the processing thread, the accepted signals are the
  consumed ones followed by the queue, which never holds more than 32. Only what the thread
  consumes reaches callbacks, so a signal taken by a receiver that waits for another identifier
  gives that receiver an error and is lost to everybody.\<close>

theorem signals_consumed_once:
  assumes "sig_run s es s'" and "signal_queue s = []" and "sig_calls s = []"
  shows "accepted es = consumed es @ signal_queue s' \<and> length (signal_queue s') \<le> 32 \<and>
    sig_calls s' = calls_made (callbacks s) es \<and>
    (\<forall>i x r. Received i x r \<in> set es \<longrightarrow> (if sig_id x = i then r = 0 else r = - EAGAIN))"
proof -
  have "(\<forall>i x r. Received i x r \<in> set es \<longrightarrow> (if sig_id x = i then r = 0 else r = - EAGAIN))"
    using assms(1)
  proof induction
    case (step s e u es s')
    then show ?case by (auto simp: signal_receive_def elim!: sig_step.cases split: list.splits)
  qed simp
  then show ?thesis using sig_run_account [OF assms(1)] assms(2,3) by (simp add: MAX_SIGNALS_def)
qed

section \<open>Instances\<close>

definition demo_signal :: "u32 \<Rightarrow> signal" where
  "demo_signal i = \<lparr>sig_id = i, sig_data = 0, sig_len = 0, sig_sender = 1, sig_receiver = 2\<rparr>"

definition demo_queue :: sig_state where
  "demo_queue = \<lparr>callbacks = [(1, Some 9)], signal_queue = [], sig_calls = []\<rparr>"

theorem signals_consumed_once_witness:
  "\<exists>s'. sig_run demo_queue [Sent (demo_signal 1) 0, Received 2 (demo_signal 1) (- EAGAIN)] s' \<and>
     signal_queue s' = [] \<and> sig_calls s' = []"
proof -
  let ?es = "[Sent (demo_signal 1) 0, Received 2 (demo_signal 1) (- EAGAIN)]"
  let ?u = "demo_queue\<lparr>signal_queue := [demo_signal 1]\<rparr>"
  have run: "sig_run demo_queue ?es demo_queue"
  proof (rule sig_run.step)
    show "sig_step demo_queue (Sent (demo_signal 1) 0) ?u"
      by (rule sig_step.send) (simp add: signal_send_def demo_queue_def MAX_SIGNALS_def)
    show "sig_run ?u [Received 2 (demo_signal 1) (- EAGAIN)] demo_queue"
      by (rule sig_run.step [OF sig_step.receive sig_run.stop])
        (simp add: signal_receive_def demo_queue_def demo_signal_def)
  qed
  from signals_consumed_once [OF run] show ?thesis using run by (auto simp: demo_queue_def)
qed

end
