(* ===== verification/Power_Manager.thy ===== *)
theory Power_Manager
  imports Prelude
begin

text \<open>
  The power states of \<^verbatim>\<open>common/power/power_manager.c\<close>. Zephyr keeps a count per power state of the
  locks that forbid it: \<^verbatim>\<open>pm_policy_state_lock_get\<close> adds one, \<^verbatim>\<open>pm_policy_state_lock_put\<close> takes one
  away, and the state may be entered while the count is zero. The counts are integers here, so
  that an unbalanced release is visible. The numbers of the wake events are not declared in the
  repository and are the parameter \<open>wake\<close>; the calls out of the file are recorded.
\<close>

datatype power_state = POWER_STATE_ACTIVE | POWER_STATE_IDLE | POWER_STATE_STANDBY | POWER_STATE_OFF

record wake_events =
  WAKE_CAN_MSG :: u32
  WAKE_TIMER :: u32
  WAKE_EXTERNAL :: u32

datatype pm_call = Wakeup_Enable_Can | Prepare_System_Off | Force_Soft_Off | Resume_Can_Operations
  | Handle_Timer_Wakeup | Handle_External_Wakeup | Configure_Gpio_Wakeup

record power =
  pm_state :: power_state
  enabled_wake_sources :: u32
  idle_locks :: int
  ram_locks :: int
  pm_calls :: "pm_call list"

definition pm_call :: "pm_call \<Rightarrow> power \<Rightarrow> power" where
  "pm_call c s = s\<lparr>pm_calls := pm_calls s @ [c]\<rparr>"

definition power_boot :: power where
  "power_boot = \<lparr>pm_state = POWER_STATE_ACTIVE, enabled_wake_sources = 0, idle_locks = 0, ram_locks = 0, pm_calls = []\<rparr>"

definition power_manager_init :: "power \<Rightarrow> power" where
  "power_manager_init s = (pm_call Wakeup_Enable_Can s)\<lparr>idle_locks := idle_locks s + 1\<rparr>"

definition set_power_state :: "power_state \<Rightarrow> power \<Rightarrow> power" where
  "set_power_state st s =
     (case st of
        POWER_STATE_IDLE \<Rightarrow> s\<lparr>idle_locks := idle_locks s - 1\<rparr>
      | POWER_STATE_STANDBY \<Rightarrow> s\<lparr>ram_locks := ram_locks s + 1\<rparr>
      | POWER_STATE_OFF \<Rightarrow> pm_call Force_Soft_Off (pm_call Prepare_System_Off s)
      | POWER_STATE_ACTIVE \<Rightarrow> s)\<lparr>pm_state := st\<rparr>"

definition handle_wake_event :: "wake_events \<Rightarrow> u32 \<Rightarrow> power \<Rightarrow> power" where
  "handle_wake_event wake event s =
     (if event = WAKE_CAN_MSG wake then
        (if pm_state s \<noteq> POWER_STATE_ACTIVE then
           pm_call Resume_Can_Operations (set_power_state POWER_STATE_ACTIVE s)
         else s)
      else if event = WAKE_TIMER wake then pm_call Handle_Timer_Wakeup s
      else if event = WAKE_EXTERNAL wake then pm_call Handle_External_Wakeup s
      else s)"

definition configure_wake_sources :: "wake_events \<Rightarrow> u32 \<Rightarrow> power \<Rightarrow> power" where
  "configure_wake_sources wake sources s =
     (let s1 = s\<lparr>enabled_wake_sources := sources\<rparr>;
          s2 = (if sources AND WAKE_CAN_MSG wake \<noteq> 0 then pm_call Wakeup_Enable_Can s1 else s1)
      in if sources AND WAKE_EXTERNAL wake \<noteq> 0 then pm_call Configure_Gpio_Wakeup s2 else s2)"

section \<open>Lock accounting\<close>

datatype power_op = Set power_state | Wake u32 | Configure u32

fun power_step :: "wake_events \<Rightarrow> power \<Rightarrow> power_op \<Rightarrow> power" where
  "power_step wake s (Set st) = set_power_state st s"
| "power_step wake s (Wake e) = handle_wake_event wake e s"
| "power_step wake s (Configure src) = configure_wake_sources wake src s"

lemma power_step_locks:
  "idle_locks (power_step wake s op) = idle_locks s - (if op = Set POWER_STATE_IDLE then 1 else 0)"
  "ram_locks (power_step wake s op) = ram_locks s + (if op = Set POWER_STATE_STANDBY then 1 else 0)"
  by (cases op; simp add: set_power_state_def handle_wake_event_def configure_wake_sources_def pm_call_def Let_def
      split: power_state.splits)+

lemma power_run_locks:
  "idle_locks (foldl (power_step wake) s ops) = idle_locks s - int (count_list ops (Set POWER_STATE_IDLE)) \<and>
   ram_locks (foldl (power_step wake) s ops) = ram_locks s + int (count_list ops (Set POWER_STATE_STANDBY))"
  by (induction ops arbitrary: s) (simp_all add: power_step_locks)

text \<open>The locks are never given back the way they were taken: after the initialisation and any
  sequence of requests and wake events the standby state holds one lock against suspend-to-RAM per
  request, so the first request for standby forbids it for good, and the lock against
  suspend-to-idle taken at the start is released once per request for idle, so the second request
  releases what nobody holds.\<close>

lemma power_locks_unbalanced:
  "ram_locks (foldl (power_step wake) (power_manager_init power_boot) ops) =
     int (count_list ops (Set POWER_STATE_STANDBY)) \<and>
   idle_locks (foldl (power_step wake) (power_manager_init power_boot) ops) =
     1 - int (count_list ops (Set POWER_STATE_IDLE))"
  by (simp add: power_run_locks power_manager_init_def power_boot_def pm_call_def)

text \<open>The configured wake sources are stored and never read.\<close>

lemma wake_sources_ignored:
  "handle_wake_event wake e (s\<lparr>enabled_wake_sources := w\<rparr>) = (handle_wake_event wake e s)\<lparr>enabled_wake_sources := w\<rparr>"
  by (cases s) (simp add: handle_wake_event_def set_power_state_def pm_call_def)

end
