(* ===== verification/Emergency_Handler.thy ===== *)
theory Emergency_Handler
  imports Asil
begin

text \<open>
  The emergency handler of \<^verbatim>\<open>vcu/src/emergency_handler.c\<close>: up to three recovery attempts with a
  growing pause between them, then the safe state.

  The header with the event numbers and the layouts of the event data is not part of the
  repository: they are the parameter \<open>cfg\<close>, which gives the numbers, the sizes of the four
  structures, and reads the one field the control flow depends on. The actuators and checks the
  recovery routines call are answered by \<open>ext\<close>, with C's truth value of their result; they are
  given the event data, from which the code takes their argument.
\<close>

definition MAX_EMERGENCY_RETRIES :: nat where "MAX_EMERGENCY_RETRIES = 3"
definition EMERGENCY_BACKOFF_MS :: nat where "EMERGENCY_BACKOFF_MS = 100"

record em_config =
  EMERGENCY_COLLISION_RISK :: u32
  EMERGENCY_BRAKE_FAILURE :: u32
  EMERGENCY_SENSOR_ERROR :: u32
  EMERGENCY_SYSTEM_ERROR :: u32
  EMERGENCY_COMMUNICATION_ERROR :: u32
  sizeof_collision_data :: nat
  sizeof_brake_status :: nat
  sizeof_sensor_error :: nat
  sizeof_system_error :: nat
  sizeof_comm_error :: nat
  backup_available :: "bytes \<Rightarrow> bool"

datatype em_state = EMERGENCY_STATE_NORMAL | EMERGENCY_STATE_ACTIVE

datatype em_call =
    Activate_Emergency_Brake | Verify_Brake_State
  | Reset_Brake_System | Activate_Backup_Brake | Verify_Brake_Redundancy
  | Recover_Sensor bytes | Switch_To_Redundant_Sensor bytes | Em_Verify_Sensor_Readings bytes
  | Reset_System_Component bytes | Verify_System_State bytes
  | Reset_Comm_Interface bytes | Activate_Comm_Fallback bytes | Verify_Communication_State bytes

type_synonym 'x em_env = "em_call \<Rightarrow> 'x \<Rightarrow> bool \<times> 'x"

record 'x emergency =
  emergency_state :: em_state
  emergency_count :: u32
  em_kernel :: "'x safety"

definition call_em :: "'x em_env \<Rightarrow> em_call \<Rightarrow> 'x safety \<Rightarrow> bool \<times> 'x safety" where
  "call_em ext c k = (let (b, x) = ext c (env k) in (b, k\<lparr>env := x\<rparr>))"

section \<open>Recovery routines\<close>

definition handle_collision_risk :: "em_config \<Rightarrow> 'x em_env \<Rightarrow> bytes \<Rightarrow> 'x safety \<Rightarrow> bool \<times> 'x safety" where
  "handle_collision_risk cfg ext data k =
     (if length data < sizeof_collision_data cfg then (False, k)
      else
        (let (failed, k1) = call_em ext Activate_Emergency_Brake k in
         if failed then (False, k1)
         else
           (let (ok, k2) = call_em ext Verify_Brake_State k1 in
            if \<not> ok then (False, k2) else (True, k2))))"

definition handle_brake_failure :: "em_config \<Rightarrow> 'x em_env \<Rightarrow> bytes \<Rightarrow> 'x safety \<Rightarrow> bool \<times> 'x safety" where
  "handle_brake_failure cfg ext data k =
     (if length data < sizeof_brake_status cfg then (False, k)
      else
        (let (failed, k1) = call_em ext Reset_Brake_System k in
         if failed then (False, k1)
         else if backup_available cfg data then
           (let (failed', k2) = call_em ext Activate_Backup_Brake k1 in
            if failed' then (False, k2) else call_em ext Verify_Brake_Redundancy k2)
         else call_em ext Verify_Brake_Redundancy k1))"

definition handle_sensor_emergency :: "em_config \<Rightarrow> 'x em_env \<Rightarrow> bytes \<Rightarrow> 'x safety \<Rightarrow> bool \<times> 'x safety" where
  "handle_sensor_emergency cfg ext data k =
     (if length data < sizeof_sensor_error cfg then (False, k)
      else
        (let (failed, k1) = call_em ext (Recover_Sensor data) k in
         if failed then
           (let (switched, k2) = call_em ext (Switch_To_Redundant_Sensor data) k1 in
            if \<not> switched then (False, k2) else call_em ext (Em_Verify_Sensor_Readings data) k2)
         else call_em ext (Em_Verify_Sensor_Readings data) k1))"

definition handle_system_emergency :: "em_config \<Rightarrow> 'x em_env \<Rightarrow> bytes \<Rightarrow> 'x safety \<Rightarrow> bool \<times> 'x safety" where
  "handle_system_emergency cfg ext data k =
     (if length data < sizeof_system_error cfg then (False, k)
      else
        (let (failed, k1) = call_em ext (Reset_System_Component data) k in
         if failed then (False, k1) else call_em ext (Verify_System_State data) k1))"

definition handle_communication_emergency :: "em_config \<Rightarrow> 'x em_env \<Rightarrow> bytes \<Rightarrow> 'x safety \<Rightarrow> bool \<times> 'x safety" where
  "handle_communication_emergency cfg ext data k =
     (if length data < sizeof_comm_error cfg then (False, k)
      else
        (let (failed, k1) = call_em ext (Reset_Comm_Interface data) k in
         if failed then (False, k1)
         else
           (let (failed', k2) = call_em ext (Activate_Comm_Fallback data) k1 in
            if failed' then (False, k2) else call_em ext (Verify_Communication_State data) k2)))"

text \<open>The routine for an event type; \<open>None\<close> is the default branch of the switch.\<close>

definition em_routine :: "em_config \<Rightarrow> 'x em_env \<Rightarrow> u32 \<Rightarrow> (bytes \<Rightarrow> 'x safety \<Rightarrow> bool \<times> 'x safety) option" where
  "em_routine cfg ext event_type =
     (if event_type = EMERGENCY_COLLISION_RISK cfg then Some (handle_collision_risk cfg ext)
      else if event_type = EMERGENCY_BRAKE_FAILURE cfg then Some (handle_brake_failure cfg ext)
      else if event_type = EMERGENCY_SENSOR_ERROR cfg then Some (handle_sensor_emergency cfg ext)
      else if event_type = EMERGENCY_SYSTEM_ERROR cfg then Some (handle_system_emergency cfg ext)
      else if event_type = EMERGENCY_COMMUNICATION_ERROR cfg then Some (handle_communication_emergency cfg ext)
      else None)"

section \<open>The event loop\<close>

function recovery_loop ::
  "(bytes \<Rightarrow> 'x safety \<Rightarrow> bool \<times> 'x safety) \<Rightarrow> bytes \<Rightarrow> nat \<Rightarrow> 'x safety \<Rightarrow> bool \<times> 'x safety" where
  "recovery_loop routine data retry_count k =
     (if MAX_EMERGENCY_RETRIES \<le> retry_count then (False, k)
      else
        (let (recovered, k1) = routine data k in
         if recovered then (True, k1)
         else recovery_loop routine data (retry_count + 1)
                (sleep (EMERGENCY_BACKOFF_MS * 2 ^ (retry_count + 1)) k1)))"
  by pat_completeness auto
termination
  by (relation "measure (\<lambda>(_, _, n, _). MAX_EMERGENCY_RETRIES - n)") auto

declare recovery_loop.simps [simp del]

definition stop_emergency :: "'x asil_env \<Rightarrow> 'x emergency \<Rightarrow> 'x emergency outcome" where
  "stop_emergency aext s =
     (case enter_safe_state aext (em_kernel s) of
        Halted k \<Rightarrow> Halted (s\<lparr>em_kernel := k\<rparr>)
      | Running k \<Rightarrow> Running (s\<lparr>em_kernel := k\<rparr>))"

definition handle_emergency_event ::
  "em_config \<Rightarrow> 'x asil_env \<Rightarrow> 'x em_env \<Rightarrow> u32 \<Rightarrow> bytes \<Rightarrow> 'x emergency \<Rightarrow> 'x emergency outcome" where
  "handle_emergency_event cfg aext ext event_type data s =
     (let s1 = s\<lparr>emergency_count := emergency_count s + 1, emergency_state := EMERGENCY_STATE_ACTIVE\<rparr> in
      case em_routine cfg ext event_type of
        None \<Rightarrow> stop_emergency aext s1
      | Some routine \<Rightarrow>
          (let (recovered, k) = recovery_loop routine data 0 (em_kernel s1) in
           if recovered then
             Running (s1\<lparr>emergency_state := EMERGENCY_STATE_NORMAL, emergency_count := 0, em_kernel := k\<rparr>)
           else stop_emergency aext (s1\<lparr>em_kernel := k\<rparr>)))"

definition get_emergency_state :: "'x emergency \<Rightarrow> em_state" where
  "get_emergency_state s = emergency_state s"

definition get_emergency_count :: "'x emergency \<Rightarrow> u32" where
  "get_emergency_count s = emergency_count s"

section \<open>The loop unrolled\<close>

text \<open>The kernel before attempt \<open>n\<close>, counted from zero, if the ones before it failed.\<close>

primrec before_attempt :: "('x safety \<Rightarrow> bool \<times> 'x safety) \<Rightarrow> nat \<Rightarrow> 'x safety \<Rightarrow> 'x safety" where
  "before_attempt f 0 k = k"
| "before_attempt f (Suc n) k = sleep (100 * 2 ^ (n + 1)) (snd (f (before_attempt f n k)))"

lemma recovery_loop_unrolled:
  "recovery_loop f d 0 k =
     (if fst (f d k) then (True, snd (f d k))
      else if fst (f d (before_attempt (f d) 1 k)) then (True, snd (f d (before_attempt (f d) 1 k)))
      else if fst (f d (before_attempt (f d) 2 k)) then (True, snd (f d (before_attempt (f d) 2 k)))
      else (False, before_attempt (f d) 3 k))"
  by (simp add: recovery_loop.simps MAX_EMERGENCY_RETRIES_def EMERGENCY_BACKOFF_MS_def case_prod_beta
      numeral_2_eq_2 numeral_3_eq_3)

lemma routines_keep_clock:
  assumes "em_routine cfg ext e = Some f"
  shows "clock (snd (f d k)) = clock k"
proof -
  have c: "clock (snd (call_em ext c k)) = clock k" for c k by (simp add: call_em_def case_prod_beta)
  show ?thesis
    using assms
    by (auto simp: em_routine_def handle_collision_risk_def handle_brake_failure_def handle_sensor_emergency_def
        handle_system_emergency_def handle_communication_emergency_def case_prod_beta c split: if_splits)
qed

lemma before_attempt_clock:
  "em_routine cfg ext e = Some f \<Longrightarrow> clock (before_attempt (f d) n k) = clock k + 100 * (2 ^ (n + 1) - 2)"
proof (induction n)
  case (Suc n)
  obtain x where "(2::nat) ^ n = Suc x" by (cases "(2::nat) ^ n") auto
  then show ?case using Suc by (simp add: routines_keep_clock)
qed simp

lemma stop_emergency_halts:
  "\<exists>t. stop_emergency aext s = Halted t \<and> current_state (em_kernel t) = SAFETY_STATE_SAFE_STOP \<and>
     clock (em_kernel t) = clock (em_kernel s) \<and> emergency_state t = emergency_state s \<and>
     emergency_count t = emergency_count s"
  by (simp add: stop_emergency_def enter_safe_state_def Let_def)

lemma handler_recovers:
  assumes "em_routine cfg ext e = Some f" and "n < 3"
    and "\<forall>i < n. \<not> fst (f d (before_attempt (f d) i (em_kernel s)))"
    and "fst (f d (before_attempt (f d) n (em_kernel s)))"
  shows "handle_emergency_event cfg aext ext e d s =
    Running (s\<lparr>emergency_state := EMERGENCY_STATE_NORMAL, emergency_count := 0,
               em_kernel := snd (f d (before_attempt (f d) n (em_kernel s)))\<rparr>)"
proof -
  let ?k = "em_kernel s"
  let ?ok = "\<lambda>i. fst (f d (before_attempt (f d) i ?k))"
  consider "n = 0" | "n = 1" | "n = 2" using assms(2) by linarith
  then have "recovery_loop f d 0 ?k = (True, snd (f d (before_attempt (f d) n ?k)))"
  proof cases
    case 3
    then have "\<not> ?ok 0" "\<not> ?ok 1" "?ok 2"
      using assms(3) [rule_format, of 0] assms(3) [rule_format, of 1] assms(4) by simp_all
    then show ?thesis using 3 by (simp add: recovery_loop_unrolled)
  qed (use assms in \<open>auto simp: recovery_loop_unrolled\<close>)
  then show ?thesis by (cases s) (simp add: handle_emergency_event_def assms(1))
qed

lemma handler_fails:
  assumes "em_routine cfg ext e = Some f"
    and "\<forall>i < 3. \<not> fst (f d (before_attempt (f d) i (em_kernel s)))"
  shows "handle_emergency_event cfg aext ext e d s =
    stop_emergency aext (s\<lparr>emergency_count := emergency_count s + 1, emergency_state := EMERGENCY_STATE_ACTIVE,
      em_kernel := before_attempt (f d) 3 (em_kernel s)\<rparr>)"
proof -
  let ?ok = "\<lambda>i. fst (f d (before_attempt (f d) i (em_kernel s)))"
  have "\<not> ?ok 0" "\<not> ?ok 1" "\<not> ?ok 2"
    using assms(2) [rule_format, of 0] assms(2) [rule_format, of 1] assms(2) [rule_format, of 2] by simp_all
  then have "recovery_loop f d 0 (em_kernel s) = (False, before_attempt (f d) 3 (em_kernel s))"
    by (simp add: recovery_loop_unrolled)
  then show ?thesis by (simp add: handle_emergency_event_def assms(1))
qed

text \<open>C23: A known emergency ends in one of two ways. If the first, second or third attempt of its
  recovery routine succeeds, the handler returns after no pause, 200 ms or 600 ms, the state is
  normal again and the count of emergencies is zero. If all three fail the node is in the safe
  state 1.4 s after the event, and the emergency stays active and counted.\<close>

theorem emergency_outcome:
  assumes "em_routine cfg ext e = Some f"
  shows "(\<exists>n < 3. \<exists>t. handle_emergency_event cfg aext ext e d s = Running t \<and>
            (\<forall>i < n. \<not> fst (f d (before_attempt (f d) i (em_kernel s)))) \<and>
            fst (f d (before_attempt (f d) n (em_kernel s))) \<and>
            get_emergency_state t = EMERGENCY_STATE_NORMAL \<and> get_emergency_count t = 0 \<and>
            clock (em_kernel t) = clock (em_kernel s) + 100 * (2 ^ (n + 1) - 2)) \<or>
         (\<exists>t. handle_emergency_event cfg aext ext e d s = Halted t \<and>
            (\<forall>i < 3. \<not> fst (f d (before_attempt (f d) i (em_kernel s)))) \<and>
            current_state (em_kernel t) = SAFETY_STATE_SAFE_STOP \<and>
            get_emergency_state t = EMERGENCY_STATE_ACTIVE \<and> get_emergency_count t = emergency_count s + 1 \<and>
            clock (em_kernel t) = clock (em_kernel s) + 1400)"
    (is "?returns \<or> ?stops")
proof (cases "\<exists>n < 3. fst (f d (before_attempt (f d) n (em_kernel s)))")
  case True
  let ?ok = "\<lambda>i. fst (f d (before_attempt (f d) i (em_kernel s)))"
  let ?n = "LEAST n. ?ok n"
  let ?t = "s\<lparr>emergency_state := EMERGENCY_STATE_NORMAL, emergency_count := 0,
      em_kernel := snd (f d (before_attempt (f d) ?n (em_kernel s)))\<rparr>"
  obtain m where m: "m < 3" "?ok m" using True by blast
  have n: "?n < 3" "?ok ?n" "\<forall>i < ?n. \<not> ?ok i"
    using LeastI [of ?ok m] Least_le [of ?ok m] not_less_Least [of _ ?ok] m by auto
  have "clock (em_kernel ?t) = clock (em_kernel s) + 100 * (2 ^ (?n + 1) - 2)"
    using before_attempt_clock [OF assms, of d] routines_keep_clock [OF assms, of d] by simp
  then have ?returns
    using n handler_recovers [OF assms n(1,3,2)]
    by (intro exI [of _ ?n] conjI exI [of _ ?t]) (simp_all add: get_emergency_state_def get_emergency_count_def)
  then show ?thesis ..
next
  case False
  let ?s = "s\<lparr>emergency_count := emergency_count s + 1, emergency_state := EMERGENCY_STATE_ACTIVE,
      em_kernel := before_attempt (f d) 3 (em_kernel s)\<rparr>"
  have "handle_emergency_event cfg aext ext e d s = stop_emergency aext ?s"
    using handler_fails [OF assms] False by blast
  then have ?stops
    using False stop_emergency_halts [of aext ?s] before_attempt_clock [OF assms, of d 3 "em_kernel s"]
    by (auto simp: get_emergency_state_def get_emergency_count_def)
  then show ?thesis ..
qed

section \<open>Truncated event data\<close>

definition needed_size :: "em_config \<Rightarrow> u32 \<Rightarrow> nat" where
  "needed_size cfg e =
     (if e = EMERGENCY_COLLISION_RISK cfg then sizeof_collision_data cfg
      else if e = EMERGENCY_BRAKE_FAILURE cfg then sizeof_brake_status cfg
      else if e = EMERGENCY_SENSOR_ERROR cfg then sizeof_sensor_error cfg
      else if e = EMERGENCY_SYSTEM_ERROR cfg then sizeof_system_error cfg
      else sizeof_comm_error cfg)"

lemma short_data_fails:
  "em_routine cfg ext e = Some f \<Longrightarrow> length d < needed_size cfg e \<Longrightarrow> f d k = (False, k)"
  by (auto simp: em_routine_def needed_size_def handle_collision_risk_def handle_brake_failure_def
      handle_sensor_emergency_def handle_system_emergency_def handle_communication_emergency_def
      split: if_splits)

text \<open>An event whose data is shorter than its structure stops the node: the size is checked
  inside the retried routine, so the handler waits out all three attempts, calls no actuator in
  any of them, and enters the safe state after 1.4 s with the environment as it was.\<close>

lemma truncated_event_stops_node:
  assumes "em_routine cfg ext e = Some f" and "length d < needed_size cfg e"
  shows "handle_emergency_event cfg aext ext e d s =
    stop_emergency aext (s\<lparr>emergency_count := emergency_count s + 1, emergency_state := EMERGENCY_STATE_ACTIVE,
      em_kernel := sleep 1400 (em_kernel s)\<rparr>)"
proof -
  have "f d k = (False, k)" for k by (rule short_data_fails [OF assms])
  then have "recovery_loop f d 0 (em_kernel s) = (False, sleep 1400 (em_kernel s))"
    by (simp add: recovery_loop_unrolled numeral_3_eq_3 sleep_def)
  then show ?thesis by (simp add: handle_emergency_event_def assms(1))
qed

section \<open>Instances\<close>

definition demo_config :: em_config where
  "demo_config = \<lparr>EMERGENCY_COLLISION_RISK = 1, EMERGENCY_BRAKE_FAILURE = 2, EMERGENCY_SENSOR_ERROR = 3,
     EMERGENCY_SYSTEM_ERROR = 4, EMERGENCY_COMMUNICATION_ERROR = 5, sizeof_collision_data = 8,
     sizeof_brake_status = 8, sizeof_sensor_error = 8, sizeof_system_error = 8, sizeof_comm_error = 8,
     backup_available = (\<lambda>d. d ! 0 \<noteq> 0)\<rparr>"

definition demo_emergency :: "unit emergency" where
  "demo_emergency = \<lparr>emergency_state = EMERGENCY_STATE_NORMAL, emergency_count = 0, em_kernel = fresh_node\<rparr>"

text \<open>The brake answers the activation, the verification never succeeds.\<close>

definition stuck_brake :: "unit em_env" where
  "stuck_brake c x = (False, x)"

theorem emergency_outcome_witness:
  "\<exists>t. handle_emergency_event demo_config (\<lambda>_ x. (True, x)) stuck_brake 1 (replicate 8 0) demo_emergency = Halted t \<and>
     clock (em_kernel t) = 1500"
proof -
  have r: "em_routine demo_config stuck_brake 1 = Some (handle_collision_risk demo_config stuck_brake)"
    by (simp add: em_routine_def demo_config_def)
  have "\<not> fst (handle_collision_risk demo_config stuck_brake (replicate 8 0) k)" for k
    by (simp add: handle_collision_risk_def call_em_def stuck_brake_def)
  with emergency_outcome [OF r, of "\<lambda>_ x. (True, x)" "replicate 8 0" demo_emergency] show ?thesis
    by (auto simp: demo_emergency_def fresh_node_def)
qed

lemma truncated_event_stops_node_witness:
  "handle_emergency_event demo_config (\<lambda>_ x. (True, x)) stuck_brake 1 [1, 2, 3] demo_emergency =
     stop_emergency (\<lambda>_ x. (True, x)) (demo_emergency\<lparr>emergency_count := 1,
       emergency_state := EMERGENCY_STATE_ACTIVE, em_kernel := sleep 1400 fresh_node\<rparr>)"
proof -
  have r: "em_routine demo_config stuck_brake 1 = Some (handle_collision_risk demo_config stuck_brake)"
    by (simp add: em_routine_def demo_config_def)
  show ?thesis
    using truncated_event_stops_node [OF r, of "[1, 2, 3]" "\<lambda>_ x. (True, x)" demo_emergency]
    by (simp add: needed_size_def demo_config_def demo_emergency_def)
qed

end
