(* ===== verification/Wifi_Provisioning.thy ===== *)
theory Wifi_Provisioning
  imports Prelude
begin

text \<open>
  The WiFi provisioning over BLE: the GATT write callbacks of \<^verbatim>\<open>vcu/src/main.c\<close> and the stored
  credentials of \<^verbatim>\<open>vcu/src/wifi_config.c\<close>.

  The two static arrays of the callbacks keep their content between writes. Strings are byte
  arrays; a search for the terminating zero that finds none runs out of the array. The secure
  storage and the network stack are outside: what is handed to them is recorded. What
  \<^verbatim>\<open>get_stored_ssid\<close> answers, which the repository does not define, is the parameter \<open>stored\<close>.
\<close>

definition MAX_SSID_LEN :: nat where "MAX_SSID_LEN = 32"
definition MAX_PSK_LEN :: nat where "MAX_PSK_LEN = 64"
definition INVALID_OFFSET :: int where "INVALID_OFFSET = -7"

record wifi =
  ssid_buf :: bytes
  pass_buf :: bytes
  cred_ssid :: bytes
  cred_pass :: bytes
  storage_log :: "(string \<times> bytes) list"
  connect_log :: "(bytes \<times> bytes) list"

definition c_strlen :: "bytes \<Rightarrow> nat res" where
  "c_strlen b = (if 0 \<in> set b then Inr (length (takeWhile (\<lambda>c. c \<noteq> 0) b)) else Inl Out_Of_Bounds)"

definition c_string :: "bytes \<Rightarrow> bytes" where
  "c_string b = takeWhile (\<lambda>c. c \<noteq> 0) b"

text \<open>\<open>strncpy(dst, src, n)\<close> pads with zeros up to \<open>n\<close>.\<close>

definition c_strncpy :: "bytes \<Rightarrow> bytes \<Rightarrow> nat \<Rightarrow> bytes" where
  "c_strncpy dst src n = take n (c_string src @ replicate n 0) @ drop n dst"

definition wifi_boot :: wifi where
  "wifi_boot = \<lparr>ssid_buf = replicate MAX_SSID_LEN 0, pass_buf = replicate MAX_PSK_LEN 0,
     cred_ssid = replicate MAX_SSID_LEN 0, cred_pass = replicate MAX_PSK_LEN 0, storage_log = [], connect_log = []\<rparr>"

text \<open>\<open>load\<close> is \<^verbatim>\<open>load_wifi_credentials\<close>.\<close>

definition wifi_init :: "(wifi \<Rightarrow> wifi) \<Rightarrow> wifi \<Rightarrow> wifi" where
  "wifi_init load s = load (s\<lparr>cred_ssid := replicate MAX_SSID_LEN 0, cred_pass := replicate MAX_PSK_LEN 0\<rparr>)"

definition wifi_connect :: "bytes \<Rightarrow> bytes \<Rightarrow> wifi \<Rightarrow> wifi" where
  "wifi_connect ssid password s = s\<lparr>connect_log := connect_log s @ [(c_string ssid, c_string password)]\<rparr>"

definition store_wifi_credentials :: "bytes option \<Rightarrow> bytes option \<Rightarrow> wifi \<Rightarrow> wifi" where
  "store_wifi_credentials ssid password s =
     (let s1 = (case ssid of None \<Rightarrow> s
                | Some b \<Rightarrow> s\<lparr>cred_ssid := c_strncpy (cred_ssid s) b (MAX_SSID_LEN - 1)\<rparr>)
      in case password of None \<Rightarrow> s1
         | Some b \<Rightarrow>
             (let s2 = s1\<lparr>cred_pass := c_strncpy (cred_pass s1) b (MAX_PSK_LEN - 1)\<rparr>
              in s2\<lparr>storage_log := storage_log s2 @ [(''wifi_creds'', cred_ssid s2 @ cred_pass s2)]\<rparr>))"

text \<open>The attribute's length is \<open>length buf\<close>.\<close>

definition wifi_ssid_write :: "bytes \<Rightarrow> u16 \<Rightarrow> wifi \<Rightarrow> (int \<times> wifi) res" where
  "wifi_ssid_write buf offset s =
     (if MAX_SSID_LEN < unat offset + length buf then Inr (INVALID_OFFSET, s)
      else
        res_bind (memcpy_at (ssid_buf s) (unat offset) buf) (\<lambda>ssid.
        res_bind (c_strlen ssid) (\<lambda>l.
          let s1 = s\<lparr>ssid_buf := ssid\<rparr>;
              s2 = (if unat offset + length buf = l then store_wifi_credentials (Some ssid) None s1 else s1)
          in Inr (int (length buf), s2))))"

definition wifi_pass_write :: "(wifi \<Rightarrow> bytes) \<Rightarrow> bytes \<Rightarrow> u16 \<Rightarrow> wifi \<Rightarrow> (int \<times> wifi) res" where
  "wifi_pass_write stored buf offset s =
     (if MAX_PSK_LEN < unat offset + length buf then Inr (INVALID_OFFSET, s)
      else
        res_bind (memcpy_at (pass_buf s) (unat offset) buf) (\<lambda>password.
        res_bind (c_strlen password) (\<lambda>l.
          let s1 = s\<lparr>pass_buf := password\<rparr>;
              s2 = (if unat offset + length buf = l then
                      (let s3 = store_wifi_credentials None (Some password) s1
                       in wifi_connect (stored s3) password s3)
                    else s1)
          in Inr (int (length buf), s2))))"

section \<open>Strings in buffers\<close>

definition text_bytes :: "bytes \<Rightarrow> bool" where
  "text_bytes b \<longleftrightarrow> 0 \<notin> set b"

lemma takeWhile_text: "text_bytes b \<Longrightarrow> takeWhile (\<lambda>c. c \<noteq> 0) (b @ r) = b @ takeWhile (\<lambda>c. c \<noteq> 0) r"
  by (induction b) (auto simp: text_bytes_def)

text \<open>A buffer that holds a text followed by zeros only.\<close>

definition holds :: "bytes \<Rightarrow> bytes \<Rightarrow> nat \<Rightarrow> bool" where
  "holds buf t cap \<longleftrightarrow> text_bytes t \<and> length t < cap \<and> buf = t @ replicate (cap - length t) 0"

lemma holds_strlen: "holds buf t cap \<Longrightarrow> c_strlen buf = Inr (length t)"
  by (auto simp: holds_def c_strlen_def takeWhile_text)

lemma holds_string: "holds buf t cap \<Longrightarrow> c_string buf = t"
  by (auto simp: holds_def c_string_def takeWhile_text)

lemma holds_strncpy: "holds buf t cap \<Longrightarrow> c_strncpy dst buf (cap - 1) = t @ replicate (cap - 1 - length t) 0 @ drop (cap - 1) dst"
  by (auto simp: c_strncpy_def holds_string holds_def)

text \<open>Writing a piece leaves what it does not cover.\<close>

lemma holds_write:
  assumes "holds buf t cap" and "text_bytes p" and "off \<le> length t" and "off + length p < cap"
  shows "\<exists>buf'. memcpy_at buf off p = Inr buf' \<and>
    holds buf' (take off t @ p @ drop (off + length p) t) cap"
proof -
  have buf: "buf = t @ replicate (cap - length t) 0" and t: "text_bytes t" "length t < cap"
    using assms(1) by (simp_all add: holds_def)
  have "text_bytes (take off t @ p @ drop (off + length p) t)"
    using t(1) assms(2) by (auto simp: text_bytes_def dest: in_set_takeD in_set_dropD)
  then show ?thesis
    using t assms(3,4) by (auto simp: buf memcpy_at_def holds_def)
qed

lemma boot_holds: "holds (replicate (Suc n) 0) [] (Suc n)"
  by (simp add: holds_def text_bytes_def)

section \<open>Network names\<close>

fun write_names :: "bytes list \<Rightarrow> wifi \<Rightarrow> wifi res" where
  "write_names [] s = Inr s"
| "write_names (n # ns) s = res_bind (wifi_ssid_write n 0 s) (\<lambda>(r, s'). write_names ns s')"

definition valid_name :: "bytes \<Rightarrow> bool" where
  "valid_name n \<longleftrightarrow> text_bytes n \<and> length n < MAX_SSID_LEN"

lemma ssid_write_step:
  assumes "holds (ssid_buf s) t MAX_SSID_LEN" and "valid_name n"
  shows "\<exists>s' t'. wifi_ssid_write n 0 s = Inr (int (length n), s') \<and> holds (ssid_buf s') t' MAX_SSID_LEN \<and>
    length t' = max (length t) (length n) \<and>
    cred_ssid s' = (if length t \<le> length n
      then n @ replicate (31 - length n) 0 @ drop 31 (cred_ssid s) else cred_ssid s)"
proof -
  have n: "text_bytes n" "length n < 32" using assms(2) by (simp_all add: valid_name_def MAX_SSID_LEN_def)
  obtain b where b: "memcpy_at (ssid_buf s) 0 n = Inr b" "holds b (n @ drop (length n) t) MAX_SSID_LEN"
    using holds_write [OF assms(1) n(1), of 0] n(2) by (auto simp: MAX_SSID_LEN_def)
  note len = holds_strlen [OF b(2)]
  have "length t \<le> length n \<Longrightarrow> c_strncpy d b 31 = n @ replicate (31 - length n) 0 @ drop 31 d" for d
    using holds_strncpy [OF b(2), of d] by (simp add: MAX_SSID_LEN_def)
  then show ?thesis
    using b n(2) len by (auto simp: wifi_ssid_write_def MAX_SSID_LEN_def store_wifi_credentials_def Let_def)
qed

text \<open>A network name is stored only if it is at least as long as every name written before it.
  The callback takes a write for complete when its end is the end of the string in its static
  array, which still holds the tail of any longer earlier name: the write of a shorter name reports
  success, and the stored credentials keep the old name.\<close>

lemma ssid_stored_iff_not_shorter:
  assumes "ssid_buf s = replicate 32 0" and "\<forall>m \<in> set ns. valid_name m" and "valid_name n"
  shows "\<exists>t u. write_names ns s = Inr t \<and> wifi_ssid_write n 0 t = Inr (int (length n), u) \<and>
    cred_ssid u = (if \<forall>m \<in> set ns. length m \<le> length n
      then n @ replicate (31 - length n) 0 @ drop 31 (cred_ssid t) else cred_ssid t)"
proof -
  have "\<exists>t p. write_names ns s = Inr t \<and> holds (ssid_buf t) p MAX_SSID_LEN \<and>
      (\<forall>l. length p \<le> l \<longleftrightarrow> length q \<le> l \<and> (\<forall>m \<in> set ns. length m \<le> l))"
    if "holds (ssid_buf s) q MAX_SSID_LEN" "\<forall>m \<in> set ns. valid_name m" for ns s q
    using that
  proof (induction ns arbitrary: s q)
    case (Cons m ns)
    obtain s1 q1 where s1: "wifi_ssid_write m 0 s = Inr (int (length m), s1)" "holds (ssid_buf s1) q1 MAX_SSID_LEN"
      "length q1 = max (length q) (length m)"
      using ssid_write_step [OF Cons.prems(1), of m] Cons.prems(2) by auto
    show ?case using Cons.IH [OF s1(2)] Cons.prems(2) s1 by auto
  qed auto
  from this [of s "[]" ns] obtain t p where t: "write_names ns s = Inr t" "holds (ssid_buf t) p MAX_SSID_LEN"
    "length p \<le> length n \<longleftrightarrow> (\<forall>m \<in> set ns. length m \<le> length n)"
    using assms(1,2) boot_holds [of 31] by (auto simp: MAX_SSID_LEN_def)
  obtain u where "wifi_ssid_write n 0 t = Inr (int (length n), u)"
    "cred_ssid u = (if length p \<le> length n then n @ replicate (31 - length n) 0 @ drop 31 (cred_ssid t) else cred_ssid t)"
    using ssid_write_step [OF t(2) assms(3)] by blast
  then show ?thesis using t by auto
qed

text \<open>A name that fills the array leaves no terminating zero, and the length check reads on behind it.\<close>

lemma full_length_name_reads_past:
  "length (ssid_buf s) = 32 \<Longrightarrow> length n = 32 \<Longrightarrow> text_bytes n \<Longrightarrow> wifi_ssid_write n 0 s = Inl Out_Of_Bounds"
  by (simp add: wifi_ssid_write_def MAX_SSID_LEN_def mem_simps c_strlen_def text_bytes_def)

section \<open>Passwords\<close>

text \<open>A password that arrives in two writes, as a long one does over BLE, is stored and used
  after the first of them: the node connects with the first piece alone, then again with the whole
  password after the second.\<close>

lemma password_in_pieces_connects_early:
  assumes "pass_buf s = replicate 64 0" and "text_bytes (p @ q)" and "length (p @ q) < 64" and "p \<noteq> []"
  shows "\<exists>t u. wifi_pass_write stored p 0 s = Inr (int (length p), t) \<and>
    wifi_pass_write stored q (word_of_nat (length p)) t = Inr (int (length q), u) \<and>
    map snd (connect_log u) = map snd (connect_log s) @ [p, p @ q] \<and>
    map fst (storage_log u) = map fst (storage_log s) @ [''wifi_creds'', ''wifi_creds''] \<and>
    cred_pass u = (p @ q) @ replicate (63 - length (p @ q)) 0 @ drop 63 (cred_pass s)"
proof -
  have pq: "text_bytes p" "text_bytes q" "length p < 64" "length p + length q < 64"
    using assms(2,3) by (auto simp: text_bytes_def)
  have off: "unat (word_of_nat (length p) :: u16) = length p" using pq(3) by (simp add: unat_of_nat_small)
  have h0: "holds (pass_buf s) [] MAX_PSK_LEN" using assms(1) boot_holds [of 63] by (simp add: MAX_PSK_LEN_def)
  obtain b1 where b1: "memcpy_at (pass_buf s) 0 p = Inr b1" "holds b1 p MAX_PSK_LEN"
    using holds_write [OF h0 pq(1), of 0] pq(3) by (auto simp: MAX_PSK_LEN_def)
  obtain b2 where b2: "memcpy_at b1 (length p) q = Inr b2" "holds b2 (p @ q) MAX_PSK_LEN"
    using holds_write [OF b1(2) pq(2), of "length p"] pq(4) by (auto simp: MAX_PSK_LEN_def)
  have cpy: "c_strncpy d b1 63 = p @ replicate (63 - length p) 0 @ drop 63 d"
    "c_strncpy d b2 63 = (p @ q) @ replicate (63 - length (p @ q)) 0 @ drop 63 d" for d
    using holds_strncpy [OF b1(2), of d] holds_strncpy [OF b2(2), of d] by (simp_all add: MAX_PSK_LEN_def)
  have "\<exists>t. wifi_pass_write stored p 0 s = Inr (int (length p), t) \<and> pass_buf t = b1 \<and>
      map snd (connect_log t) = map snd (connect_log s) @ [p] \<and>
      map fst (storage_log t) = map fst (storage_log s) @ [''wifi_creds''] \<and>
      drop 63 (cred_pass t) = drop 63 (cred_pass s)"
    using pq(3) b1 holds_strlen [OF b1(2)] holds_string [OF b1(2)]
    by (simp add: wifi_pass_write_def MAX_PSK_LEN_def store_wifi_credentials_def wifi_connect_def cpy Let_def)
  then obtain t where t: "wifi_pass_write stored p 0 s = Inr (int (length p), t)" "pass_buf t = b1"
    "map snd (connect_log t) = map snd (connect_log s) @ [p]"
    "map fst (storage_log t) = map fst (storage_log s) @ [''wifi_creds'']"
    "drop 63 (cred_pass t) = drop 63 (cred_pass s)" by blast
  moreover have "\<exists>u. wifi_pass_write stored q (word_of_nat (length p)) t = Inr (int (length q), u) \<and>
      map snd (connect_log u) = map snd (connect_log t) @ [p @ q] \<and>
      map fst (storage_log u) = map fst (storage_log t) @ [''wifi_creds''] \<and>
      cred_pass u = (p @ q) @ replicate (63 - length (p @ q)) 0 @ drop 63 (cred_pass t)"
    using pq(4) b2 t(2) holds_strlen [OF b2(2)] holds_string [OF b2(2)]
    by (simp add: wifi_pass_write_def off MAX_PSK_LEN_def store_wifi_credentials_def wifi_connect_def cpy Let_def)
  ultimately show ?thesis by auto
qed

section \<open>Instances\<close>

lemma ssid_stored_iff_not_shorter_witness:
  "\<exists>t u. write_names [[104, 111, 109, 101, 53]] wifi_boot = Inr t \<and>
     wifi_ssid_write [104, 111, 109, 101] 0 t = Inr (4, u) \<and> cred_ssid u = cred_ssid t"
  using ssid_stored_iff_not_shorter [of wifi_boot "[[104, 111, 109, 101, 53]]" "[104, 111, 109, 101]"]
  by (auto simp: wifi_boot_def MAX_SSID_LEN_def valid_name_def text_bytes_def)

lemma password_in_pieces_connects_early_witness:
  "\<exists>t u. wifi_pass_write cred_ssid [115, 101] 0 wifi_boot = Inr (2, t) \<and>
     wifi_pass_write cred_ssid [99] 2 t = Inr (1, u) \<and> map snd (connect_log u) = [[115, 101], [115, 101, 99]]"
  using password_in_pieces_connects_early [of wifi_boot "[115, 101]" "[99]" cred_ssid]
  by (auto simp: wifi_boot_def MAX_PSK_LEN_def text_bytes_def)

end
