(* ===== verification/V2v_Broadcast.thy ===== *)
theory V2v_Broadcast
  imports Prelude
begin

text \<open>
  The vehicle-to-vehicle broadcast of \<^verbatim>\<open>vcu/src/v2x_handler.c\<close>. The BLE stack is outside: the
  results of its calls are parameters, the advertising data handed to it is recorded. An element
  of that data is a pointer with a length of one byte; one that describes more memory than the
  packet has is a fault.
\<close>

definition MAX_V2V_PAYLOAD :: nat where "MAX_V2V_PAYLOAD = 240"
definition V2V_GPS_DATA :: u8 where "V2V_GPS_DATA = 1"
definition V2V_HAZARD_DATA :: u8 where "V2V_HAZARD_DATA = 2"
definition V2V_BRAKE_DATA :: u8 where "V2V_BRAKE_DATA = 3"
definition V2V_SPEED_DATA :: u8 where "V2V_SPEED_DATA = 4"

text \<open>Manufacturer data and service data of one advertisement.\<close>

record advert =
  manufacturer :: bytes
  service :: bytes

record ble =
  adv_created :: bool
  adv_started :: bool
  adv_log :: "advert list"

text \<open>Errors of the two calls end the initialisation silently.\<close>

definition v2x_init :: "int \<Rightarrow> int \<Rightarrow> ble \<Rightarrow> ble" where
  "v2x_init create_err start_err s =
     (if create_err \<noteq> 0 then s
      else
        (let s1 = s\<lparr>adv_created := True\<rparr> in
         if start_err \<noteq> 0 then s1 else s1\<lparr>adv_started := True\<rparr>))"

text \<open>
  \<open>junk\<close> is the content of the packet before it is written. The length \<^verbatim>\<open>len - 2\<close> of the service
  data is computed as \<^verbatim>\<open>int\<close> and stored in the eight bits of the element.
\<close>

definition broadcast_v2v_data :: "(advert \<Rightarrow> int) \<Rightarrow> bytes \<Rightarrow> u8 \<Rightarrow> bytes \<Rightarrow> u16 \<Rightarrow> ble \<Rightarrow> (int \<times> ble) res" where
  "broadcast_v2v_data bt junk t data len s =
     (if MAX_V2V_PAYLOAD < unat len + 1 then Inr (- EINVAL, s)
      else
        res_bind (memcpy_at junk 0 [t]) (\<lambda>p.
        res_bind (mem_read data 0 (unat len)) (\<lambda>src.
        res_bind (memcpy_at p 1 src) (\<lambda>packet.
        res_bind (mem_get packet 0) (\<lambda>b0.
        res_bind (mem_get packet 1) (\<lambda>b1.
        res_bind (mem_read packet 2 (unat (word_of_int (int (unat len) - 2) :: u8))) (\<lambda>svc.
          let ad = \<lparr>manufacturer = [b0 AND 0xFF, b1 AND 0xFF], service = svc\<rparr>
          in Inr (bt ad, s\<lparr>adv_log := adv_log s @ [ad]\<rparr>))))))))"

section \<open>What is on the air\<close>

lemma broadcast_ok:
  assumes "length junk = 240" and "length data = n" and "2 \<le> n" and "n \<le> 239"
  shows "broadcast_v2v_data bt junk t data (word_of_nat n) s =
    (let ad = \<lparr>manufacturer = [t, data ! 0], service = take (n - 2) (drop 1 data)\<rparr>
     in Inr (bt ad, s\<lparr>adv_log := adv_log s @ [ad]\<rparr>))"
proof -
  have len: "unat (word_of_nat n :: u16) = n" using assms(4) by (simp add: unat_of_nat_small)
  have minus: "int n - 2 = int (n - 2)" using assms(3) by simp
  have svc: "unat (word_of_int (int n - 2) :: u8) = n - 2"
    unfolding minus of_int_of_nat_eq using assms(4) by (intro unat_of_nat_u8) simp
  have p1: "memcpy_at junk 0 [t] = Inr (t # drop 1 junk)" using assms(1) by (simp add: mem_simps)
  have p2: "memcpy_at (t # drop 1 junk) 1 data = Inr ([t] @ data @ drop n (drop 1 junk))"
    using assms by (simp add: mem_simps)
  have ff: "(0xFF :: u8) = - 1" by simp
  have mask: "x AND 0xFF = x" for x :: u8 unfolding ff by (rule and.right_neutral)
  obtain d ds where data: "data = d # ds" "length ds = n - 1" using assms(2,3) by (cases data) auto
  have "mem_read ([t] @ data @ drop n (drop 1 junk)) 2 (n - 2) = Inr (take (n - 2) (drop 1 data))"
    using assms by (simp add: mem_simps data)
  then show ?thesis
    using assms(2,4) p2
    by (simp add: broadcast_v2v_data_def MAX_V2V_PAYLOAD_def len svc svc [simplified] p1 mem_simps mask data Let_def)
qed

text \<open>A payload of fewer than two bytes makes the length of the service data negative, which as a
  byte is 254 or 255, more than the packet has.\<close>

lemma broadcast_short:
  assumes "length junk = 240" and "length data = n" and "n < 2"
  shows "broadcast_v2v_data bt junk t data (word_of_nat n) s = Inl Out_Of_Bounds"
proof -
  have n: "n = 0 \<or> n = 1" using assms(3) by linarith
  then have svc: "238 < unat (word_of_int (int n - 2) :: u8)"
    by (auto simp: unsigned_minus_1_eq_mask mask_eq_exp_minus_1)
  define p where "p = t # drop 1 junk"
  have p: "memcpy_at junk 0 [t] = Inr p" "length p = 240" using assms(1) by (simp_all add: mem_simps p_def)
  obtain q where q: "memcpy_at p 1 data = Inr q" "length q = 240"
    using p(2) assms(2) n by (auto simp: memcpy_at_def)
  have len: "unat (word_of_nat n :: u16) = n" using n by auto
  have "mem_read q 2 (unat (word_of_int (int n - 2) :: u8)) = Inl Out_Of_Bounds"
    using svc q(2) by (simp only: mem_read_def) simp
  moreover have "mem_read data 0 n = Inr data" using assms(2) by (simp add: mem_simps)
  moreover have "\<not> MAX_V2V_PAYLOAD < n + 1" using assms(3) by (simp add: MAX_V2V_PAYLOAD_def)
  ultimately show ?thesis
    using p q by (simp only: broadcast_v2v_data_def len) (simp add: mem_get_def)
qed

text \<open>What a broadcast of \<open>n\<close> bytes comes to. From 2 to 239 bytes the advertisement holds the
  type and every byte of the payload but the last one, whatever the packet held before, so two
  payloads that differ in the last byte look the same on the air; fewer than 2 bytes describe
  memory behind the packet; more than 239 bytes are refused and nothing is sent.\<close>

lemma broadcast_loses_last_byte:
  assumes "length junk = 240" and "length data = n" and "n < 65536"
  shows "broadcast_v2v_data bt junk t data (word_of_nat n) s =
    (if n < 2 then Inl Out_Of_Bounds
     else if 239 < n then Inr (- EINVAL, s)
     else
       let ad = \<lparr>manufacturer = [t, hd data], service = butlast (tl data)\<rparr>
       in Inr (bt ad, s\<lparr>adv_log := adv_log s @ [ad]\<rparr>))"
proof -
  consider "n < 2" | "2 \<le> n" "n \<le> 239" | "239 < n" by linarith
  then show ?thesis
  proof cases
    case 1
    then show ?thesis using broadcast_short [OF assms(1,2)] by simp
  next
    case 2
    obtain d ds where "data = d # ds" using 2 assms(2) by (cases data) auto
    then have "take (n - 2) (drop 1 data) = butlast (tl data)" "data ! 0 = hd data"
      using assms(2) butlast_conv_take [of ds] by auto
    then show ?thesis using broadcast_ok [OF assms(1,2) 2] 2 by (simp add: Let_def)
  next
    case 3
    then show ?thesis
      using assms(3) by (simp add: broadcast_v2v_data_def MAX_V2V_PAYLOAD_def unat_of_nat_small)
  qed
qed

lemma broadcast_loses_last_byte_witness:
  "broadcast_v2v_data (\<lambda>_. 0) (replicate 240 0) V2V_SPEED_DATA [0x01, 0x2C] 2 \<lparr>adv_created = True, adv_started = True, adv_log = []\<rparr> =
     Inr (0, \<lparr>adv_created = True, adv_started = True, adv_log = [\<lparr>manufacturer = [4, 1], service = []\<rparr>]\<rparr>)"
  using broadcast_loses_last_byte [of "replicate 240 0" "[0x01, 0x2C]" 2 "\<lambda>_. 0" V2V_SPEED_DATA]
  by (simp add: V2V_SPEED_DATA_def Let_def)

end
