(* ===== verification/Sensor_Nodes.thy ===== *)
theory Sensor_Nodes
  imports Can_Bus Binary32
begin

text \<open>
  The sensor nodes \<^verbatim>\<open>brake_node\<close>, \<^verbatim>\<open>collision_node\<close>, \<^verbatim>\<open>tpms_node\<close>, \<^verbatim>\<open>temp_node\<close> and \<^verbatim>\<open>gps_node\<close>: one
  round of each sampling thread (\<^verbatim>\<open>src/main.c\<close> of the node), given what the sensor driver
  reports, and the interrupt routine of the GPS receiver.
\<close>

definition TEMP_MSG_LEN :: u8 where "TEMP_MSG_LEN = 4"
definition GPS_MSG_LEN :: u8 where "GPS_MSG_LEN = 8"
definition COLLISION_MSG_LEN :: u8 where "COLLISION_MSG_LEN = 2"
definition BRAKE_MSG_LEN :: u8 where "BRAKE_MSG_LEN = 2"
definition TPMS_MSG_LEN :: u8 where "TPMS_MSG_LEN = 1"

lemmas msg_len_defs = TEMP_MSG_LEN_def GPS_MSG_LEN_def COLLISION_MSG_LEN_def BRAKE_MSG_LEN_def TPMS_MSG_LEN_def

text \<open>A 16-bit value, high byte first.\<close>

definition be_bytes :: "u16 \<Rightarrow> bytes" where
  "be_bytes x = [ucast (drop_bit 8 x), ucast (x AND 0xFF)]"

text \<open>The return value of the send is dropped by every node.\<close>

definition send_and_wait :: "can_dev \<Rightarrow> u32 \<Rightarrow> bytes \<Rightarrow> u8 \<Rightarrow> nat \<Rightarrow> world \<Rightarrow> world res" where
  "send_and_wait dev i data len ms w =
     res_bind (send_sensor_data dev i data len w) (\<lambda>(r, w'). Inr (k_sleep ms w'))"

section \<open>Brake and tyre pressure\<close>

definition brake_round :: "can_dev \<Rightarrow> u16 \<Rightarrow> world \<Rightarrow> world res" where
  "brake_round dev adc_raw w = send_and_wait dev CAN_ID_BRAKE (be_bytes adc_raw) BRAKE_MSG_LEN 50 w"

text \<open>\<open>None\<close> is a failed read of the sensor.\<close>

definition tpms_round :: "can_dev \<Rightarrow> u8 option \<Rightarrow> world \<Rightarrow> world res" where
  "tpms_round dev reading w =
     (case reading of
        Some pressure \<Rightarrow> send_and_wait dev CAN_ID_TPMS [pressure] TPMS_MSG_LEN 1000 w
      | None \<Rightarrow> Inr (k_sleep 1000 w))"

section \<open>Temperature\<close>

text \<open>The reading is the sensor value already converted to a float.\<close>

definition temperature_round :: "can_dev \<Rightarrow> f32 option \<Rightarrow> world \<Rightarrow> world res" where
  "temperature_round dev reading w =
     (case reading of
        Some t \<Rightarrow> send_and_wait dev CAN_ID_TEMP (bytes_of_f32 t) TEMP_MSG_LEN 1000 w
      | None \<Rightarrow> Inr (k_sleep 1000 w))"

section \<open>Distance\<close>

text \<open>
  A busy loop that leaves when the echo pin is no longer at \<open>level\<close> and gives up when more than
  \<open>limit\<close> cycles have passed since \<open>start\<close>. The list is what pin and cycle counter read in each
  round; \<open>None\<close> means the loop is still running at its end.
\<close>

fun wait_while :: "int \<Rightarrow> u32 \<Rightarrow> u32 \<Rightarrow> (int \<times> u32) list \<Rightarrow> bool option" where
  "wait_while level start limit [] = None"
| "wait_while level start limit ((pin, cycles) # rs) =
     (if pin \<noteq> level then Some True
      else if limit < cycles - start then Some False
      else wait_while level start limit rs)"

text \<open>
  \<open>junk\<close> is the uninitialised \<^verbatim>\<open>start_time\<close> the first loop compares with, \<open>hz\<close> the clock rate and
  \<open>limit\<close> the cycles of 30 ms; \<open>up\<close> and \<open>down\<close> are the readings of the two loops.
\<close>

definition measure_distance ::
  "u32 \<Rightarrow> u32 \<Rightarrow> u32 \<Rightarrow> (int \<times> u32) list \<Rightarrow> u32 \<Rightarrow> (int \<times> u32) list \<Rightarrow> u32 \<Rightarrow> u32 res option" where
  "measure_distance junk hz limit up start_time down stop_time =
     (case wait_while 0 junk limit up of
        None \<Rightarrow> None
      | Some False \<Rightarrow> Some (Inr 0)
      | Some True \<Rightarrow>
          (case wait_while 1 start_time limit down of
             None \<Rightarrow> None
           | Some False \<Rightarrow> Some (Inr 0)
           | Some True \<Rightarrow>
               if 2 * hz = 0 then Some (Inl Div_By_Zero)
               else Some (Inr ((stop_time - start_time) * 343 div (2 * hz)))))"

text \<open>One round of \<^verbatim>\<open>collision_thread\<close> with a finished measurement, cut to 16 bits.\<close>

definition collision_round :: "can_dev \<Rightarrow> u32 \<Rightarrow> world \<Rightarrow> world res" where
  "collision_round dev measured w =
     send_and_wait dev CAN_ID_COLLISION (be_bytes (ucast measured)) COLLISION_MSG_LEN 100 w"

section \<open>Position\<close>

definition GPS_BUFFER_SIZE :: nat where "GPS_BUFFER_SIZE = 256"

record gps =
  rx_buf :: bytes
  rx_pos :: u8

definition newline :: u8 where "newline = 10"

text \<open>The characters \<^verbatim>\<open>$GPRMC\<close>.\<close>

definition GPRMC :: bytes where "GPRMC = [36, 71, 80, 82, 77, 67]"

text \<open>
  \<open>parse\<close> is \<^verbatim>\<open>parse_gps_data\<close>, which the repository does not define: the latitude and longitude
  found in the buffer, or whatever the two variables hold if it sets none. \<open>None\<close> is an interrupt
  without a character.
\<close>

definition uart_cb :: "(bytes \<Rightarrow> u8 \<Rightarrow> f32 \<times> f32) \<Rightarrow> can_dev \<Rightarrow> u8 option \<Rightarrow> gps \<times> world \<Rightarrow> (gps \<times> world) res" where
  "uart_cb parse dev input gw =
     (case gw of (g, w) \<Rightarrow>
        case input of None \<Rightarrow> Inr (g, w)
        | Some c \<Rightarrow>
            if c = newline then
              (if 6 < rx_pos g \<and> take 6 (rx_buf g) = GPRMC then
                 (let (lat, lon) = parse (rx_buf g) (rx_pos g) in
                  res_bind (send_sensor_data dev CAN_ID_GPS (bytes_of_f32 lat @ bytes_of_f32 lon) GPS_MSG_LEN w)
                    (\<lambda>(r, w'). Inr (g\<lparr>rx_pos := 0\<rparr>, w')))
               else Inr (g\<lparr>rx_pos := 0\<rparr>, w))
            else if unat (rx_pos g) < GPS_BUFFER_SIZE - 1 then
              (if length (rx_buf g) \<le> unat (rx_pos g) then Inl Out_Of_Bounds
               else Inr (g\<lparr>rx_buf := (rx_buf g)[unat (rx_pos g) := c], rx_pos := rx_pos g + 1\<rparr>, w))
            else Inr (g, w))"

lemma send_and_wait_ok:
  "unat len = length data \<Longrightarrow> length data \<le> 8 \<Longrightarrow> send_and_wait dev i data len ms w =
     Inr (k_sleep ms (snd (can_send dev \<lparr>fid = i, dlc = len, fflags = 0, fdata = data @ replicate (8 - length data) 0\<rparr> w)))"
  by (simp add: send_and_wait_def send_sensor_data_ok case_prod_beta)

lemma length_be_bytes [simp]: "length (be_bytes x) = 2"
  by (simp add: be_bytes_def)

text \<open>Characters of a line arrive one by one.\<close>

lemma uart_line:
  assumes "length (rx_buf g) = 256" and "newline \<notin> set cs"
  shows "\<exists>g'. res_run (\<lambda>gw c. uart_cb parse dev c gw) (g, w) (map Some cs) = Inr (g', w) \<and>
    length (rx_buf g') = 256 \<and> unat (rx_pos g') = min 255 (unat (rx_pos g) + length cs) \<and>
    take (unat (rx_pos g')) (rx_buf g') = take 255 (take (unat (rx_pos g)) (rx_buf g) @ cs)"
  using assms
proof (induction cs arbitrary: g)
  case Nil
  have "unat (rx_pos g) \<le> 255" using unat_u8_less [of "rx_pos g"] by linarith
  then show ?case using Nil.prems by (simp add: min_def)
next
  case (Cons c cs)
  let ?p = "unat (rx_pos g)"
  have c: "c \<noteq> newline" "newline \<notin> set cs" using Cons.prems by auto
  have p: "?p \<le> 255" using unat_u8_less [of "rx_pos g"] by linarith
  show ?case
  proof (cases "?p < 255")
    case True
    let ?g = "g\<lparr>rx_buf := (rx_buf g)[?p := c], rx_pos := rx_pos g + 1\<rparr>"
    have inc: "unat (rx_pos g + 1) = ?p + 1" using True by (simp add: unat_plus_if_size word_size)
    have "uart_cb parse dev (Some c) (g, w) = Inr (?g, w)"
      using c True Cons.prems(1) by (simp add: uart_cb_def GPS_BUFFER_SIZE_def)
    moreover have "take (?p + 1) ((rx_buf g)[?p := c]) = take ?p (rx_buf g) @ [c]"
      using True Cons.prems(1) by (simp add: take_Suc_conv_app_nth)
    ultimately show ?thesis using Cons.IH [of ?g] Cons.prems(1) c(2) inc by (auto simp: min_def)
  next
    case False
    then have full: "?p = 255" using p by simp
    have "uart_cb parse dev (Some c) (g, w) = Inr (g, w)"
      using c full by (simp add: uart_cb_def GPS_BUFFER_SIZE_def)
    then show ?thesis using Cons.IH [of g] Cons.prems(1) c(2) full by auto
  qed
qed

text \<open>C30: A line on the serial port, whatever its length, is handled without leaving the buffer: its
  first 255 characters are collected, and at the newline exactly one position frame is sent if they
  are more than six and begin with \<^verbatim>\<open>$GPRMC\<close>, none otherwise. The parser gets the buffer that
  starts with these characters and their number, and the next line starts afresh.\<close>

theorem gps_line_handled:
  assumes "length (rx_buf g) = 256" and "rx_pos g = 0" and "newline \<notin> set cs"
  shows "\<exists>b n. length b = 256 \<and> unat n = min 255 (length cs) \<and> take (unat n) b = take 255 cs \<and>
    res_run (\<lambda>gw c. uart_cb parse dev c gw) (g, w) (map Some (cs @ [newline])) =
      Inr (g\<lparr>rx_buf := b, rx_pos := 0\<rparr>,
           if 6 < length cs \<and> take 6 cs = GPRMC
           then snd (can_send dev \<lparr>fid = CAN_ID_GPS, dlc = 8, fflags = 0,
                  fdata = bytes_of_f32 (fst (parse b n)) @ bytes_of_f32 (snd (parse b n))\<rparr> w)
           else w)"
proof -
  obtain g' where g': "res_run (\<lambda>gw c. uart_cb parse dev c gw) (g, w) (map Some cs) = Inr (g', w)"
    "length (rx_buf g') = 256" "unat (rx_pos g') = min 255 (length cs)"
    "take (unat (rx_pos g')) (rx_buf g') = take 255 cs"
    using uart_line [OF assms(1,3), of parse dev w] assms(2) by auto
  have six: "6 < rx_pos g' \<longleftrightarrow> 6 < length cs" by (simp add: word_less_nat_alt g'(3))
  have pre: "take 6 (rx_buf g') = take 6 cs" if "6 < length cs"
  proof -
    have "take 6 (take (unat (rx_pos g')) (rx_buf g')) = take 6 (take 255 cs)" by (simp only: g'(4))
    then show ?thesis using that by (simp add: g'(3) min_def split: if_splits)
  qed
  have "uart_cb parse dev (Some newline) (g', w) =
      Inr (g'\<lparr>rx_pos := 0\<rparr>,
           if 6 < length cs \<and> take 6 cs = GPRMC
           then snd (can_send dev \<lparr>fid = CAN_ID_GPS, dlc = 8, fflags = 0,
                  fdata = bytes_of_f32 (fst (parse (rx_buf g') (rx_pos g'))) @
                    bytes_of_f32 (snd (parse (rx_buf g') (rx_pos g')))\<rparr> w)
           else w)"
    using six pre by (auto simp: uart_cb_def case_prod_beta send_sensor_data_ok GPS_MSG_LEN_def)
  moreover have "g'\<lparr>rx_pos := 0\<rparr> = g\<lparr>rx_buf := rx_buf g', rx_pos := 0\<rparr>" by simp
  ultimately show ?thesis
    using g' by (intro exI [of _ "rx_buf g'"] exI [of _ "rx_pos g'"]) (simp add: res_run_append)
qed

definition quiet_bus :: world where "quiet_bus = \<lparr>uptime = 0, bus_log = []\<rparr>"

definition demo_line :: bytes where "demo_line = GPRMC @ [44, 49]"

theorem gps_line_handled_witness:
  "\<exists>g w. res_run (\<lambda>gw c. uart_cb (\<lambda>b n. (0, 1)) (\<lambda>_ _. 0) c gw) (\<lparr>rx_buf = replicate 256 0, rx_pos = 0\<rparr>, quiet_bus)
     (map Some (demo_line @ [newline])) = Inr (g, w) \<and> rx_pos g = 0 \<and> map (fid \<circ> snd) (bus_log w) = [CAN_ID_GPS]"
proof -
  have l: "newline \<notin> set demo_line" "6 < length demo_line" "take 6 demo_line = GPRMC"
    by (simp_all add: demo_line_def GPRMC_def newline_def)
  have "length (rx_buf \<lparr>rx_buf = replicate 256 0, rx_pos = 0\<rparr>) = 256" by simp
  from gps_line_handled [OF this _ l(1), of "\<lambda>b n. (0, 1)" "\<lambda>_ _. 0" quiet_bus] show ?thesis
    using l(2,3) by (auto simp: quiet_bus_def simp del: map_append)
qed

end
