(* ===== verification/Vcu_Can.thy ===== *)
theory Vcu_Can
  imports Sensor_Nodes V2v_Broadcast
begin

text \<open>
  The CAN receive routine of the central unit, \<^verbatim>\<open>can_handler\<close> of \<^verbatim>\<open>vcu/src/main.c\<close>, and what the
  frames of the sensor nodes come to in it. A call that publishes over MQTT is recorded in
  \<open>outs\<close> with its arguments, a float by its bits; what text the called routine makes of a value and
  sends is modelled in \<open>Mqtt_Publish\<close>.
\<close>

datatype topic = TOPIC_TEMPERATURE | TOPIC_PREDICTIVE_MAINTENANCE | TOPIC_COLLISION
  | TOPIC_HAZARD_NOTIFICATION | TOPIC_BATTERY | TOPIC_BRAKE | TOPIC_TPMS | TOPIC_SPEED

datatype vcu_out = Publish topic f32 | Publish_Gps f32 f32

record vcu =
  outs :: "vcu_out list"
  radio :: ble

text \<open>The calls of \<^verbatim>\<open>publish_sensor_data\<close> and \<^verbatim>\<open>publish_gps_data\<close>, recorded.\<close>

definition call_publish_sensor_data :: "topic \<Rightarrow> f32 \<Rightarrow> vcu \<Rightarrow> vcu" where
  "call_publish_sensor_data t v s = s\<lparr>outs := outs s @ [Publish t v]\<rparr>"

definition call_publish_gps_data :: "f32 \<Rightarrow> f32 \<Rightarrow> vcu \<Rightarrow> vcu" where
  "call_publish_gps_data lat lon s = s\<lparr>outs := outs s @ [Publish_Gps lat lon]\<rparr>"

text \<open>Two bytes, high byte first, as \<^verbatim>\<open>(a << 8) | b\<close> cut to 16 bits.\<close>

definition be16 :: "u8 \<Rightarrow> u8 \<Rightarrow> u16" where
  "be16 a b = push_bit 8 (ucast a) OR ucast b"

text \<open>What \<^verbatim>\<open>snprintf\<close> leaves in the buffer of 64 bytes, without the terminating zero.\<close>

definition hazard_msg :: "u16 \<Rightarrow> bytes" where
  "hazard_msg distance =
     take 63 (map of_char (''Critical: Collision warning at '' @ decimal (unat distance) @ '' cm''))"

definition relay :: "(advert \<Rightarrow> int) \<Rightarrow> bytes \<Rightarrow> u8 \<Rightarrow> bytes \<Rightarrow> u16 \<Rightarrow> vcu \<Rightarrow> vcu res" where
  "relay bt junk t data len s =
     res_bind (broadcast_v2v_data bt junk t data len (radio s)) (\<lambda>(r, b). Inr (s\<lparr>radio := b\<rparr>))"

definition can_handler :: "(advert \<Rightarrow> int) \<Rightarrow> bytes \<Rightarrow> can_frame \<Rightarrow> vcu \<Rightarrow> vcu res" where
  "can_handler bt junk f s =
     (if fid f = CAN_ID_TEMP then
        res_bind (mem_read (fdata f) 0 4) (\<lambda>b.
          let temp = f32_of_bytes b;
              s1 = call_publish_sensor_data TOPIC_TEMPERATURE temp s
          in Inr (if f32_less 0x42B40000 temp then call_publish_sensor_data TOPIC_PREDICTIVE_MAINTENANCE temp s1 else s1))
      else if fid f = CAN_ID_GPS then
        res_bind (mem_read (fdata f) 0 4) (\<lambda>b.
        res_bind (mem_read (fdata f) 4 4) (\<lambda>c.
          relay bt junk V2V_GPS_DATA (fdata f) (ucast (dlc f))
            (call_publish_gps_data (f32_of_bytes b) (f32_of_bytes c) s)))
      else if fid f = CAN_ID_COLLISION then
        res_bind (mem_get (fdata f) 0) (\<lambda>a.
        res_bind (mem_get (fdata f) 1) (\<lambda>b.
          let distance = be16 a b;
              s1 = call_publish_sensor_data TOPIC_COLLISION (f32_of_nat (unat distance)) s
          in if distance < 100 then
               (let msg = hazard_msg distance in
                relay bt junk V2V_HAZARD_DATA msg (word_of_nat (length msg))
                  (call_publish_sensor_data TOPIC_HAZARD_NOTIFICATION (f32_of_nat (unat distance)) s1))
             else Inr s1))
      else if fid f = CAN_ID_BATTERY then
        res_bind (mem_read (fdata f) 0 4) (\<lambda>b. Inr (call_publish_sensor_data TOPIC_BATTERY (f32_of_bytes b) s))
      else if fid f = CAN_ID_BRAKE then
        res_bind (mem_get (fdata f) 0) (\<lambda>a.
        res_bind (mem_get (fdata f) 1) (\<lambda>b.
          relay bt junk V2V_BRAKE_DATA (fdata f) (ucast (dlc f))
            (call_publish_sensor_data TOPIC_BRAKE (f32_of_nat (unat (be16 a b))) s)))
      else if fid f = CAN_ID_TPMS then
        res_bind (mem_get (fdata f) 0) (\<lambda>a. Inr (call_publish_sensor_data TOPIC_TPMS (f32_of_nat (unat a)) s))
      else if fid f = CAN_ID_SPEED then
        res_bind (mem_get (fdata f) 0) (\<lambda>a.
        res_bind (mem_get (fdata f) 1) (\<lambda>b.
          relay bt junk V2V_SPEED_DATA (fdata f) (ucast (dlc f))
            (call_publish_sensor_data TOPIC_SPEED (f32_of_nat (unat (be16 a b))) s)))
      else Inr s)"

section \<open>Bytes and text\<close>

lemma be16_be_bytes: "be16 (be_bytes x ! 0) (be_bytes x ! 1) = x"
proof (rule bit_word_eqI)
  fix i assume "i < LENGTH(16)"
  then have "i < 16" by simp
  then show "bit (be16 (be_bytes x ! 0) (be_bytes x ! 1)) i = bit x i"
  proof (cases "i < 8")
    case True
    have ff: "(0xFF :: u16) = mask 8" by (simp add: mask_eq_exp_minus_1)
    show ?thesis using True unfolding be16_def be_bytes_def ff by (simp add: bit_simps)
  next
    case False
    with \<open>i < 16\<close> have "i - 8 < 8" by linarith
    with \<open>i < 16\<close> False show ?thesis by (simp add: be16_def be_bytes_def bit_simps)
  qed
qed

lemma length_hazard_msg: "2 < length (hazard_msg d) \<and> length (hazard_msg d) \<le> 63"
proof -
  have "length (take 63 xs) \<le> 63" for xs :: bytes by simp
  then show ?thesis by (simp add: hazard_msg_def)
qed

lemma relay_ok:
  assumes "length junk = 240" and "2 \<le> unat len" and "unat len \<le> 239" and "unat len \<le> length data"
  shows "relay bt junk t data len s = Inr (s\<lparr>radio := (radio s)\<lparr>adv_log := adv_log (radio s) @
    [\<lparr>manufacturer = [t, data ! 0], service = take (unat len - 2) (drop 1 data)\<rparr>]\<rparr>\<rparr>)"
proof -
  let ?d = "take (unat len) data"
  have src: "mem_read data 0 (unat len) = mem_read ?d 0 (unat len)" using assms(4) by (simp add: mem_simps)
  have same: "broadcast_v2v_data bt junk t data len b = broadcast_v2v_data bt junk t ?d (word_of_nat (unat len)) b" for b
    using src by (simp add: broadcast_v2v_data_def)
  have "?d ! 0 = data ! 0" "take (unat len - 2) (drop 1 ?d) = take (unat len - 2) (drop 1 data)"
    using assms(2) by (simp_all add: drop_take min_def)
  then show ?thesis
    unfolding relay_def same
    using broadcast_ok [OF assms(1) _ assms(2,3), of ?d] assms(4) by (simp add: Let_def)
qed

section \<open>Frames of the nodes in the central unit\<close>

lemma relay_frame:
  assumes "length junk = 240" and "length data = 8" and "dl \<le> 8"
  shows "isl (relay bt junk t data (ucast (dl :: u8)) s) \<longleftrightarrow> dl < 2"
proof -
  have "unat dl < 2 ^ 16" by (rule order_less_trans [OF unat_u8_less]) simp
  then have len: "unat (ucast dl :: u16) = unat dl" using take_bit_nat_eq_self [of "unat dl" 16] by (simp add: unsigned_ucast_eq)
  have le: "unat dl \<le> 8" using assms(3) by (simp add: word_le_nat_alt)
  show ?thesis
  proof (cases "dl < 2")
    case True
    let ?d = "take (unat dl) data"
    have n: "unat dl < 2" using True by (simp add: word_less_nat_alt)
    have src: "mem_read data 0 (unat dl) = mem_read ?d 0 (unat dl)" using le assms(2) by (simp add: mem_simps)
    have same: "broadcast_v2v_data bt junk t data (ucast dl) b = broadcast_v2v_data bt junk t ?d (word_of_nat (unat dl)) b" for b
      using src len by (simp add: broadcast_v2v_data_def)
    show ?thesis
      using broadcast_short [OF assms(1) _ n, of ?d] le assms(2) True by (simp add: relay_def same)
  next
    case False
    then have "2 \<le> unat dl" by (simp add: word_less_nat_alt)
    then show ?thesis using relay_ok [OF assms(1), of "ucast dl" data] le assms(2) False by (simp add: len)
  qed
qed

lemma vcu_fault_iff:
  assumes "wf_frame f" and "dlc f \<le> 8" and "length junk = 240"
  shows "isl (can_handler bt junk f s) \<longleftrightarrow> fid f \<in> {CAN_ID_GPS, CAN_ID_BRAKE, CAN_ID_SPEED} \<and> dlc f < 2"
proof -
  have l: "length (fdata f) = 8" using assms(1) by (simp add: wf_frame_def CAN_MAX_DLEN_def)
  have relay: "isl (relay bt junk t (fdata f) (ucast (dlc f)) u) \<longleftrightarrow> dlc f < 2" for t u
    by (rule relay_frame [OF assms(3) l assms(2)])
  have msg: "\<not> isl (relay bt junk t (hazard_msg d) (word_of_nat (length (hazard_msg d))) u)" for t d u
    using relay_ok [OF assms(3), of "word_of_nat (length (hazard_msg d))" "hazard_msg d" bt t u]
      length_hazard_msg [of d] by (simp add: unat_of_nat_small)
  show ?thesis
    by (simp add: can_handler_def l mem_simps relay msg can_id_defs Let_def)
qed

text \<open>C31: The receive routine is safe for exactly these frames: a well-formed frame of at most eight
  bytes makes it read outside its memory if and only if it is a position, brake or speed frame of
  fewer than two bytes, which any node on the bus can send.\<close>

theorem vcu_faults_iff_short_frame:
  assumes "wf_frame f" and "dlc f \<le> 8" and "length junk = 240"
  shows "isl (can_handler bt junk f s) \<longleftrightarrow> fid f \<in> {CAN_ID_GPS, CAN_ID_BRAKE, CAN_ID_SPEED} \<and> dlc f < 2"
  by (rule vcu_fault_iff [OF assms])

text \<open>A brake reading survives the way to the cloud but not to other vehicles. The frame of the
  node for any reading makes the central unit publish exactly that number under the brake topic,
  while the advertisement for other vehicles carries only its high byte.\<close>

lemma brake_reading_reaches_vcu:
  assumes "length junk = 240"
  shows "\<exists>f w' s'. brake_round dev raw w = Inr w' \<and> bus_log w' = bus_log w @ [(uptime w, f)] \<and>
    can_handler bt junk f s = Inr s' \<and>
    (\<exists>v. outs s' = outs s @ [Publish TOPIC_BRAKE v] \<and> f32_scaled v = int (unat raw) * 2 ^ 149) \<and>
    adv_log (radio s') = adv_log (radio s) @ [\<lparr>manufacturer = [V2V_BRAKE_DATA, ucast (drop_bit 8 raw)], service = []\<rparr>]"
proof -
  let ?f = "\<lparr>fid = CAN_ID_BRAKE, dlc = 2, fflags = 0, fdata = be_bytes raw @ replicate 6 0\<rparr>"
  have round: "brake_round dev raw w = Inr (k_sleep 50 (snd (can_send dev ?f w)))"
    by (simp add: brake_round_def send_and_wait_ok BRAKE_MSG_LEN_def)
  have raw: "be16 (be_bytes raw ! 0) (be_bytes raw ! 1) = raw" by (rule be16_be_bytes)
  have len: "unat (ucast (2 :: u8) :: u16) = 2" by simp
  have hi: "be_bytes raw ! 0 = ucast (drop_bit 8 raw)" by (simp add: be_bytes_def)
  have handler: "can_handler bt junk ?f s =
      Inr (s\<lparr>outs := outs s @ [Publish TOPIC_BRAKE (f32_of_nat (unat raw))],
             radio := (radio s)\<lparr>adv_log := adv_log (radio s) @
               [\<lparr>manufacturer = [V2V_BRAKE_DATA, ucast (drop_bit 8 raw)], service = []\<rparr>]\<rparr>\<rparr>)"
    using raw relay_ok [OF assms, of 2 "be_bytes raw @ replicate 6 0"]
    by (simp add: can_handler_def can_id_defs mem_simps nth_append hi call_publish_sensor_data_def)
  have v: "f32_scaled (f32_of_nat (unat raw)) = int (unat raw) * 2 ^ 149"
    by (rule f32_of_nat_exact(1)) (rule order_less_trans [OF unat_u16_less], simp)
  show ?thesis using round handler v by (intro exI conjI) (assumption | simp)+
qed

text \<open>C36: Every measurement of the collision node is a hazard. The node divides echo cycles by twice
  the clock rate, which gives metres, with a numerator of 32 bits, so at the clock rates of the
  target its result is below 100 whatever it measured, a timeout included; the central unit takes
  the number for centimetres and raises the hazard notification for each frame.\<close>

theorem every_distance_is_a_hazard:
  assumes "measure_distance start_junk hz limit up st down sp = Some (Inr d)"
    and "2 ^ 32 \<le> 100 * (2 * unat hz)" and "unat hz < 2 ^ 31" and "length junk = 240"
  shows "\<exists>f w' s' v. collision_round dev d w = Inr w' \<and> bus_log w' = bus_log w @ [(uptime w, f)] \<and>
    can_handler bt junk f s = Inr s' \<and> f32_scaled v = int (unat d) * 2 ^ 149 \<and>
    outs s' = outs s @ [Publish TOPIC_COLLISION v, Publish TOPIC_HAZARD_NOTIFICATION v] \<and>
    unat d < 100 \<and> length (adv_log (radio s')) = length (adv_log (radio s)) + 1"
proof -
  have hz: "unat (2 * hz) = 2 * unat hz" using assms(3) by (simp add: unat_mult_lem [THEN iffD1])
  have hz32: "4294967296 \<le> 100 * (2 * unat hz)" using assms(2) by simp
  have "unat x div (2 * unat hz) < 100" for x :: u32
  proof -
    have "unat x < 100 * (2 * unat hz)" using unat_u32_less [of x] hz32 by linarith
    then show ?thesis by (simp add: less_mult_imp_div_less)
  qed
  then have quot: "unat (x div (2 * hz)) < 100" for x :: u32
    by (simp add: unat_div hz)
  have d: "unat d < 100"
    using assms(1) quot by (auto simp: measure_distance_def split: option.splits bool.splits if_splits)
  let ?x = "ucast d :: u16"
  have x: "unat ?x = unat d" using d by (simp add: unsigned_ucast_eq take_bit_nat_eq_self)
  let ?f = "\<lparr>fid = CAN_ID_COLLISION, dlc = 2, fflags = 0, fdata = be_bytes ?x @ replicate 6 0\<rparr>"
  let ?v = "f32_of_nat (unat d)"
  have round: "collision_round dev d w = Inr (k_sleep 100 (snd (can_send dev ?f w)))"
    by (simp add: collision_round_def send_and_wait_ok COLLISION_MSG_LEN_def)
  have "unat (word_of_nat (length (hazard_msg ?x)) :: u16) = length (hazard_msg ?x)"
    using length_hazard_msg [of ?x] by (simp add: unat_of_nat_small)
  then obtain a where relay: "relay bt junk V2V_HAZARD_DATA (hazard_msg ?x) (word_of_nat (length (hazard_msg ?x))) u =
      Inr (u\<lparr>radio := (radio u)\<lparr>adv_log := adv_log (radio u) @ [a]\<rparr>\<rparr>)" for u
    using relay_ok [OF assms(4), of "word_of_nat (length (hazard_msg ?x))" "hazard_msg ?x"] length_hazard_msg [of ?x] by auto
  have "?x < 100" using d x by (simp add: word_less_nat_alt)
  then have handler: "can_handler bt junk ?f s =
      Inr (s\<lparr>outs := outs s @ [Publish TOPIC_COLLISION ?v, Publish TOPIC_HAZARD_NOTIFICATION ?v],
             radio := (radio s)\<lparr>adv_log := adv_log (radio s) @ [a]\<rparr>\<rparr>)"
    using be16_be_bytes [of ?x] x relay
    by (simp add: can_handler_def can_id_defs mem_simps nth_append call_publish_sensor_data_def Let_def)
  have v: "f32_scaled ?v = int (unat d) * 2 ^ 149"
    by (rule f32_of_nat_exact(1)) (use d in simp)
  show ?thesis using round handler v d by (intro exI conjI) (assumption | simp)+
qed

section \<open>Instances\<close>

definition fresh_vcu :: vcu where
  "fresh_vcu = \<lparr>outs = [], radio = \<lparr>adv_created = True, adv_started = True, adv_log = []\<rparr>\<rparr>"

theorem vcu_faults_iff_short_frame_witness:
  "isl (can_handler (\<lambda>_. 0) (replicate 240 0) \<lparr>fid = CAN_ID_BRAKE, dlc = 1, fflags = 0, fdata = replicate 8 0\<rparr> fresh_vcu)"
  using vcu_faults_iff_short_frame [of "\<lparr>fid = CAN_ID_BRAKE, dlc = 1, fflags = 0, fdata = replicate 8 0\<rparr>" "replicate 240 0" "\<lambda>_. 0" fresh_vcu]
  by (simp add: wf_frame_def CAN_MAX_DLEN_def)

lemma brake_reading_reaches_vcu_witness:
  "\<exists>f w' s'. brake_round (\<lambda>_ _. 0) 0x0102 quiet_bus = Inr w' \<and> bus_log w' = [(0, f)] \<and>
     can_handler (\<lambda>_. 0) (replicate 240 0) f fresh_vcu = Inr s' \<and>
     adv_log (radio s') = [\<lparr>manufacturer = [3, 1], service = []\<rparr>]"
  using brake_reading_reaches_vcu [of "replicate 240 0" "\<lambda>_ _. 0" "0x0102" quiet_bus "\<lambda>_. 0" fresh_vcu]
  by (auto simp: quiet_bus_def fresh_vcu_def V2V_BRAKE_DATA_def)

theorem every_distance_is_a_hazard_witness:
  "\<exists>s'. can_handler (\<lambda>_. 0) (replicate 240 0)
      \<lparr>fid = CAN_ID_COLLISION, dlc = 2, fflags = 0, fdata = replicate 8 0\<rparr> fresh_vcu = Inr s' \<and> length (outs s') = 2"
proof -
  have m: "measure_distance 0 240000000 7200000 [(0, 8000000)] 0 [] 0 = Some (Inr 0)"
    by (simp add: measure_distance_def)
  have b: "be_bytes 0 @ replicate 6 0 = replicate 8 0" by (simp add: be_bytes_def numeral_eq_Suc)
  have "collision_round (\<lambda>_ _. 0) 0 quiet_bus = Inr w' \<Longrightarrow> bus_log w' = bus_log quiet_bus @ [(uptime quiet_bus, f)] \<Longrightarrow>
      f = \<lparr>fid = CAN_ID_COLLISION, dlc = 2, fflags = 0, fdata = replicate 8 0\<rparr>" for w' f
    by (auto simp: collision_round_def send_and_wait_ok COLLISION_MSG_LEN_def b)
  then show ?thesis
    using every_distance_is_a_hazard [OF m, of "replicate 240 0" "\<lambda>_ _. 0" quiet_bus "\<lambda>_. 0" fresh_vcu]
    by (auto simp: fresh_vcu_def)
qed

end
