(* ===== verification/V2x_Router.thy ===== *)
theory V2x_Router
  imports Prelude
begin

text \<open>
  The V2X message of \<^verbatim>\<open>vcu/src/v2x_router.h\<close> and the router of \<^verbatim>\<open>v2x_router.c\<close> with the
  experimental features disabled, as the file does. The message type and the priority the router
  compares with are not declared in the repository and are the parameter \<open>rc\<close>. Messages handed to
  the safety handler are recorded.
\<close>

section \<open>Messages and the router\<close>

definition V2X_MSG_TRAFFIC :: u8 where "V2X_MSG_TRAFFIC = 2"
definition V2X_MSG_ROAD_HAZARD :: u8 where "V2X_MSG_ROAD_HAZARD = 4"
definition V2X_MAX_DATA_SIZE :: nat where "V2X_MAX_DATA_SIZE = 256"
definition V2X_HMAC_SIZE :: nat where "V2X_HMAC_SIZE = 32"

record v2x_message =
  msg_type :: u8
  priority :: u8
  source_id :: u32
  msg_timestamp :: u32
  msg_flags :: u8
  msg_data :: bytes
  data_len :: u16
  hmac :: bytes

definition zero_message :: v2x_message where
  "zero_message = \<lparr>msg_type = 0, priority = 0, source_id = 0, msg_timestamp = 0, msg_flags = 0,
     msg_data = replicate V2X_MAX_DATA_SIZE 0, data_len = 0, hmac = replicate V2X_HMAC_SIZE 0\<rparr>"

record router_config =
  V2X_MSG_SAFETY :: u8
  V2X_PRIORITY_HIGH :: u8

definition v2x_route_message :: "router_config \<Rightarrow> v2x_message \<Rightarrow> v2x_message list \<Rightarrow> v2x_message list" where
  "v2x_route_message rc m handled =
     (if msg_type m = V2X_MSG_SAFETY rc \<and> V2X_PRIORITY_HIGH rc < priority m then handled @ [m] else handled)"

end
