(* ===== verification/Road_Monitor.thy ===== *)
theory Road_Monitor
  imports V2x_Router Binary32
begin

text \<open>
  The road monitor of \<^verbatim>\<open>vcu/src/road_monitor.c\<close>: a table of road segments, and the hazards it
  broadcasts through the router. The table is shown to implement a map from segment numbers to
  their last report.
\<close>

section \<open>Road segments\<close>

definition MAX_ROAD_SEGMENTS :: nat where "MAX_ROAD_SEGMENTS = 32"

record road_segment =
  segment_id :: u32
  condition :: u8
  friction :: f32
  visibility :: f32
  last_update :: u32

record road =
  segments :: "road_segment list"
  broadcasts :: "(u32 \<times> u8) list"
  handled :: "v2x_message list"

text \<open>The table is cleared, the number of segments is not.\<close>

definition road_monitor_init :: "road \<Rightarrow> road" where
  "road_monitor_init s =
     s\<lparr>segments := map (\<lambda>_. \<lparr>segment_id = 0, condition = 0, friction = 0, visibility = 0, last_update = 0\<rparr>) (segments s)\<rparr>"

definition le_bytes :: "u32 \<Rightarrow> bytes" where
  "le_bytes x = bytes_of_f32 x"

text \<open>
  \<open>pad\<close> are the three bytes between the type and the location of the structure, \<open>loc\<close> is what
  \<^verbatim>\<open>get_segment_location\<close> answers.
\<close>

definition broadcast_road_hazard ::
  "router_config \<Rightarrow> bytes \<Rightarrow> (u32 \<Rightarrow> f32 \<times> f32) \<Rightarrow> u64 \<Rightarrow> u32 \<Rightarrow> u8 \<Rightarrow> road \<Rightarrow> road res" where
  "broadcast_road_hazard rc pad loc t seg hazard s =
     (let hz = le_bytes seg @ [hazard] @ pad @ bytes_of_f32 (fst (loc seg)) @ bytes_of_f32 (snd (loc seg)) in
      res_bind (memcpy_at (msg_data zero_message) 0 hz) (\<lambda>d.
        let m = zero_message\<lparr>msg_type := V2X_MSG_ROAD_HAZARD, priority := 1, msg_timestamp := ucast t,
                             msg_data := d, data_len := word_of_nat (length hz)\<rparr>
        in Inr (s\<lparr>broadcasts := broadcasts s @ [(seg, hazard)], handled := v2x_route_message rc m (handled s)\<rparr>)))"

text \<open>The index of the first segment with that number.\<close>

fun find_segment :: "u32 \<Rightarrow> road_segment list \<Rightarrow> nat option" where
  "find_segment i [] = None"
| "find_segment i (x # xs) = (if segment_id x = i then Some 0 else map_option Suc (find_segment i xs))"

text \<open>\<open>hazardous\<close> is \<^verbatim>\<open>is_hazardous_condition\<close>.\<close>

definition update_road_condition ::
  "router_config \<Rightarrow> bytes \<Rightarrow> (u32 \<Rightarrow> f32 \<times> f32) \<Rightarrow> (u8 \<Rightarrow> bool) \<Rightarrow> u64 \<Rightarrow> road_segment \<Rightarrow> road \<Rightarrow> road res" where
  "update_road_condition rc pad loc hazardous t seg s =
     (case find_segment (segment_id seg) (segments s) of
        Some i \<Rightarrow>
          (let s1 = s\<lparr>segments := (segments s)[i := seg]\<rparr> in
           if hazardous (condition seg) then
             broadcast_road_hazard rc pad loc t (segment_id seg) (condition seg) s1
           else Inr s1)
      | None \<Rightarrow>
          if length (segments s) < MAX_ROAD_SEGMENTS then Inr (s\<lparr>segments := segments s @ [seg]\<rparr>)
          else Inr s)"

section \<open>The road map\<close>

text \<open>What the table stands for: the last report of each segment.\<close>

definition road_map :: "road_segment list \<Rightarrow> u32 \<Rightarrow> road_segment option" where
  "road_map xs i = find (\<lambda>x. segment_id x = i) xs"

definition road_inv :: "road \<Rightarrow> bool" where
  "road_inv s \<longleftrightarrow> distinct (map segment_id (segments s)) \<and> length (segments s) \<le> MAX_ROAD_SEGMENTS"

lemma find_segment_None: "find_segment i xs = None \<longleftrightarrow> i \<notin> segment_id ` set xs"
  by (induction xs) auto

lemma find_segment_Some:
  "find_segment i xs = Some n \<Longrightarrow> n < length xs \<and> segment_id (xs ! n) = i \<and> i \<in> segment_id ` set xs"
  by (induction xs arbitrary: n) (auto split: if_splits)

lemma road_map_update:
  assumes "find_segment (segment_id x) xs = Some n"
  shows "road_map (xs[n := x]) = (road_map xs)(segment_id x \<mapsto> x)"
  using assms
proof (induction xs arbitrary: n)
  case (Cons y ys)
  show ?case
  proof (cases "segment_id y = segment_id x")
    case True
    then show ?thesis using Cons.prems by (auto simp: road_map_def fun_eq_iff)
  next
    case False
    then obtain k where k: "find_segment (segment_id x) ys = Some k" "n = Suc k" using Cons.prems by auto
    show ?thesis using Cons.IH [OF k(1)] False by (auto simp: k(2) road_map_def fun_eq_iff)
  qed
qed simp

lemma road_map_add:
  "segment_id x \<notin> segment_id ` set xs \<Longrightarrow> road_map (xs @ [x]) = (road_map xs)(segment_id x \<mapsto> x)"
  by (induction xs) (auto simp: road_map_def fun_eq_iff)

lemma segment_ids_update:
  "find_segment (segment_id x) xs = Some n \<Longrightarrow> map segment_id (xs[n := x]) = map segment_id xs"
  using find_segment_Some [of "segment_id x" xs n] by (metis list_update_id map_update)

lemma hazard_broadcast_ok:
  assumes "length pad = 3"
  shows "\<exists>m. msg_type m = V2X_MSG_ROAD_HAZARD \<and> priority m = 1 \<and> broadcast_road_hazard rc pad loc t seg hazard s =
    Inr (s\<lparr>broadcasts := broadcasts s @ [(seg, hazard)], handled := v2x_route_message rc m (handled s)\<rparr>)"
proof -
  let ?hz = "le_bytes seg @ [hazard] @ pad @ bytes_of_f32 (fst (loc seg)) @ bytes_of_f32 (snd (loc seg))"
  obtain d where "memcpy_at (msg_data zero_message) 0 ?hz = Inr d"
    using assms by (simp add: le_bytes_def zero_message_def V2X_MAX_DATA_SIZE_def mem_simps)
  then show ?thesis
    by (intro exI [of _ "zero_message\<lparr>msg_type := V2X_MSG_ROAD_HAZARD, priority := 1, msg_timestamp := ucast t,
          msg_data := d, data_len := word_of_nat (length ?hz)\<rparr>"])
      (simp add: broadcast_road_hazard_def Let_def)
qed

text \<open>One report against the map, which holds at most 32 segments: the abstract step.\<close>

definition report :: "(u32 \<Rightarrow> road_segment option) \<Rightarrow> road_segment \<Rightarrow> u32 \<Rightarrow> road_segment option" where
  "report m x = (if segment_id x \<in> dom m \<or> card (dom m) < 32 then m(segment_id x \<mapsto> x) else m)"

text \<open>The hazards broadcast for a sequence of reports.\<close>

fun hazards :: "(u8 \<Rightarrow> bool) \<Rightarrow> (u32 \<Rightarrow> road_segment option) \<Rightarrow> road_segment list \<Rightarrow> (u32 \<times> u8) list" where
  "hazards hazardous m [] = []"
| "hazards hazardous m (x # xs) =
     (if segment_id x \<in> dom m \<and> hazardous (condition x) then [(segment_id x, condition x)] else []) @
     hazards hazardous (report m x) xs"

lemma road_map_dom: "dom (road_map xs) = segment_id ` set xs"
proof
  show "segment_id ` set xs \<subseteq> dom (road_map xs)" by (induction xs) (auto simp: road_map_def)
  show "dom (road_map xs) \<subseteq> segment_id ` set xs" by (force simp: road_map_def find_Some_iff)
qed

lemma road_map_card: "distinct (map segment_id xs) \<Longrightarrow> card (segment_id ` set xs) = length xs"
  using distinct_card [of "map segment_id xs"] by simp

text \<open>A router that takes the hazards of the road monitor.\<close>

definition takes_road_hazards :: "router_config \<Rightarrow> bool" where
  "takes_road_hazards rc \<longleftrightarrow> V2X_MSG_SAFETY rc = V2X_MSG_ROAD_HAZARD \<and> V2X_PRIORITY_HIGH rc < 1"

lemma update_step:
  assumes "road_inv s" and "length pad = 3"
  shows "\<exists>s'. update_road_condition rc pad loc hazardous t x s = Inr s' \<and> road_inv s' \<and>
    road_map (segments s') = report (road_map (segments s)) x \<and>
    broadcasts s' = broadcasts s @ hazards hazardous (road_map (segments s)) [x] \<and>
    (takes_road_hazards rc \<or> handled s' = handled s)"
proof (cases "find_segment (segment_id x) (segments s)")
  case None
  then show ?thesis
    using assms find_segment_None [of "segment_id x" "segments s"] road_map_add [of x "segments s"]
    by (auto simp: update_road_condition_def road_inv_def road_map_dom road_map_card report_def MAX_ROAD_SEGMENTS_def)
next
  case (Some n)
  let ?s1 = "s\<lparr>segments := (segments s)[n := x]\<rparr>"
  have known: "segment_id x \<in> dom (road_map (segments s))" using find_segment_Some [OF Some] by (simp add: road_map_dom)
  have inv: "road_inv ?s1" using assms(1) segment_ids_update [OF Some] by (simp add: road_inv_def)
  obtain m where m: "msg_type m = V2X_MSG_ROAD_HAZARD" "priority m = 1"
    "broadcast_road_hazard rc pad loc t (segment_id x) (condition x) ?s1 =
      Inr (?s1\<lparr>broadcasts := broadcasts ?s1 @ [(segment_id x, condition x)], handled := v2x_route_message rc m (handled ?s1)\<rparr>)"
    using hazard_broadcast_ok [OF assms(2)] by blast
  have route: "takes_road_hazards rc \<or> v2x_route_message rc m h = h" for h
    using m(1,2) by (auto simp: v2x_route_message_def takes_road_hazards_def)
  show ?thesis
  proof (cases "hazardous (condition x)")
    case True
    then show ?thesis
      using Some known inv m(3) route [of "handled s"] road_map_update [OF Some]
      by (simp add: update_road_condition_def report_def road_inv_def)
  next
    case False
    then show ?thesis
      using Some known inv road_map_update [OF Some] by (simp add: update_road_condition_def report_def)
  qed
qed

text \<open>C16: The table of road segments implements a map of at most 32 segments to their last report:
  after any sequence of reports to an empty monitor it holds that map, without faults. A hazard is
  broadcast for a report of a segment the map already knows, so never for the first report of a
  segment, and unless the router is configured for exactly this message type and a high priority
  of zero, none of these broadcasts gets past it.\<close>

theorem road_reports_refine_map:
  assumes "segments s = []" and "length pad = 3"
  shows "\<exists>s'. res_run (\<lambda>s (t, x). update_road_condition rc pad loc hazardous t x s) s rs = Inr s' \<and>
    road_map (segments s') = foldl report Map.empty (map snd rs) \<and>
    broadcasts s' = broadcasts s @ hazards hazardous Map.empty (map snd rs) \<and>
    (takes_road_hazards rc \<or> handled s' = handled s)"
proof -
  have "\<exists>s'. res_run (\<lambda>s (t, x). update_road_condition rc pad loc hazardous t x s) s rs = Inr s' \<and>
      road_map (segments s') = foldl report (road_map (segments s)) (map snd rs) \<and>
      broadcasts s' = broadcasts s @ hazards hazardous (road_map (segments s)) (map snd rs) \<and>
      (takes_road_hazards rc \<or> handled s' = handled s)"
    if "road_inv s" for s
    using that
  proof (induction rs arbitrary: s)
    case (Cons p rs)
    obtain t x where p: "p = (t, x)" by (cases p)
    obtain u where u: "update_road_condition rc pad loc hazardous t x s = Inr u" "road_inv u"
      "road_map (segments u) = report (road_map (segments s)) x"
      "broadcasts u = broadcasts s @ hazards hazardous (road_map (segments s)) [x]"
      "takes_road_hazards rc \<or> handled u = handled s"
      using update_step [OF Cons.prems assms(2)] by blast
    show ?case using Cons.IH [OF u(2)] u by (auto simp: p)
  qed simp
  moreover have "road_inv s" "road_map (segments s) = Map.empty" using assms(1) by (simp_all add: road_inv_def road_map_def fun_eq_iff)
  ultimately show ?thesis by fastforce
qed

section \<open>Instances\<close>

definition wet :: "u32 \<Rightarrow> road_segment" where
  "wet i = \<lparr>segment_id = i, condition = 1, friction = 0, visibility = 0, last_update = 0\<rparr>"

theorem road_reports_refine_map_witness:
  "\<exists>s'. res_run (\<lambda>s (t, x). update_road_condition \<lparr>V2X_MSG_SAFETY = 1, V2X_PRIORITY_HIGH = 5\<rparr> [0, 0, 0] (\<lambda>_. (0, 0)) (\<lambda>c. c \<noteq> 0) t x s)
      \<lparr>segments = [], broadcasts = [], handled = []\<rparr> [(0, wet 7), (1, wet 7)] = Inr s' \<and>
     broadcasts s' = [(7, 1)] \<and> handled s' = []"
  using road_reports_refine_map [of "\<lparr>segments = [], broadcasts = [], handled = []\<rparr>" "[0, 0, 0]"
      "\<lparr>V2X_MSG_SAFETY = 1, V2X_PRIORITY_HIGH = 5\<rparr>" "\<lambda>_. (0, 0)" "\<lambda>c. c \<noteq> 0" "[(0, wet 7), (1, wet 7)]"]
  by (auto simp: wet_def report_def takes_road_hazards_def V2X_MSG_ROAD_HAZARD_def simp del: res_run.simps)

end
