(* ===== verification/Infrastructure.thy ===== *)
theory Infrastructure
  imports V2x_Router Binary32
begin

text \<open>
  The infrastructure manager of \<^verbatim>\<open>common/v2i/infrastructure_manager.c\<close> and the traffic manager of
  \<^verbatim>\<open>vcu/src/traffic_manager.c\<close>. Texts published under the V2I topic are recorded.
\<close>

section \<open>Infrastructure\<close>

text \<open>
  The nodes the manager keeps. Nothing in the repository gives a node a number, so after the
  initialisation all sixteen have number zero. The union of traffic light and road data is only
  used for the road condition.
\<close>

definition MAX_INFRASTRUCTURE_NODES :: nat where "MAX_INFRASTRUCTURE_NODES = 16"

record infra_node =
  node_id :: u8
  node_type :: u8
  node_update :: u32
  road_condition :: u8

record infra =
  nodes :: "infra_node list"
  v2i_texts :: "string list"
  subscribed :: bool
  infra_handled :: "v2x_message list"

definition infrastructure_init :: "infra \<Rightarrow> infra" where
  "infrastructure_init s =
     s\<lparr>nodes := replicate MAX_INFRASTRUCTURE_NODES \<lparr>node_id = 0, node_type = 0, node_update = 0, road_condition = 0\<rparr>,
       subscribed := True\<rparr>"

text \<open>The texts fit the buffer of 128 characters.\<close>

definition process_traffic_signal :: "u8 \<Rightarrow> u8 \<Rightarrow> infra \<Rightarrow> infra" where
  "process_traffic_signal signal_id st s =
     s\<lparr>v2i_texts := v2i_texts s @
       [take 127 (''{\"type\":\"traffic\",\"id\":'' @ decimal (unat signal_id) @ '',\"state\":'' @ decimal (unat st) @ ''}'')]\<rparr>"

fun find_node :: "u8 \<Rightarrow> infra_node list \<Rightarrow> nat option" where
  "find_node i [] = None"
| "find_node i (x # xs) = (if node_id x = i then Some 0 else map_option Suc (find_node i xs))"

definition process_road_condition :: "u64 \<Rightarrow> u8 \<Rightarrow> u8 \<Rightarrow> infra \<Rightarrow> infra" where
  "process_road_condition t seg cond s =
     (case find_node seg (nodes s) of
        None \<Rightarrow> s
      | Some i \<Rightarrow>
          s\<lparr>nodes := (nodes s)[i := (nodes s ! i)\<lparr>road_condition := cond, node_update := ucast t\<rparr>],
            v2i_texts := v2i_texts s @
              [take 127 (''{\"type\":\"road\",\"id\":'' @ decimal (unat seg) @ '',\"condition\":'' @ decimal (unat cond) @ ''}'')]\<rparr>)"

text \<open>\<open>event_size\<close> is the size of \<^verbatim>\<open>struct infrastructure_event\<close>, \<open>data\<close> the memory the pointer leads to.\<close>

definition notify_infrastructure_event :: "router_config \<Rightarrow> nat \<Rightarrow> u64 \<Rightarrow> bytes \<Rightarrow> infra \<Rightarrow> infra res" where
  "notify_infrastructure_event rc event_size t data s =
     (let len = (word_of_nat event_size :: u16) in
      res_bind (mem_read data 0 (unat len)) (\<lambda>src.
      res_bind (memcpy_at (msg_data zero_message) 0 src) (\<lambda>d.
        let m = zero_message\<lparr>msg_type := V2X_MSG_TRAFFIC, priority := 2, msg_timestamp := ucast t, data_len := len, msg_data := d\<rparr>
        in Inr (s\<lparr>infra_handled := v2x_route_message rc m (infra_handled s)\<rparr>))))"

lemma nodes_keep_ids: "list_all (\<lambda>x. node_id x = 0) (nodes s) \<Longrightarrow>
  list_all (\<lambda>x. node_id x = 0) (nodes (process_road_condition t i c s))"
proof -
  assume n: "list_all (\<lambda>x. node_id x = 0) (nodes s)"
  have "k < length xs" if "find_node i xs = Some k" for k xs
    using that by (induction xs arbitrary: k) (auto split: if_splits)
  then show ?thesis using n by (auto simp: process_road_condition_def list_all_length nth_list_update split: option.splits)
qed

lemma unknown_segment: "list_all (\<lambda>x. node_id x = 0) xs \<Longrightarrow> i \<noteq> 0 \<Longrightarrow> find_node i xs = None"
  by (induction xs) auto

text \<open>The infrastructure manager only ever tracks segment zero. After its initialisation and any
  sequence of condition reports, a report for another segment changes nothing and publishes
  nothing.\<close>

lemma only_segment_zero_tracked:
  assumes "i \<noteq> 0"
  shows "process_road_condition t i c (foldl (\<lambda>s (t, i, c). process_road_condition t i c s) (infrastructure_init s0) rs) =
    foldl (\<lambda>s (t, i, c). process_road_condition t i c s) (infrastructure_init s0) rs"
proof -
  have "list_all (\<lambda>x. node_id x = 0) (nodes s) \<Longrightarrow>
      list_all (\<lambda>x. node_id x = 0) (nodes (foldl (\<lambda>s (t, i, c). process_road_condition t i c s) s rs))" for s
    by (induction rs arbitrary: s) (auto intro: nodes_keep_ids)
  from this [of "infrastructure_init s0"]
  have "list_all (\<lambda>x. node_id x = 0) (nodes (foldl (\<lambda>s (t, i, c). process_road_condition t i c s) (infrastructure_init s0) rs))"
    by (simp add: infrastructure_init_def list_all_iff)
  from unknown_segment [OF this assms] show ?thesis by (simp add: process_road_condition_def)
qed

section \<open>Traffic lights\<close>

text \<open>
  The table of traffic lights has no code that fills it. \<open>Approach\<close> and \<open>Broadcast\<close> are the calls of
  \<^verbatim>\<open>calculate_approach_speed\<close> and \<^verbatim>\<open>broadcast_traffic_state\<close>.
\<close>

definition MAX_TRAFFIC_LIGHTS :: nat where "MAX_TRAFFIC_LIGHTS = 32"

record traffic_light =
  light_id :: u32
  light_state :: u8
  light_timing :: u32
  light_distance :: f32
  light_location :: "f32 \<times> f32"

datatype light_call = Approach u32 | Broadcast u32

record traffic =
  lights :: "traffic_light list"
  light_calls :: "light_call list"

definition traffic_manager_init :: "traffic \<Rightarrow> traffic" where
  "traffic_manager_init s =
     s\<lparr>lights := map (\<lambda>_. \<lparr>light_id = 0, light_state = 0, light_timing = 0, light_distance = 0, light_location = (0, 0)\<rparr>) (lights s)\<rparr>"

fun replace_light :: "traffic_light \<Rightarrow> traffic_light list \<Rightarrow> traffic_light list option" where
  "replace_light l [] = None"
| "replace_light l (x # xs) =
     (if light_id x = light_id l then Some (l # xs) else map_option (\<lambda>ys. x # ys) (replace_light l xs))"

definition handle_traffic_light_update :: "traffic_light \<Rightarrow> traffic \<Rightarrow> traffic" where
  "handle_traffic_light_update l s =
     (case replace_light l (lights s) of
        None \<Rightarrow> s
      | Some xs \<Rightarrow> s\<lparr>lights := xs, light_calls := light_calls s @ [Approach (light_id l), Broadcast (light_id l)]\<rparr>)"

lemma light_updates_ignored: "lights s = [] \<Longrightarrow> foldl (\<lambda>s l. handle_traffic_light_update l s) s ls = s"
  by (induction ls) (simp_all add: handle_traffic_light_update_def)

section \<open>Instances\<close>

lemma only_segment_zero_tracked_witness:
  "process_road_condition 0 5 1 (infrastructure_init \<lparr>nodes = [], v2i_texts = [], subscribed = False, infra_handled = []\<rparr>) =
     infrastructure_init \<lparr>nodes = [], v2i_texts = [], subscribed = False, infra_handled = []\<rparr>"
  using only_segment_zero_tracked [of 5 0 1 "\<lparr>nodes = [], v2i_texts = [], subscribed = False, infra_handled = []\<rparr>" "[]"]
  by simp

end
