(* ===== verification/Vcu_Main.thy ===== *)
theory Vcu_Main
  imports Error_Handler V2v_Broadcast
begin

text \<open>
  The start of the central unit, \<^verbatim>\<open>main\<close> of \<^verbatim>\<open>vcu/src/main.c\<close> with \<^verbatim>\<open>common/security/secure_boot.c\<close>, and
  the MQTT client of \<^verbatim>\<open>vcu/src/mqtt_handler.c\<close> up to the calls of the MQTT library, which are
  recorded.

  \<^verbatim>\<open>mqtt_handler.c\<close> gives its own initialisation the name of the library's, \<^verbatim>\<open>mqtt_client_init\<close>, and
  calls that name in its body: a call of itself. It is a partial function here, and not returning
  is the value \<open>None\<close>.
\<close>

section \<open>State\<close>

definition ERROR_MQTT_DISCONNECT :: u32 where "ERROR_MQTT_DISCONNECT = 3"
definition ERROR_BLE_FAIL :: u32 where "ERROR_BLE_FAIL = 4"

text \<open>The error numbers of the client that are not declared in the repository.\<close>

record mqtt_errors =
  ERROR_MQTT_PUBLISH :: u32
  ERROR_MQTT_SUBSCRIBE :: u32
  ERROR_MQTT_CONNECT :: u32

datatype mqtt_call = Mqtt_Connect | Mqtt_Subscribe | Incoming_Message

datatype mqtt_evt = MQTT_EVT_CONNACK int | MQTT_EVT_DISCONNECT | MQTT_EVT_PUBACK int
  | MQTT_EVT_SUBACK int | MQTT_EVT_PUBLISH

record 'x vcu_node =
  errs :: "'x err_state"
  ble_state :: ble
  rx_filter :: bool
  client_ready :: bool
  work_ready :: bool
  scheduled :: "nat list"
  mqtt_calls :: "mqtt_call list"
  watchdog_feeds :: nat

text \<open>What the hardware and the libraries answer during the start.\<close>

record boot_env =
  esp_secure_boot_enabled :: bool
  esp_flash_encryption_enabled :: bool
  bt_enable_result :: int
  adv_create_result :: int
  adv_start_result :: int
  can_device_ready :: bool

definition secure_boot_init :: "boot_env \<Rightarrow> int" where
  "secure_boot_init b =
     (if \<not> esp_secure_boot_enabled b then -1
      else if \<not> esp_flash_encryption_enabled b then -2
      else 0)"

text \<open>An error of the node: the error handler, in the state it keeps.\<close>

definition raise_error ::
  "error_types \<Rightarrow> 'x asil_env \<Rightarrow> 'x err_env \<Rightarrow> u32 \<Rightarrow> 'x vcu_node \<Rightarrow> 'x vcu_node outcome res" where
  "raise_error types aext ext e s =
     res_bind (handle_error types aext ext e (errs s)) (\<lambda>r.
       Inr (case r of Running es \<Rightarrow> Running (s\<lparr>errs := es\<rparr>) | Halted es \<Rightarrow> Halted (s\<lparr>errs := es\<rparr>)))"

section \<open>The MQTT client\<close>

partial_function (option) mqtt_client_init :: "'x vcu_node \<Rightarrow> 'x vcu_node option" where
  "mqtt_client_init s = Option.bind (mqtt_client_init s) (\<lambda>s'. Some (s'\<lparr>client_ready := True\<rparr>))"

definition subscribe_to_topics :: "'x vcu_node \<Rightarrow> 'x vcu_node" where
  "subscribe_to_topics s = s\<lparr>mqtt_calls := mqtt_calls s @ [Mqtt_Subscribe]\<rparr>"

definition schedule :: "nat \<Rightarrow> 'x vcu_node outcome \<Rightarrow> 'x vcu_node outcome" where
  "schedule seconds r = and_then r (\<lambda>s. Running (s\<lparr>scheduled := scheduled s @ [seconds]\<rparr>))"

definition mqtt_evt_handler ::
  "error_types \<Rightarrow> mqtt_errors \<Rightarrow> 'x asil_env \<Rightarrow> 'x err_env \<Rightarrow> mqtt_evt \<Rightarrow> 'x vcu_node \<Rightarrow> 'x vcu_node outcome res" where
  "mqtt_evt_handler types me aext ext evt s =
     (case evt of
        MQTT_EVT_CONNACK r \<Rightarrow> Inr (Running (if r = 0 then subscribe_to_topics s else s))
      | MQTT_EVT_DISCONNECT \<Rightarrow>
          res_bind (raise_error types aext ext ERROR_MQTT_DISCONNECT s) (\<lambda>o1. Inr (schedule 5 o1))
      | MQTT_EVT_PUBACK r \<Rightarrow>
          if r \<noteq> 0 then raise_error types aext ext (ERROR_MQTT_PUBLISH me) s else Inr (Running s)
      | MQTT_EVT_SUBACK r \<Rightarrow>
          if r \<noteq> 0 then raise_error types aext ext (ERROR_MQTT_SUBSCRIBE me) s else Inr (Running s)
      | MQTT_EVT_PUBLISH \<Rightarrow> Inr (Running (s\<lparr>mqtt_calls := mqtt_calls s @ [Incoming_Message]\<rparr>)))"

definition mqtt_connect_work_handler ::
  "error_types \<Rightarrow> mqtt_errors \<Rightarrow> 'x asil_env \<Rightarrow> 'x err_env \<Rightarrow> int \<Rightarrow> 'x vcu_node \<Rightarrow> 'x vcu_node outcome res" where
  "mqtt_connect_work_handler types me aext ext ret s =
     (let s1 = s\<lparr>mqtt_calls := mqtt_calls s @ [Mqtt_Connect]\<rparr> in
      if ret < 0 then
        res_bind (raise_error types aext ext (ERROR_MQTT_CONNECT me) s1) (\<lambda>o1. Inr (schedule 5 o1))
      else Inr (Running s1))"

text \<open>The second event routine, of \<^verbatim>\<open>main.c\<close>.\<close>

definition mqtt_event_cb ::
  "error_types \<Rightarrow> 'x asil_env \<Rightarrow> 'x err_env \<Rightarrow> mqtt_evt \<Rightarrow> 'x vcu_node \<Rightarrow> 'x vcu_node outcome res" where
  "mqtt_event_cb types aext ext evt s =
     (case evt of
        MQTT_EVT_CONNACK r \<Rightarrow> Inr (Running (subscribe_to_topics s))
      | MQTT_EVT_DISCONNECT \<Rightarrow> raise_error types aext ext ERROR_MQTT_DISCONNECT s
      | _ \<Rightarrow> Inr (Running s))"

section \<open>The start\<close>

text \<open>\<^verbatim>\<open>main\<close> up to \<open>n\<close> rounds of its endless loop; \<open>None\<close> is a start that does not get there.\<close>

definition vcu_main ::
  "error_types \<Rightarrow> 'x asil_env \<Rightarrow> 'x err_env \<Rightarrow> boot_env \<Rightarrow> nat \<Rightarrow> 'x vcu_node \<Rightarrow> 'x vcu_node outcome res option" where
  "vcu_main types aext ext b n s0 =
     (let s = s0\<lparr>errs := error_handler_init (errs s0)\<rparr> in
      if secure_boot_init b \<noteq> 0 then Some (raise_error types aext ext ERROR_SECURE_BOOT s)
      else if bt_enable_result b \<noteq> 0 then Some (raise_error types aext ext ERROR_BLE_FAIL s)
      else
        (let s1 = s\<lparr>ble_state := v2x_init (adv_create_result b) (adv_start_result b) (ble_state s)\<rparr> in
         if \<not> can_device_ready b then Some (Inr (Running s1))
         else
           Option.bind (mqtt_client_init (s1\<lparr>rx_filter := True\<rparr>)) (\<lambda>s2.
             Some (Inr (Running (s2\<lparr>work_ready := True, watchdog_feeds := watchdog_feeds s2 + n\<rparr>))))))"

section \<open>What the start comes to\<close>

lemma mqtt_client_init_None: "mqtt_client_init s = None"
proof -
  have "mqtt_client_init s = Some t \<Longrightarrow> False" for t
    using mqtt_client_init.raw_induct [where P = "\<lambda>_ _. False" and s = s and y = t]
    by (auto simp: bind_eq_Some_conv)
  then show ?thesis by (cases "mqtt_client_init s") blast+
qed

text \<open>C40: The central unit never reaches its main loop. The start comes back only on its three error
  exits; when secure boot, flash encryption, Bluetooth and the CAN controller are all in order, it
  does not return from the initialisation of the MQTT client, so the watchdog is never fed and the
  work that connects to the broker is never set up.\<close>

theorem start_never_reaches_main_loop:
  "vcu_main types aext ext b n s = None \<longleftrightarrow>
     esp_secure_boot_enabled b \<and> esp_flash_encryption_enabled b \<and> bt_enable_result b = 0 \<and> can_device_ready b"
  by (auto simp: vcu_main_def secure_boot_init_def mqtt_client_init_None Let_def)

lemma unknown_error_stops:
  assumes "unat e < length (error_counts (errs s))"
    and "e \<notin> {ERROR_CAN_BUS types, ERROR_SENSOR types, ERROR_TASK_DEADLINE types, ERROR_STACK_OVERFLOW types, ERROR_MEMORY_CORRUPTION}"
  shows "\<exists>t. raise_error types aext ext e s = Inr (Halted t) \<and> current_state (err_kernel (errs t)) = SAFETY_STATE_SAFE_STOP"
proof -
  obtain a u where u: "should_attempt_recovery e (errs s) = Inr (a, u)"
    using assms(1) by (cases "error_counts (errs s) ! unat e < MAX_RETRIES") (auto simp: should_attempt_recovery_def mem_simps)
  obtain t where t: "stop_node aext u = Halted t" "current_state (err_kernel t) = SAFETY_STATE_SAFE_STOP"
    using stop_node_halts [of aext u] by blast
  have "handle_error types aext ext e (errs s) = Inr (Halted t)"
    using u t(1) assms(2) by (simp add: handle_error_def run_recovery_def)
  then show ?thesis using t(2) by (simp add: raise_error_def)
qed

text \<open>Losing the broker stops the vehicle's central unit. When the error handler has a counter
  for the type and no recovery routine is registered under its number, a disconnect event, seen by
  either of the two event routines, ends in the safe state, and the reconnect is not scheduled.\<close>

lemma broker_disconnect_stops_node:
  assumes "3 < length (error_counts (errs s))"
    and "3 \<notin> {ERROR_CAN_BUS types, ERROR_SENSOR types, ERROR_TASK_DEADLINE types, ERROR_STACK_OVERFLOW types}"
  shows "\<exists>t. mqtt_evt_handler types me aext ext MQTT_EVT_DISCONNECT s = Inr (Halted t) \<and>
    mqtt_event_cb types aext ext MQTT_EVT_DISCONNECT s = Inr (Halted t) \<and>
    current_state (err_kernel (errs t)) = SAFETY_STATE_SAFE_STOP \<and> scheduled t = scheduled s"
proof -
  obtain t where t: "raise_error types aext ext ERROR_MQTT_DISCONNECT s = Inr (Halted t)"
    "current_state (err_kernel (errs t)) = SAFETY_STATE_SAFE_STOP"
    using unknown_error_stops [of ERROR_MQTT_DISCONNECT s types aext ext] assms
    by (auto simp: ERROR_MQTT_DISCONNECT_def asil_error_defs)
  have "scheduled t = scheduled s"
    using t(1) by (auto simp: raise_error_def res_bind_def split: sum.splits outcome.splits)
  then show ?thesis using t by (simp add: mqtt_evt_handler_def mqtt_event_cb_def schedule_def)
qed

section \<open>Instances\<close>

definition demo_vcu :: "unit vcu_node" where
  "demo_vcu = \<lparr>errs = demo_errors, ble_state = \<lparr>adv_created = False, adv_started = False, adv_log = []\<rparr>,
     rx_filter = False, client_ready = False, work_ready = False, scheduled = [], mqtt_calls = [], watchdog_feeds = 0\<rparr>"

definition other_types :: error_types where
  "other_types = \<lparr>ERROR_CAN_BUS = 1, ERROR_SENSOR = 2, ERROR_TASK_DEADLINE = 6, ERROR_STACK_OVERFLOW = 7\<rparr>"

lemma broker_disconnect_stops_node_witness:
  "\<exists>t. mqtt_evt_handler other_types \<lparr>ERROR_MQTT_PUBLISH = 8, ERROR_MQTT_SUBSCRIBE = 9, ERROR_MQTT_CONNECT = 10\<rparr>
      (\<lambda>_ x. (True, x)) (\<lambda>_ x. (True, x)) MQTT_EVT_DISCONNECT demo_vcu = Inr (Halted t)"
proof -
  have "3 < length (error_counts (errs demo_vcu))" by (simp add: demo_vcu_def demo_errors_def)
  moreover have "3 \<notin> {ERROR_CAN_BUS other_types, ERROR_SENSOR other_types, ERROR_TASK_DEADLINE other_types, ERROR_STACK_OVERFLOW other_types}"
    by (simp add: other_types_def)
  ultimately show ?thesis using broker_disconnect_stops_node [of demo_vcu other_types] by blast
qed

end
