(* ===== verification/Float_Arith.thy ===== *)
theory Float_Arith
  imports Binary32
begin

text \<open>
  Arithmetic on the bits of a \<^verbatim>\<open>float\<close>, as the FPU of the target computes it: the exact result is
  rounded to the nearest binary32 value, ties to the even one. Every result is computed from the
  exact quotient of two naturals in units of \<open>2 ^ -149\<close>. The lemmas show that a representable
  result is exact and that rounding is monotone, so it never leaves an interval whose ends are
  representable.
\<close>

section \<open>Rounding\<close>

text \<open>The nearest natural to \<open>p / q\<close>, the even one of two.\<close>

definition round_div :: "nat \<Rightarrow> nat \<Rightarrow> nat" where
  "round_div p q =
     (let n = p div q; r = p mod q in if q < 2 * r \<or> 2 * r = q \<and> odd n then n + 1 else n)"

text \<open>The exponent of the unit in the last place of a number with the integer part \<open>n\<close>.\<close>

definition ulp_exp :: "nat \<Rightarrow> nat" where
  "ulp_exp n = (if n < 2 ^ 24 then 0 else log2_floor n - 23)"

text \<open>
  The exponent and fraction fields, as one number, of \<open>p / q\<close> rounded. The leading bit of the
  significand, which is not stored, carries into the exponent field. Too large numbers become
  infinite.
\<close>

definition f32_infinite :: nat where "f32_infinite = 255 * 2 ^ 23"

definition round_fields :: "nat \<Rightarrow> nat \<Rightarrow> nat" where
  "round_fields p q =
     (let e = ulp_exp (p div q) in min f32_infinite (e * 2 ^ 23 + round_div p (q * 2 ^ e)))"

definition f32_make :: "bool \<Rightarrow> nat \<Rightarrow> f32" where
  "f32_make s n = word_of_nat ((if s then 2 ^ 31 else 0) + n)"

definition f32_round :: "bool \<Rightarrow> nat \<Rightarrow> nat \<Rightarrow> f32" where
  "f32_round s p q = f32_make s (round_fields p q)"

section \<open>Operations\<close>

definition f32_nan :: f32 where "f32_nan = 0x7FC00000"

definition f32_is_inf :: "f32 \<Rightarrow> bool" where
  "f32_is_inf b \<longleftrightarrow> f32_exp b = 255 \<and> f32_frac b = 0"

definition f32_finite :: "f32 \<Rightarrow> bool" where "f32_finite b \<longleftrightarrow> f32_exp b \<noteq> 255"

definition f32_is_zero :: "f32 \<Rightarrow> bool" where "f32_is_zero b \<longleftrightarrow> f32_magnitude b = 0"

definition f32_le :: "f32 \<Rightarrow> f32 \<Rightarrow> bool" where
  "f32_le a b \<longleftrightarrow> \<not> f32_is_nan a \<and> \<not> f32_is_nan b \<and> f32_scaled a \<le> f32_scaled b"

text \<open>Only the sign bit changes; a NaN stays one.\<close>

definition f32_neg :: "f32 \<Rightarrow> f32" where "f32_neg a = f32_make (\<not> f32_sign a) (unat a mod 2 ^ 31)"

definition f32_abs :: "f32 \<Rightarrow> f32" where "f32_abs a = f32_make False (unat a mod 2 ^ 31)"

definition f32_add :: "f32 \<Rightarrow> f32 \<Rightarrow> f32" where
  "f32_add a b =
     (if f32_is_nan a \<or> f32_is_nan b then f32_nan
      else if f32_is_inf a then (if f32_is_inf b \<and> f32_sign a \<noteq> f32_sign b then f32_nan else a)
      else if f32_is_inf b then b
      else let s = f32_scaled a + f32_scaled b in
        if s = 0 then f32_make (f32_sign a \<and> f32_sign b) 0
        else f32_round (s < 0) (nat \<bar>s\<bar>) 1)"

definition f32_sub :: "f32 \<Rightarrow> f32 \<Rightarrow> f32" where "f32_sub a b = f32_add a (f32_neg b)"

definition f32_mul :: "f32 \<Rightarrow> f32 \<Rightarrow> f32" where
  "f32_mul a b =
     (let s = (f32_sign a \<noteq> f32_sign b) in
      if f32_is_nan a \<or> f32_is_nan b then f32_nan
      else if f32_is_inf a \<and> f32_is_zero b \<or> f32_is_zero a \<and> f32_is_inf b then f32_nan
      else if f32_is_inf a \<or> f32_is_inf b then f32_make s f32_infinite
      else f32_round s (f32_magnitude a * f32_magnitude b) (2 ^ 149))"

definition f32_div :: "f32 \<Rightarrow> f32 \<Rightarrow> f32" where
  "f32_div a b =
     (let s = (f32_sign a \<noteq> f32_sign b) in
      if f32_is_nan a \<or> f32_is_nan b then f32_nan
      else if f32_is_inf a \<and> f32_is_inf b \<or> f32_is_zero a \<and> f32_is_zero b then f32_nan
      else if f32_is_inf a \<or> f32_is_zero b then f32_make s f32_infinite
      else if f32_is_inf b then f32_make s 0
      else f32_round s (f32_magnitude a * 2 ^ 149) (f32_magnitude b))"

text \<open>A decimal constant \<open>p / q\<close> of the source, and the conversions of integers.\<close>

definition f32_const :: "nat \<Rightarrow> nat \<Rightarrow> f32" where "f32_const p q = f32_round False (p * 2 ^ 149) q"

definition f32_of_unsigned :: "nat \<Rightarrow> f32" where "f32_of_unsigned n = f32_const n 1"

definition f32_of_signed :: "int \<Rightarrow> f32" where
  "f32_of_signed i = f32_round (i < 0) (nat \<bar>i\<bar> * 2 ^ 149) 1"

text \<open>The conversion to an unsigned 16-bit integer cuts the fraction off; outside the range it is undefined.\<close>

definition f32_to_u16 :: "f32 \<Rightarrow> u16 res" where
  "f32_to_u16 a =
     (let n = f32_magnitude a div 2 ^ 149 in
      if f32_exp a = 255 \<or> 2 ^ 16 \<le> n \<or> f32_sign a \<and> 0 < n then Inl Bad_Conversion
      else Inr (word_of_nat n))"

lemmas f32_class_defs = f32_is_nan_def f32_is_inf_def f32_finite_def

lemma finite_not: "f32_finite a \<Longrightarrow> \<not> f32_is_nan a" "f32_finite a \<Longrightarrow> \<not> f32_is_inf a"
  by (simp_all add: f32_class_defs)

lemma finite_iff: "f32_finite a \<longleftrightarrow> \<not> f32_is_nan a \<and> \<not> f32_is_inf a"
  by (auto simp: f32_class_defs)

section \<open>The nearest natural\<close>

lemma round_div_le_iff:
  assumes "0 < q"
  shows "round_div p q \<le> k \<longleftrightarrow> 2 * p < (2 * k + 1) * q \<or> 2 * p = (2 * k + 1) * q \<and> even k"
proof -
  define n r where "n = p div q" and "r = p mod q"
  have p: "p = n * q + r" and r: "r < q" using assms by (simp_all add: n_def r_def)
  consider "n < k" | "n = k" | "k < n" by linarith
  then show ?thesis
  proof cases
    case 1
    then have "(n + 1) * q \<le> k * q" by (intro mult_le_mono1) simp
    then have "2 * p < (2 * k + 1) * q" using r by (simp add: p algebra_simps)
    moreover have "round_div p q \<le> k" using 1 by (simp add: round_div_def Let_def flip: n_def)
    ultimately show ?thesis by simp
  next
    case 2
    then have "2 * p < (2 * k + 1) * q \<longleftrightarrow> 2 * r < q" "2 * p = (2 * k + 1) * q \<longleftrightarrow> 2 * r = q"
      by (simp_all add: p algebra_simps)
    then show ?thesis using 2 by (auto simp: round_div_def Let_def simp flip: n_def r_def)
  next
    case 3
    then have "(k + 1) * q \<le> n * q" by (intro mult_le_mono1) simp
    then have "\<not> 2 * p \<le> (2 * k + 1) * q" using assms by (simp add: p algebra_simps)
    moreover have "\<not> round_div p q \<le> k" using 3 by (simp add: round_div_def Let_def flip: n_def)
    ultimately show ?thesis by linarith
  qed
qed

lemma round_div_mono:
  assumes "0 < q" "0 < q'" "p * q' \<le> p' * q"
  shows "round_div p q \<le> round_div p' q'"
proof -
  define k where "k = round_div p' q'"
  have k: "2 * p' < (2 * k + 1) * q' \<or> 2 * p' = (2 * k + 1) * q' \<and> even k"
    using round_div_le_iff [OF assms(2), of p' k] by (simp add: k_def)
  have le: "(2 * p) * q' \<le> (2 * p') * q" using assms(3) by simp
  from k have "2 * p < (2 * k + 1) * q \<or> 2 * p = (2 * k + 1) * q \<and> even k"
  proof
    assume "2 * p' < (2 * k + 1) * q'"
    then have "(2 * p') * q < ((2 * k + 1) * q') * q" using assms(1) by (rule mult_strict_right_mono)
    with le have "(2 * p) * q' < ((2 * k + 1) * q) * q'" by (simp only: mult_ac)
    then show ?thesis by simp
  next
    assume eq: "2 * p' = (2 * k + 1) * q' \<and> even k"
    then have "(2 * p) * q' \<le> ((2 * k + 1) * q) * q'" using le by (simp only: mult_ac)
    then have "2 * p \<le> (2 * k + 1) * q" using assms(2) by (simp only: mult_le_cancel2)
    then show ?thesis using eq by linarith
  qed
  then show ?thesis using round_div_le_iff [OF assms(1)] by (simp add: k_def)
qed

lemma round_div_exact: "0 < q \<Longrightarrow> round_div (k * q) q = k"
  by (simp add: round_div_def)

section \<open>The fields of a rounded number\<close>

definition fields_magnitude :: "nat \<Rightarrow> nat" where
  "fields_magnitude n =
     (if n div 2 ^ 23 = 0 then n mod 2 ^ 23 else (2 ^ 23 + n mod 2 ^ 23) * 2 ^ (n div 2 ^ 23 - 1))"

lemma f32_make_fields:
  assumes "n < 2 ^ 31"
  shows "f32_exp (f32_make s n) = n div 2 ^ 23" "f32_frac (f32_make s n) = n mod 2 ^ 23"
    and "f32_sign (f32_make s n) = s" "f32_magnitude (f32_make s n) = fields_magnitude n"
proof -
  have d: "(2147483648 + n) div 8388608 = 256 + n div 8388608" "(2147483648 + n) mod 8388608 = n mod 8388608"
    using div_mult_self3 [of 8388608 256 n] mod_mult_self3 [of 256 8388608 n] by simp_all
  have lt: "n div 8388608 < 256" using assms by (simp add: less_mult_imp_div_less)
  have "f32_exp (f32_make s n) = n div 8388608 \<and> f32_frac (f32_make s n) = n mod 8388608 \<and>
    f32_sign (f32_make s n) = s"
  proof (cases s)
    case True
    then have "unat (f32_make s n) = 2147483648 + n"
      using assms unat_of_nat_u32 [of "2147483648 + n"] by (simp add: f32_make_def)
    then show ?thesis using True lt d by (simp add: f32_exp_def f32_frac_def f32_sign_def)
  next
    case False
    then have "unat (f32_make s n) = n" using assms unat_of_nat_u32 [of n] by (simp add: f32_make_def)
    then show ?thesis using False assms lt by (simp add: f32_exp_def f32_frac_def f32_sign_def)
  qed
  then show "f32_exp (f32_make s n) = n div 2 ^ 23" "f32_frac (f32_make s n) = n mod 2 ^ 23"
    "f32_sign (f32_make s n) = s" "f32_magnitude (f32_make s n) = fields_magnitude n"
    by (simp_all add: f32_magnitude_def fields_magnitude_def)
qed

lemma f32_make_eq: "f32_make (f32_sign x) (unat x mod 2 ^ 31) = x"
proof (cases "f32_sign x")
  case True
  then have "2147483648 \<le> unat x" by (simp add: f32_sign_def)
  then have "unat x = 2 ^ 31 + unat x mod 2 ^ 31"
    using unat_u32_less [of x, THEN less_imp_diff_less] le_mod_geq [of 2147483648 "unat x"]
      mod_less [of "unat x - 2147483648" 2147483648] less_diff_conv2 [of 2147483648 "unat x" 2147483648]
    by simp
  then show ?thesis using True by (simp only: f32_make_def if_True flip: \<open>unat x = 2 ^ 31 + unat x mod 2 ^ 31\<close>) simp
next
  case False
  then have "unat x mod 2 ^ 31 = unat x" by (simp add: f32_sign_def)
  then show ?thesis using False by (simp add: f32_make_def)
qed

lemma f32_fields: "f32_exp x = unat x mod 2 ^ 31 div 2 ^ 23" "f32_frac x = unat x mod 2 ^ 31 mod 2 ^ 23"
    "f32_magnitude x = fields_magnitude (unat x mod 2 ^ 31)"
  using f32_make_fields [of "unat x mod 2 ^ 31" "f32_sign x", unfolded f32_make_eq] by simp_all

lemma fields_magnitude_Suc: "fields_magnitude n < fields_magnitude (Suc n)"
proof (cases "Suc (n mod 8388608) = 8388608")
  case True
  then have "Suc n div 8388608 = Suc (n div 8388608)" "Suc n mod 8388608 = 0" "n mod 8388608 = 8388607"
    by (simp_all add: div_Suc mod_Suc)
  then show ?thesis by (cases "n div 8388608") (simp_all add: fields_magnitude_def)
next
  case False
  then have "Suc n div 8388608 = n div 8388608" "Suc n mod 8388608 = Suc (n mod 8388608)"
    by (simp_all add: div_Suc mod_Suc)
  then show ?thesis by (simp add: fields_magnitude_def)
qed

lemma fields_magnitude_mono: "m \<le> n \<Longrightarrow> fields_magnitude m \<le> fields_magnitude n"
  using lift_Suc_mono_le [of fields_magnitude m n] fields_magnitude_Suc by (simp add: less_imp_le)

lemma fields_magnitude_inj: "fields_magnitude m = fields_magnitude n \<Longrightarrow> m = n"
  using lift_Suc_mono_less [of fields_magnitude, OF fields_magnitude_Suc]
  by (metis less_irrefl linorder_neqE_nat)

lemma ulp_exp_upper: "0 < q \<Longrightarrow> p < q * 2 ^ (ulp_exp (p div q) + 24)"
proof -
  assume q: "0 < q"
  have "p div q < 2 ^ (ulp_exp (p div q) + 24)"
  proof (cases "p div q < 2 ^ 24")
    case False
    then have "\<not> log2_floor (p div q) + 1 \<le> 24"
      using log2_floor_bounds [of "p div q"] power_increasing [of "log2_floor (p div q) + 1" 24 "2::nat"]
      by fastforce
    then show ?thesis using False log2_floor_bounds [of "p div q"] by (simp add: ulp_exp_def)
  qed (simp add: ulp_exp_def)
  then show ?thesis using q by (simp only: div_less_iff_less_mult mult.commute [of q])
qed

lemma ulp_exp_lower:
  assumes "0 < ulp_exp (p div q)"
  shows "q * 2 ^ (ulp_exp (p div q) + 23) \<le> p"
proof -
  have "\<not> p div q < 2 ^ 24" "23 < log2_floor (p div q)"
    using assms by (auto simp: ulp_exp_def split: if_splits)
  then have "2 ^ (ulp_exp (p div q) + 23) \<le> p div q"
    using log2_floor_bounds [of "p div q"] by (simp add: ulp_exp_def)
  then have "q * 2 ^ (ulp_exp (p div q) + 23) \<le> q * (p div q)" by (rule mult_le_mono2)
  also have "\<dots> \<le> p" by simp
  finally show ?thesis .
qed

lemma ulp_exp_mono: "m \<le> n \<Longrightarrow> ulp_exp m \<le> ulp_exp n"
proof (cases "m < 2 ^ 24")
  case False
  assume le: "m \<le> n"
  have "(2::nat) ^ log2_floor m < 2 ^ (log2_floor n + 1)"
    using False le log2_floor_bounds [of m] log2_floor_bounds [of n] by simp
  then have "log2_floor m < log2_floor n + 1" by (rule power_less_imp_less_exp [rotated]) simp
  then show ?thesis using False le by (simp add: ulp_exp_def)
qed (simp add: ulp_exp_def)

text \<open>The significand that is stored lies between \<open>2 ^ 23\<close> and \<open>2 ^ 24\<close>.\<close>

lemma significand_bounds:
  assumes "0 < q" and "e = ulp_exp (p div q)"
  shows "round_div p (q * 2 ^ e) \<le> 2 ^ 24" and "0 < e \<Longrightarrow> 2 ^ 23 \<le> round_div p (q * 2 ^ e)"
proof -
  have q: "0 < q * 2 ^ e" using assms(1) by simp
  have "p \<le> 2 ^ 24 * (q * 2 ^ e)" using ulp_exp_upper [OF assms(1), of p] by (simp add: assms(2) power_add mult_ac)
  then have "round_div p (q * 2 ^ e) \<le> round_div (2 ^ 24 * (q * 2 ^ e)) (q * 2 ^ e)"
    using q by (intro round_div_mono) (simp_all add: mult_le_mono1)
  then show "round_div p (q * 2 ^ e) \<le> 2 ^ 24" using round_div_exact [OF q] by simp
  assume "0 < e"
  then have "2 ^ 23 * (q * 2 ^ e) \<le> p" using ulp_exp_lower [of p q] by (simp add: assms(2) power_add mult_ac)
  then have "round_div (2 ^ 23 * (q * 2 ^ e)) (q * 2 ^ e) \<le> round_div p (q * 2 ^ e)"
    using q by (intro round_div_mono) (simp_all add: mult_le_mono1)
  then show "2 ^ 23 \<le> round_div p (q * 2 ^ e)" using round_div_exact [OF q] by simp
qed

lemma round_fields_mono:
  assumes "0 < q" "0 < q'" "p * q' \<le> p' * q"
  shows "round_fields p q \<le> round_fields p' q'"
proof -
  define e e' where "e = ulp_exp (p div q)" and "e' = ulp_exp (p' div q')"
  define k k' where "k = round_div p (q * 2 ^ e)" and "k' = round_div p' (q' * 2 ^ e')"
  have "p div q = (p * q') div (q * q')" "p' div q' = (p' * q) div (q * q')"
    using assms(1,2) by (simp_all add: mult.commute [of q q'])
  then have "p div q \<le> p' div q'" using assms(3) by (simp only: div_le_mono)
  then have "e \<le> e'" by (simp add: e_def e'_def ulp_exp_mono)
  then have "e * 2 ^ 23 + k \<le> e' * 2 ^ 23 + k'"
  proof (cases "e = e'")
    case True
    have "p * (q' * 2 ^ e) \<le> p' * (q * 2 ^ e)" using assms(3) by (simp add: mult_le_mono1 flip: mult.assoc)
    then show ?thesis using True assms(1,2) by (simp add: k_def k'_def round_div_mono)
  next
    case False
    then have "(e + 1) * 2 ^ 23 \<le> e' * 2 ^ 23" using \<open>e \<le> e'\<close> by (intro mult_le_mono1) simp
    moreover have "k \<le> 2 ^ 24" "2 ^ 23 \<le> k'"
      using False \<open>e \<le> e'\<close> significand_bounds(1) [OF assms(1) e_def] significand_bounds(2) [OF assms(2) e'_def]
      by (simp_all add: k_def k'_def)
    ultimately show ?thesis by simp
  qed
  then show ?thesis by (simp add: round_fields_def Let_def k_def k'_def min_le_iff_disj flip: e_def e'_def)
qed

section \<open>Representable magnitudes\<close>

definition f32_rep :: "nat \<Rightarrow> bool" where
  "f32_rep m \<longleftrightarrow> (\<exists>k e. m = k * 2 ^ e \<and> k < 2 ^ 24 \<and> e \<le> 253)"

lemma finite_rep: "f32_finite x \<Longrightarrow> f32_rep (f32_magnitude x)"
proof -
  assume "f32_finite x"
  moreover have "f32_exp x < 256" "f32_frac x < 2 ^ 23" by (simp_all add: f32_exp_def f32_frac_def)
  ultimately have "f32_magnitude x = (if f32_exp x = 0 then f32_frac x else 2 ^ 23 + f32_frac x) * 2 ^ (f32_exp x - 1)"
      "(if f32_exp x = 0 then f32_frac x else 2 ^ 23 + f32_frac x) < 2 ^ 24" "f32_exp x - 1 \<le> 253"
    by (auto simp: f32_magnitude_def f32_finite_def)
  then show ?thesis unfolding f32_rep_def by blast
qed

lemma round_fields_rep:
  assumes "f32_rep m" and "0 < q"
  shows "round_fields (m * q) q < f32_infinite" and "fields_magnitude (round_fields (m * q) q) = m"
proof -
  obtain k e where m: "m = k * 2 ^ e" and k: "k < 2 ^ 24" and e: "e \<le> 253"
    using assms(1) by (auto simp: f32_rep_def)
  have "\<exists>j d. m = j * 2 ^ d \<and> d = ulp_exp m \<and> d \<le> 253 \<and> j < 2 ^ 24 \<and> (0 < d \<longrightarrow> 2 ^ 23 \<le> j)"
  proof (cases "m < 2 ^ 24")
    case True
    then show ?thesis by (intro exI [of _ m] exI [of _ 0]) (simp add: ulp_exp_def)
  next
    case False
    define l where "l = log2_floor m"
    have l: "2 ^ l \<le> m" "m < 2 ^ (l + 1)" using log2_floor_bounds [of m] False by (simp_all add: l_def)
    have "m < 2 ^ 24 * 2 ^ e" using k by (simp add: m)
    then have "(2::nat) ^ l < 2 ^ (24 + e)" using l(1) by (simp add: power_add)
    then have "l < 24 + e" by (rule power_less_imp_less_exp [rotated]) simp
    moreover have "(2::nat) ^ 24 < 2 ^ (l + 1)" using False l(2) by linarith
    then have "24 < l + 1" by (rule power_less_imp_less_exp [rotated]) simp
    moreover define d where "d = l - 23"
    ultimately have d: "d \<le> e" "l = d + 23" "0 < d" by simp_all
    define j where "j = k * 2 ^ (e - d)"
    have "(2::nat) ^ e = 2 ^ (e - d) * 2 ^ d" using d(1) by (simp flip: power_add)
    then have mj: "m = j * 2 ^ d" by (simp add: m j_def)
    have "2 ^ 23 \<le> j" "j < 2 ^ 24" using l by (simp_all add: mj d(2) power_add)
    moreover have "d = ulp_exp m" using False by (simp add: ulp_exp_def d_def l_def)
    ultimately show ?thesis using mj d e by (intro exI [of _ j] exI [of _ d]) simp
  qed
  then obtain j d where j: "m = j * 2 ^ d" "d = ulp_exp m" "d \<le> 253" "j < 2 ^ 24" "0 < d \<longrightarrow> 2 ^ 23 \<le> j"
    by blast
  have "round_div (m * q) (q * 2 ^ d) = j"
    using assms(2) round_div_exact [of "q * 2 ^ d" j] by (simp add: j(1) mult_ac)
  then have "round_fields (m * q) q = min f32_infinite (d * 2 ^ 23 + j)"
    using assms(2) j(2) by (simp add: round_fields_def Let_def)
  moreover have lt: "d * 2 ^ 23 + j < f32_infinite" using j(3,4) by (simp add: f32_infinite_def)
  ultimately have f: "round_fields (m * q) q = d * 2 ^ 23 + j" by simp
  then show "round_fields (m * q) q < f32_infinite" using lt by simp
  show "fields_magnitude (round_fields (m * q) q) = m"
  proof (cases "j < 2 ^ 23")
    case True
    then show ?thesis unfolding f using j by (simp add: fields_magnitude_def)
  next
    case False
    then obtain i where i: "j = 8388608 + i" "i < 8388608" using j(4) by (auto simp: not_less dest: le_Suc_ex)
    then have "d * 2 ^ 23 + j = (d + 1) * 8388608 + i" by simp
    then have "(d * 2 ^ 23 + j) div 8388608 = d + 1" "(d * 2 ^ 23 + j) mod 8388608 = i"
      using i(2) div_mult_self3 [of 8388608 "d + 1" i] mod_mult_self3 [of "d + 1" 8388608 i] by simp_all
    then show ?thesis unfolding f using i(1) j(1) by (simp add: fields_magnitude_def)
  qed
qed

text \<open>A number that is representable is not changed by rounding.\<close>

lemma f32_round_rep:
  assumes "f32_rep m" and "0 < q"
  shows "f32_magnitude (f32_round s (m * q) q) = m" and "f32_sign (f32_round s (m * q) q) = s"
    and "f32_finite (f32_round s (m * q) q)"
proof -
  have inf: "round_fields (m * q) q < 255 * 8388608"
    using round_fields_rep(1) [OF assms] by (simp add: f32_infinite_def)
  note fields = f32_make_fields [of "round_fields (m * q) q" s]
  show "f32_magnitude (f32_round s (m * q) q) = m" and "f32_sign (f32_round s (m * q) q) = s"
    using fields inf round_fields_rep(2) [OF assms] by (simp_all add: f32_round_def)
  show "f32_finite (f32_round s (m * q) q)"
    using fields(1) inf less_mult_imp_div_less [OF inf] by (simp add: f32_round_def f32_finite_def)
qed

lemma f32_eqI: "f32_magnitude x = f32_magnitude y \<Longrightarrow> f32_sign x = f32_sign y \<Longrightarrow> x = y"
  using fields_magnitude_inj [of "unat x mod 2 ^ 31" "unat y mod 2 ^ 31"] f32_make_eq [of x] f32_make_eq [of y]
  by (simp add: f32_fields(3))

lemma f32_round_exact:
  "f32_finite x \<Longrightarrow> 0 < q \<Longrightarrow> f32_round (f32_sign x) (f32_magnitude x * q) q = x"
  by (simp add: f32_eqI f32_round_rep finite_rep)

lemma f32_scaled_round: "f32_rep m \<Longrightarrow> 0 < q \<Longrightarrow>
    f32_scaled (f32_round s (m * q) q) = (if s then - int m else int m)"
  by (simp add: f32_scaled_def f32_round_rep)

text \<open>Rounding never leaves an interval with representable ends.\<close>

lemma f32_round_between:
  assumes "f32_rep lo" "f32_rep hi" "0 < q" "lo * q \<le> p" "p \<le> hi * q"
  shows "lo \<le> f32_magnitude (f32_round s p q)" "f32_magnitude (f32_round s p q) \<le> hi"
    and "f32_sign (f32_round s p q) = s" "f32_finite (f32_round s p q)"
proof -
  have lo: "round_fields (lo * q) q \<le> round_fields p q" and hi: "round_fields p q \<le> round_fields (hi * q) q"
    using assms by (simp_all add: round_fields_mono mult_le_mono1)
  have inf: "round_fields p q < 255 * 8388608"
    using hi round_fields_rep(1) [OF assms(2,3)] by (simp add: f32_infinite_def)
  note fields = f32_make_fields [of "round_fields p q" s]
  show "f32_sign (f32_round s p q) = s" using fields inf by (simp add: f32_round_def)
  show "f32_finite (f32_round s p q)"
    using fields(1) inf less_mult_imp_div_less [OF inf] by (simp add: f32_round_def f32_finite_def)
  have m: "f32_magnitude (f32_round s p q) = fields_magnitude (round_fields p q)"
    using fields inf by (simp add: f32_round_def)
  show "lo \<le> f32_magnitude (f32_round s p q)" "f32_magnitude (f32_round s p q) \<le> hi"
    using fields_magnitude_mono [OF lo] fields_magnitude_mono [OF hi]
      round_fields_rep(2) [OF assms(1,3)] round_fields_rep(2) [OF assms(2,3)] by (simp_all add: m)
qed

lemma f32_rep_double: "f32_rep m \<Longrightarrow> 2 * m < 2 ^ 277 \<Longrightarrow> f32_rep (2 * m)"
proof -
  assume "f32_rep m" and lt: "2 * m < 2 ^ 277"
  then obtain k e where m: "m = k * 2 ^ e" "k < 2 ^ 24" "e \<le> 253" by (auto simp: f32_rep_def)
  show "f32_rep (2 * m)"
  proof (cases "e = 253")
    case True
    then have "2 * k * 2 ^ 253 < 2 ^ 24 * 2 ^ 253" using lt by (simp add: m(1))
    then have "2 * k < 2 ^ 24" by (simp only: mult_less_cancel2)
    then show ?thesis unfolding f32_rep_def using True by (intro exI [of _ "2 * k"] exI [of _ 253]) (simp add: m(1))
  next
    case False
    then show ?thesis unfolding f32_rep_def using m by (intro exI [of _ k] exI [of _ "Suc e"]) simp
  qed
qed

section \<open>Signs\<close>

lemma f32_make_parts:
  "f32_exp (f32_make s (unat x mod 2147483648)) = f32_exp x" "f32_frac (f32_make s (unat x mod 2147483648)) = f32_frac x"
  "f32_sign (f32_make s (unat x mod 2147483648)) = s" "f32_magnitude (f32_make s (unat x mod 2147483648)) = f32_magnitude x"
  using f32_make_fields [of "unat x mod 2147483648" s] f32_fields [of x] by simp_all

lemma f32_neg_simps [simp]:
  "f32_scaled (f32_neg x) = - f32_scaled x" "f32_finite (f32_neg x) = f32_finite x"
  "f32_is_nan (f32_neg x) = f32_is_nan x" "f32_is_inf (f32_neg x) = f32_is_inf x"
  "f32_sign (f32_neg x) \<longleftrightarrow> \<not> f32_sign x" "f32_magnitude (f32_neg x) = f32_magnitude x"
  by (simp_all add: f32_neg_def f32_scaled_def f32_class_defs f32_make_parts)

lemma f32_abs_simps [simp]:
  "f32_scaled (f32_abs x) = \<bar>f32_scaled x\<bar>" "f32_finite (f32_abs x) = f32_finite x"
  "f32_is_nan (f32_abs x) = f32_is_nan x" "f32_is_inf (f32_abs x) = f32_is_inf x"
  "\<not> f32_sign (f32_abs x)" "f32_magnitude (f32_abs x) = f32_magnitude x"
  by (simp_all add: f32_abs_def f32_scaled_def f32_class_defs f32_make_parts)

lemma f32_zero_simps [simp]:
  "f32_scaled 0 = 0" "f32_finite 0" "\<not> f32_is_nan 0" "\<not> f32_is_inf 0" "\<not> f32_sign 0" "f32_magnitude 0 = 0"
  by (simp_all add: f32_scaled_def f32_class_defs f32_sign_def f32_exp_def f32_frac_def f32_magnitude_def)

lemma f32_make_zero [simp]: "f32_scaled (f32_make s 0) = 0" "f32_finite (f32_make s 0)" "f32_magnitude (f32_make s 0) = 0"
  using f32_make_fields [of 0 s] by (auto simp: f32_scaled_def f32_finite_def fields_magnitude_def)

lemma abs_scaled: "\<bar>f32_scaled x\<bar> = int (f32_magnitude x)"
  by (simp add: f32_scaled_def)

lemma nat_abs_scaled: "nat \<bar>f32_scaled x\<bar> = f32_magnitude x"
  by (simp add: abs_scaled)

lemma f32_rep_zero [simp]: "f32_rep 0"
  by (auto simp: f32_rep_def)

text \<open>The interval lemma for signed numbers.\<close>

lemma f32_round_int_between:
  assumes "f32_rep (nat \<bar>lo\<bar>)" "f32_rep (nat \<bar>hi\<bar>)" "0 < q"
    and "lo * int q \<le> x" "x \<le> hi * int q" "x = (if s then - int p else int p)"
  shows "lo \<le> f32_scaled (f32_round s p q)" "f32_scaled (f32_round s p q) \<le> hi" "f32_finite (f32_round s p q)"
proof -
  have q: "0 < int q" using assms(3) by simp
  define l h where "l = (if s then (if hi \<le> 0 then nat (- hi) else 0) else (if 0 \<le> lo then nat lo else 0))"
    and "h = (if s then (if lo \<le> 0 then nat (- lo) else 0) else (if 0 \<le> hi then nat hi else 0))"
  have rep: "f32_rep l" "f32_rep h" using assms(1,2) by (auto simp: l_def h_def)
  have "int l * int q \<le> int p \<and> int p \<le> int h * int q"
  proof (cases s)
    case True
    then have x: "lo * int q \<le> - int p" "- int p \<le> hi * int q" using assms(4-6) by simp_all
    have "lo * int q \<le> 0" using x(1) by linarith
    then have "lo \<le> 0" using q by (simp add: mult_le_0_iff)
    then show ?thesis using True x by (auto simp: l_def h_def)
  next
    case False
    then have x: "lo * int q \<le> int p" "int p \<le> hi * int q" using assms(4-6) by simp_all
    have "0 \<le> hi * int q" using x(2) by linarith
    then have "0 \<le> hi" using q by (simp add: zero_le_mult_iff)
    then show ?thesis using False x by (auto simp: l_def h_def)
  qed
  then have pq: "l * q \<le> p" "p \<le> h * q" by (simp_all flip: of_nat_mult)
  note r = f32_round_between [OF rep assms(3) pq, of s]
  show "f32_finite (f32_round s p q)" by (rule r(4))
  have neg: "lo \<le> 0" if s
  proof -
    have "lo * int q \<le> 0" using that assms(4,6) by simp
    then show ?thesis using q by (simp add: mult_le_0_iff)
  qed
  have pos: "0 \<le> hi" if "\<not> s"
  proof -
    have "0 \<le> hi * int q" using that assms(5,6) by simp
    then show ?thesis using q by (simp add: zero_le_mult_iff)
  qed
  show "lo \<le> f32_scaled (f32_round s p q)" "f32_scaled (f32_round s p q) \<le> hi"
    using r(1,2,3) neg pos by (auto simp: f32_scaled_def l_def h_def split: if_splits)
qed

section \<open>Sums and means\<close>

lemma f32_add_finite:
  "f32_finite a \<Longrightarrow> f32_finite b \<Longrightarrow> f32_add a b =
     (let s = f32_scaled a + f32_scaled b in
      if s = 0 then f32_make (f32_sign a \<and> f32_sign b) 0 else f32_round (s < 0) (nat \<bar>s\<bar>) 1)"
  by (simp add: f32_add_def finite_not)

lemma f32_add_between:
  assumes "f32_finite a" "f32_finite b" "f32_rep (nat \<bar>lo\<bar>)" "f32_rep (nat \<bar>hi\<bar>)"
    and "lo \<le> f32_scaled a + f32_scaled b" "f32_scaled a + f32_scaled b \<le> hi"
  shows "lo \<le> f32_scaled (f32_add a b)" "f32_scaled (f32_add a b) \<le> hi" "f32_finite (f32_add a b)"
  using f32_round_int_between [OF assms(3,4), of 1 "f32_scaled a + f32_scaled b" "f32_scaled a + f32_scaled b < 0"
      "nat \<bar>f32_scaled a + f32_scaled b\<bar>"] assms
  by (auto simp: f32_add_finite Let_def)

text \<open>A sum that is representable is exact.\<close>

lemma f32_add_exact:
  assumes "f32_finite a" "f32_finite b" "f32_rep (nat \<bar>f32_scaled a + f32_scaled b\<bar>)"
  shows "f32_scaled (f32_add a b) = f32_scaled a + f32_scaled b" "f32_finite (f32_add a b)"
  using f32_add_between [OF assms(1,2) assms(3) assms(3)] by simp_all

lemma f32_zero_add:
  "f32_finite a \<Longrightarrow> f32_scaled (f32_add 0 a) = f32_scaled a" "f32_finite a \<Longrightarrow> f32_finite (f32_add 0 a)"
  using f32_add_exact [of 0 a] by (simp_all add: nat_abs_scaled finite_rep)

lemma f32_add_commute: "f32_add a b = f32_add b a"
proof -
  have "a = b" if "f32_is_inf a" "f32_is_inf b" "f32_sign a = f32_sign b"
    using that by (intro f32_eqI) (simp_all add: f32_is_inf_def f32_magnitude_def)
  then show ?thesis by (auto simp: f32_add_def Let_def add.commute conj_commute)
qed

lemma f32_round_neg: "f32_abs (f32_round s p q) = f32_round False p q"
proof -
  have "round_fields p q < 2 ^ 31" by (simp add: round_fields_def f32_infinite_def Let_def min_less_iff_disj)
  note f = f32_make_fields [OF this]
  show ?thesis by (rule f32_eqI) (simp_all add: f32_round_def f)
qed

text \<open>The distance of two floats does not depend on their order.\<close>

lemma f32_distance_commute: "f32_abs (f32_sub a b) = f32_abs (f32_sub b a)"
proof -
  have inf: "f32_abs a = f32_abs b" if "f32_is_inf a" "f32_is_inf b" for a b
    using that by (intro f32_eqI) (simp_all add: f32_is_inf_def f32_magnitude_def [of a] f32_magnitude_def [of b])
  have abs_neg: "f32_abs (f32_neg x) = f32_abs x" for x by (rule f32_eqI) simp_all
  have zero: "f32_abs (f32_make s 0) = f32_make False 0" for s
    using f32_make_fields [of 0] by (intro f32_eqI) simp_all
  show ?thesis
  proof (cases "f32_finite a \<and> f32_finite b")
    case True
    then have "f32_finite (f32_neg a)" "f32_finite (f32_neg b)" by simp_all
    then show ?thesis using True
      by (simp add: f32_sub_def f32_add_finite Let_def f32_round_neg zero abs_minus_commute [of "f32_scaled a"])
  next
    case False
    then consider "f32_is_nan a \<or> f32_is_nan b" | "\<not> f32_is_nan a" "\<not> f32_is_nan b" "f32_is_inf a" "f32_is_inf b"
      | "\<not> f32_is_nan a" "\<not> f32_is_nan b" "f32_is_inf a" "\<not> f32_is_inf b"
      | "\<not> f32_is_nan a" "\<not> f32_is_nan b" "\<not> f32_is_inf a" "f32_is_inf b"
      by (auto simp: finite_iff)
    then show ?thesis
      by cases (auto simp: f32_sub_def f32_add_def abs_neg inf [of a b])
  qed
qed

section \<open>Quotients and means\<close>

lemma f32_of_unsigned_simps [simp]:
  assumes "n < 2 ^ 24"
  shows "f32_magnitude (f32_of_unsigned n) = n * 2 ^ 149" "f32_finite (f32_of_unsigned n)"
    "\<not> f32_sign (f32_of_unsigned n)" "f32_scaled (f32_of_unsigned n) = int n * 2 ^ 149"
proof -
  have rep: "f32_rep (n * 2 ^ 149)" using assms unfolding f32_rep_def by (intro exI [of _ n] exI [of _ 149]) simp
  note r = f32_round_rep [OF rep, of 1 False]
  show "f32_magnitude (f32_of_unsigned n) = n * 2 ^ 149" "f32_finite (f32_of_unsigned n)" "\<not> f32_sign (f32_of_unsigned n)"
    using r by (simp_all add: f32_of_unsigned_def f32_const_def)
  then show "f32_scaled (f32_of_unsigned n) = int n * 2 ^ 149" by (simp add: f32_scaled_def)
qed

lemma f32_div_finite:
  "f32_finite a \<Longrightarrow> f32_finite b \<Longrightarrow> 0 < f32_magnitude b \<Longrightarrow>
     f32_div a b = f32_round (f32_sign a \<noteq> f32_sign b) (f32_magnitude a * 2 ^ 149) (f32_magnitude b)"
  by (simp add: f32_div_def finite_not f32_is_zero_def Let_def)

lemma f32_div_one: "f32_finite a \<Longrightarrow> f32_div a (f32_of_unsigned 1) = a"
  using f32_round_exact [of a "2 ^ 149"] by (simp add: f32_div_finite)

lemma f32_half_between:
  assumes "f32_finite a" "f32_rep (nat \<bar>lo\<bar>)" "f32_rep (nat \<bar>hi\<bar>)" "2 * lo \<le> f32_scaled a" "f32_scaled a \<le> 2 * hi"
  shows "lo \<le> f32_scaled (f32_div a (f32_of_unsigned 2))" "f32_scaled (f32_div a (f32_of_unsigned 2)) \<le> hi"
    and "f32_finite (f32_div a (f32_of_unsigned 2))"
  using f32_round_int_between [OF assms(2,3), of "2 * 2 ^ 149" "f32_scaled a * 2 ^ 149" "f32_sign a" "f32_magnitude a * 2 ^ 149"] assms
  by (simp_all add: f32_div_finite f32_scaled_def)

text \<open>\<^verbatim>\<open>(a + b) / 2\<close>\<close>

definition f32_mean :: "f32 \<Rightarrow> f32 \<Rightarrow> f32" where
  "f32_mean a b = f32_div (f32_add a b) (f32_of_unsigned 2)"

text \<open>Below half the range the sum does not overflow and the mean lies between the two.\<close>

definition f32_half_range :: "f32 \<Rightarrow> bool" where
  "f32_half_range a \<longleftrightarrow> f32_finite a \<and> f32_magnitude a < 2 ^ 276"

lemma f32_mean_between:
  assumes "f32_half_range a" "f32_half_range b"
  defines "lo \<equiv> min (f32_scaled a) (f32_scaled b)" and "hi \<equiv> max (f32_scaled a) (f32_scaled b)"
  shows "lo \<le> f32_scaled (f32_mean a b)" "f32_scaled (f32_mean a b) \<le> hi" "f32_finite (f32_mean a b)"
proof -
  have fin: "f32_finite a" "f32_finite b" using assms(1,2) by (simp_all add: f32_half_range_def)
  have dbl: "f32_rep (nat \<bar>2 * f32_scaled x\<bar>)" if "f32_half_range x" for x
    using that f32_rep_double [OF finite_rep, of x] by (simp add: f32_half_range_def abs_mult nat_mult_distrib nat_abs_scaled)
  have rep: "f32_rep (nat \<bar>lo\<bar>)" "f32_rep (nat \<bar>hi\<bar>)"
    using fin by (simp_all add: lo_def hi_def min_def max_def nat_abs_scaled finite_rep)
  have rep2: "f32_rep (nat \<bar>2 * lo\<bar>)" "f32_rep (nat \<bar>2 * hi\<bar>)"
    using dbl [OF assms(1)] dbl [OF assms(2)] by (simp_all add: lo_def hi_def min_def max_def)
  have "2 * lo \<le> f32_scaled a + f32_scaled b" "f32_scaled a + f32_scaled b \<le> 2 * hi"
    by (simp_all add: lo_def hi_def)
  note s = f32_add_between [OF fin rep2 this]
  note h = f32_half_between [OF s(3) rep s(1) s(2)]
  show "lo \<le> f32_scaled (f32_mean a b)" "f32_scaled (f32_mean a b) \<le> hi" "f32_finite (f32_mean a b)"
    using h by (simp_all add: f32_mean_def)
qed

lemma f32_mean_same: "f32_half_range a \<Longrightarrow> f32_scaled b = f32_scaled a \<Longrightarrow> f32_half_range b \<Longrightarrow>
    f32_scaled (f32_mean a b) = f32_scaled a"
  using f32_mean_between [of a b] by simp

section \<open>Distances\<close>

lemma infinite_sum: "\<not> f32_finite (f32_add a b)" if "\<not> f32_finite a \<or> \<not> f32_finite b"
proof -
  have "\<not> f32_finite f32_nan" by (simp add: f32_finite_def f32_nan_def f32_exp_def)
  then show ?thesis using that by (auto simp: f32_add_def finite_iff)
qed

lemma finite_distance: "f32_finite (f32_abs (f32_sub a b)) \<Longrightarrow> f32_finite a \<and> f32_finite b"
  using infinite_sum [of a "f32_neg b"] by (auto simp: f32_sub_def)

lemma f32_distance_self: "f32_finite a \<Longrightarrow> f32_scaled a = f32_scaled b \<Longrightarrow> f32_finite b \<Longrightarrow> f32_scaled (f32_abs (f32_sub a b)) = 0"
  using f32_add_exact [of a "f32_neg b"] by (simp add: f32_sub_def)

lemma finite_magnitude: "f32_finite x \<Longrightarrow> f32_magnitude x < 2 ^ 277"
proof -
  assume "f32_finite x"
  then obtain k e where k: "f32_magnitude x = k * 2 ^ e" "k < 2 ^ 24" "e \<le> 253"
    using finite_rep [of x] by (auto simp: f32_rep_def)
  have "k * 2 ^ e < 2 ^ 24 * 2 ^ e" using k(2) by simp
  also have "\<dots> \<le> 2 ^ 24 * 2 ^ 253" using k(3) by (intro mult_le_mono2 power_increasing) simp_all
  finally show ?thesis by (simp add: k(1))
qed

lemma inf_magnitude: "f32_is_inf x \<Longrightarrow> f32_magnitude x = 2 ^ 277"
  by (simp add: f32_is_inf_def f32_magnitude_def)

lemma scaled_upper: "f32_scaled x \<le> int (f32_magnitude x)"
  by (simp add: f32_scaled_def)

lemma f32_le_finite: "f32_le x t \<Longrightarrow> f32_finite t \<Longrightarrow> \<not> f32_sign x \<Longrightarrow> f32_finite x"
  using finite_magnitude [of t] inf_magnitude [of x] scaled_upper [of t]
  by (auto simp: f32_le_def finite_iff f32_scaled_def [of x])

lemma f32_less_finite: "f32_less x t \<Longrightarrow> \<not> f32_sign x \<Longrightarrow> f32_finite x"
  using finite_magnitude [of t] inf_magnitude [of x] inf_magnitude [of t] scaled_upper [of t]
  by (cases "f32_is_inf t") (auto simp: f32_less_def finite_iff f32_scaled_def [of x])

section \<open>Results next to a representable number\<close>

lemma log2_floor_eq: "2 ^ l \<le> n \<Longrightarrow> n < 2 ^ (l + 1) \<Longrightarrow> log2_floor n = l"
proof -
  assume n: "2 ^ l \<le> n" "n < 2 ^ (l + 1)"
  have "0 < n" using n(1) by (rule less_le_trans [rotated]) simp
  from log2_floor_bounds [OF this] have less: "(2::nat) ^ l < 2 ^ (log2_floor n + 1)" "(2::nat) ^ log2_floor n < 2 ^ (l + 1)"
    using n by linarith+
  from less(1) have "l < log2_floor n + 1" by (rule power_less_imp_less_exp [rotated]) simp
  moreover from less(2) have "log2_floor n < l + 1" by (rule power_less_imp_less_exp [rotated]) simp
  ultimately show ?thesis by simp
qed

text \<open>An exact result within half a unit in the last place of \<open>j * 2 ^ d\<close> is rounded to it.\<close>

lemma f32_round_near:
  assumes j: "2 ^ 23 < j" "j < 2 ^ 24" and d: "d \<le> 253" and q: "0 < q"
    and lo: "(2 * j - 1) * (q * 2 ^ d) < 2 * p" and hi: "2 * p < (2 * j + 1) * (q * 2 ^ d)"
  shows "f32_magnitude (f32_round s p q) = j * 2 ^ d" and "f32_sign (f32_round s p q) = s"
    and "f32_finite (f32_round s p q)"
proof -
  define Q where "Q = q * 2 ^ d"
  have Q: "0 < Q" using q by (simp add: Q_def)
  have "2 * 2 ^ 23 * Q \<le> (2 * j - 1) * Q" using j(1) by (intro mult_le_mono1) simp
  then have "2 * (2 ^ 23 * Q) < 2 * p" using lo unfolding Q_def [symmetric] by linarith
  then have "2 ^ (23 + d) * q \<le> p" by (simp add: Q_def power_add mult_ac)
  then have low: "2 ^ (23 + d) \<le> p div q" using q by (simp only: less_eq_div_iff_mult_less_eq)
  have "(2 * j + 1) * Q \<le> 2 * 2 ^ 24 * Q" using j(2) by (intro mult_le_mono1) simp
  then have "2 * p < 2 * (2 ^ 24 * Q)" using hi unfolding Q_def [symmetric] by linarith
  then have "p < 2 ^ (24 + d) * q" by (simp add: Q_def power_add mult_ac)
  then have high: "p div q < 2 ^ (24 + d)" using q by (simp only: div_less_iff_less_mult)
  have "log2_floor (p div q) = 23 + d" using low high by (intro log2_floor_eq) simp_all
  moreover have "\<not> p div q < 2 ^ 24" if "0 < d"
  proof -
    have "(2::nat) ^ 24 \<le> 2 ^ (23 + d)" using that by (intro power_increasing) simp_all
    then show ?thesis using low by linarith
  qed
  ultimately have e: "ulp_exp (p div q) = d" using high by (cases "d = 0") (simp_all add: ulp_exp_def)
  have "round_div p Q = j"
  proof (rule antisym)
    show "round_div p Q \<le> j" using hi round_div_le_iff [OF Q, of p j] by (simp add: Q_def)
    have "2 * (j - 1) + 1 = 2 * j - 1" using j(1) by simp
    then have "\<not> round_div p Q \<le> j - 1"
      using lo round_div_le_iff [OF Q, of p "j - 1"] by (simp add: Q_def)
    then show "j \<le> round_div p Q" by linarith
  qed
  then have f: "round_fields p q = min f32_infinite (d * 2 ^ 23 + j)" by (simp add: round_fields_def e Let_def Q_def)
  have rep: "f32_rep (j * 2 ^ d)" using j d unfolding f32_rep_def by blast
  have "ulp_exp (j * 2 ^ d) = d"
  proof -
    have "2 ^ (23 + d) \<le> j * 2 ^ d" "j * 2 ^ d < 2 ^ (24 + d)" using j by (simp_all add: power_add)
    then have "log2_floor (j * 2 ^ d) = 23 + d" by (intro log2_floor_eq) simp_all
    then show ?thesis using j \<open>2 ^ (23 + d) \<le> j * 2 ^ d\<close> power_increasing [of 24 "23 + d" "2::nat"]
      by (cases "d = 0") (auto simp: ulp_exp_def)
  qed
  then have "round_fields (j * 2 ^ d * 1) 1 = min f32_infinite (d * 2 ^ 23 + j)"
    using round_div_exact [of "2 ^ d" j] by (simp add: round_fields_def Let_def)
  then have same: "f32_round s p q = f32_round s (j * 2 ^ d * 1) 1" using f by (simp only: f32_round_def)
  show "f32_magnitude (f32_round s p q) = j * 2 ^ d" "f32_sign (f32_round s p q) = s" "f32_finite (f32_round s p q)"
    unfolding same by (rule f32_round_rep [OF rep], simp)+
qed

text \<open>
  A relative error of at most \<open>2 ^ -25\<close> is rounded away, where the exact value is a natural number
  that is no power of two.
\<close>

lemma f32_round_near_nat:
  assumes n: "0 < n" "n < 2 ^ 24" "\<And>l. n \<noteq> 2 ^ l" and q: "0 < q"
    and err: "2 ^ 25 * \<bar>int p - int (n * 2 ^ 149 * q)\<bar> \<le> int (n * 2 ^ 149 * q)"
  shows "f32_magnitude (f32_round s p q) = n * 2 ^ 149" and "f32_sign (f32_round s p q) = s"
    and "f32_finite (f32_round s p q)"
proof -
  define l where "l = log2_floor n"
  have l: "2 ^ l < n" "n < 2 * 2 ^ l" "l \<le> 23"
    using log2_floor_bounds [OF n(1)] n(3) [of l] log2_floor_small [OF n(1,2)] by (simp_all add: l_def)
  define j d where "j = n * 2 ^ (23 - l)" and "d = l + 126"
  have two: "(2::nat) ^ 23 = 2 ^ l * 2 ^ (23 - l)" "(2::nat) ^ 149 = 2 ^ (23 - l) * 2 ^ d"
    using l(3) by (simp_all add: d_def flip: power_add)
  have "2 ^ l * 2 ^ (23 - l) < n * 2 ^ (23 - l)" "n * 2 ^ (23 - l) < 2 * 2 ^ l * 2 ^ (23 - l)"
    using l(1,2) by simp_all
  then have j: "2 ^ 23 < j" "j < 2 ^ 24" by (simp_all only: j_def two(1) [symmetric] mult.assoc) simp
  have m: "n * 2 ^ 149 = j * 2 ^ d" by (simp only: j_def two(2) mult.assoc)
  define Q where "Q = q * 2 ^ d"
  have Q: "0 < Q" using q by (simp add: Q_def)
  have mQ: "n * 2 ^ 149 * q = j * Q" unfolding m Q_def by (simp add: mult_ac)
  have "2 ^ 25 * \<bar>int p - int (j * Q)\<bar> \<le> int (j * Q)" using err by (simp only: mQ)
  moreover have "int (j * Q) < 2 ^ 24 * int Q" using j(2) Q by simp
  ultimately have "2 * \<bar>int p - int (j * Q)\<bar> < int Q" by simp
  then have "(2 * int j - 1) * int Q < 2 * int p \<and> 2 * int p < (2 * int j + 1) * int Q"
    by (simp add: algebra_simps abs_if split: if_splits)
  moreover have "int (2 * j - 1) = 2 * int j - 1" using j(1) by (simp add: of_nat_diff)
  ultimately have "int ((2 * j - 1) * Q) < int (2 * p) \<and> int (2 * p) < int ((2 * j + 1) * Q)"
    by (simp only: of_nat_mult of_nat_add of_nat_numeral of_nat_1)
  then have "(2 * j - 1) * Q < 2 * p \<and> 2 * p < (2 * j + 1) * Q" by (simp only: of_nat_less_iff)
  then have lo: "(2 * j - 1) * (q * 2 ^ d) < 2 * p" and hi: "2 * p < (2 * j + 1) * (q * 2 ^ d)" by (simp_all add: Q_def)
  have "d \<le> 253" using l(3) by (simp add: d_def)
  note r = f32_round_near [OF j this q lo hi]
  show "f32_magnitude (f32_round s p q) = n * 2 ^ 149" "f32_sign (f32_round s p q) = s" "f32_finite (f32_round s p q)"
    unfolding m by (rule r)+
qed

section \<open>The rounding error\<close>

lemma round_div_error: "0 < q \<Longrightarrow> 2 * \<bar>int (round_div p q * q) - int p\<bar> \<le> int q"
proof -
  assume q: "0 < q"
  have r: "int (p mod q) = int p - int (p div q * q)" using div_mult_mod_eq [of p q] by linarith
  have "p mod q < q" using q by simp
  then show ?thesis using r by (auto simp: round_div_def Let_def algebra_simps)
qed

text \<open>A normal result differs from the exact one by at most one part in \<open>2 ^ 24\<close>.\<close>

lemma f32_round_error:
  assumes "0 < q" "q * 2 ^ 23 \<le> p" "p < q * 2 ^ 276"
  shows "2 ^ 24 * \<bar>int (f32_magnitude (f32_round s p q) * q) - int p\<bar> \<le> int p"
    and "f32_sign (f32_round s p q) = s" "f32_finite (f32_round s p q)"
proof -
  define e where "e = ulp_exp (p div q)"
  define k where "k = round_div p (q * 2 ^ e)"
  have n: "p div q < 2 ^ 276" using assms(1,3) by (simp add: div_less_iff_less_mult mult.commute)
  have e: "e \<le> 252"
  proof (cases "p div q < 2 ^ 24")
    case False
    then have "0 < p div q" by (cases "p div q") simp_all
    then have "(2::nat) ^ log2_floor (p div q) < 2 ^ 276"
      using log2_floor_bounds [of "p div q"] n by linarith
    then have "log2_floor (p div q) < 276" by (rule power_less_imp_less_exp [rotated]) simp
    then show ?thesis using False by (simp add: e_def ulp_exp_def)
  qed (simp add: e_def ulp_exp_def)
  have k: "k \<le> 2 ^ 24" using significand_bounds(1) [OF assms(1) e_def] by (simp add: k_def)
  have fields: "round_fields p q = e * 2 ^ 23 + k"
    using e k by (simp add: round_fields_def Let_def f32_infinite_def min_def flip: e_def k_def)
  have low: "q * 2 ^ (e + 23) \<le> p" using ulp_exp_lower [of p q] assms(2) by (cases "e = 0") (simp_all add: e_def)
  then have "2 ^ 23 * (q * 2 ^ e) \<le> p" by (simp add: power_add mult_ac)
  then have "round_div (2 ^ 23 * (q * 2 ^ e)) (q * 2 ^ e) \<le> k"
    using assms(1) unfolding k_def by (intro round_div_mono) (simp_all add: mult_le_mono1)
  then have k23: "2 ^ 23 \<le> k" using assms(1) round_div_exact [of "q * 2 ^ e" "2 ^ 23"] by simp
  have "fields_magnitude (e * 2 ^ 23 + k) = k * 2 ^ e"
  proof (cases "k = 16777216")
    case True
    have "e * 8388608 + 16777216 = (e + 2) * 8388608" by simp
    then have "(e * 8388608 + 16777216) div 8388608 = e + 2" "(e * 8388608 + 16777216) mod 8388608 = 0"
      by (simp_all only: nonzero_mult_div_cancel_right mod_mult_self2_is_0)
    then show ?thesis using True by (simp add: fields_magnitude_def)
  next
    case False
    then obtain i where i: "k = 8388608 + i" "i < 8388608" using k k23 by (auto dest: le_Suc_ex)
    have "(e * 8388608 + k) div 8388608 = e + 1" "(e * 8388608 + k) mod 8388608 = i"
      using i div_mult_self3 [of 8388608 "e + 1" i] mod_mult_self3 [of "e + 1" 8388608 i] by simp_all
    then show ?thesis using i(1) by (simp add: fields_magnitude_def)
  qed
  moreover have "round_fields p q < 2 ^ 31" using e k by (simp add: fields)
  note f = f32_make_fields [OF this, of s]
  ultimately have m: "f32_magnitude (f32_round s p q) = k * 2 ^ e" by (simp only: f32_round_def f(4) fields)
  show "f32_sign (f32_round s p q) = s" by (simp only: f32_round_def f(3))
  show "f32_finite (f32_round s p q)"
    using e k f(1) less_mult_imp_div_less [of "e * 8388608 + k" 255 8388608]
    by (simp add: f32_round_def f32_finite_def fields)
  have "2 * \<bar>int (k * (q * 2 ^ e)) - int p\<bar> \<le> int (q * 2 ^ e)"
    unfolding k_def using assms(1) by (intro round_div_error) simp
  moreover have "int (2 ^ 23 * (q * 2 ^ e)) \<le> int p"
    using \<open>2 ^ 23 * (q * 2 ^ e) \<le> p\<close> by (simp only: of_nat_le_iff)
  then have "2 ^ 23 * int (q * 2 ^ e) \<le> int p" by (simp only: of_nat_mult of_nat_power of_nat_numeral)
  ultimately have "2 ^ 24 * \<bar>int (k * (q * 2 ^ e)) - int p\<bar> \<le> int p" by simp
  moreover have "f32_magnitude (f32_round s p q) * q = k * (q * 2 ^ e)" by (simp only: m mult_ac)
  ultimately show "2 ^ 24 * \<bar>int (f32_magnitude (f32_round s p q) * q) - int p\<bar> \<le> int p" by (simp only:)
qed

end
