(* ===== verification/Voting.thy ===== *)
theory Voting
  imports Float_Arith
begin

text \<open>
  Two-out-of-three voting over floats, as \<^verbatim>\<open>redundancy.c\<close> and \<^verbatim>\<open>sensor_validation.c\<close> do it. The
  abstract specification is the relation \<open>voted\<close>: some pair agrees and is kept, and the third
  channel is kept because it agrees with one of the pair, or becomes the mean of the pair. The
  locales hold what either notion of agreement promises and what follows for a vote.
\<close>

definition f32_between :: "f32 \<Rightarrow> f32 \<Rightarrow> f32 \<Rightarrow> bool" where
  "f32_between a b x \<longleftrightarrow> f32_finite x \<and>
     min (f32_scaled a) (f32_scaled b) \<le> f32_scaled x \<and> f32_scaled x \<le> max (f32_scaled a) (f32_scaled b)"

type_synonym triple = "f32 \<times> f32 \<times> f32"

definition outvoted :: "(f32 \<Rightarrow> f32 \<Rightarrow> bool) \<Rightarrow> f32 \<Rightarrow> f32 \<Rightarrow> f32 \<Rightarrow> f32 \<Rightarrow> bool" where
  "outvoted agree a b c c' \<longleftrightarrow> c' = c \<and> (agree a c \<or> agree b c) \<or> c' = f32_mean a b"

definition voted :: "(f32 \<Rightarrow> f32 \<Rightarrow> bool) \<Rightarrow> triple \<Rightarrow> triple \<Rightarrow> bool" where
  "voted agree t t' =
     (case (t, t') of ((a, b, c), (a', b', c')) \<Rightarrow>
        agree a b \<and> a' = a \<and> b' = b \<and> outvoted agree a b c c' \<or>
        agree b c \<and> b' = b \<and> c' = c \<and> outvoted agree b c a a' \<or>
        agree a c \<and> a' = a \<and> c' = c \<and> outvoted agree a c b b')"

definition some_pair :: "(f32 \<Rightarrow> f32 \<Rightarrow> bool) \<Rightarrow> triple \<Rightarrow> bool" where
  "some_pair agree t = (case t of (a, b, c) \<Rightarrow> agree a b \<or> agree b c \<or> agree a c)"

text \<open>Two different channels, in either order.\<close>

definition channel_pairs :: "triple \<Rightarrow> (f32 \<times> f32) set" where
  "channel_pairs t = (case t of (a, b, c) \<Rightarrow> {(a, b), (b, a), (b, c), (c, b), (a, c), (c, a)})"

lemma f32_between_ends: "f32_finite a \<Longrightarrow> f32_between a b a" "f32_finite b \<Longrightarrow> f32_between a b b"
  by (simp_all add: f32_between_def)

lemma f32_between_mean: "f32_half_range a \<Longrightarrow> f32_half_range b \<Longrightarrow> f32_between a b (f32_mean a b)"
  by (simp add: f32_between_def f32_mean_between)

lemma f32_between_trans:
  "f32_between a b x \<Longrightarrow> f32_between a b y \<Longrightarrow> f32_between x y z \<Longrightarrow> f32_between a b z"
  by (auto simp: f32_between_def)

lemma f32_between_half_range: "f32_half_range a \<Longrightarrow> f32_half_range b \<Longrightarrow> f32_between a b x \<Longrightarrow> f32_half_range x"
  using abs_scaled [of a] abs_scaled [of b] abs_scaled [of x]
  by (auto simp: f32_between_def f32_half_range_def min_def max_def split: if_splits)

locale agreement =
  fixes agree :: "f32 \<Rightarrow> f32 \<Rightarrow> bool"
  assumes agree_commute: "agree a b = agree b a"
    and agree_finite: "agree a b \<Longrightarrow> f32_finite a \<and> f32_finite b"
begin

lemma voted_some_pair: "voted agree t t' \<Longrightarrow> some_pair agree t"
  by (auto simp: voted_def some_pair_def split: prod.splits)

lemma voted_pair: "voted agree t t' \<Longrightarrow> some_pair agree t'"
  by (auto simp: voted_def some_pair_def split: prod.splits)

text \<open>A vote changes at most one channel.\<close>

lemma voted_one_channel: "voted agree (a, b, c) (a', b', c') \<Longrightarrow>
    a' = a \<and> b' = b \<or> b' = b \<and> c' = c \<or> a' = a \<and> c' = c"
  by (auto simp: voted_def)

text \<open>
  Whatever pair agrees after a vote, it encloses only values between two agreeing channels of
  before.
\<close>

lemma outvoted_between:
  assumes "agree a b" "f32_half_range a" "f32_half_range b" "outvoted agree a b c c'" "agree u v"
    and "(u, v) \<in> channel_pairs (a, b, c')"
  shows "\<exists>x y. agree x y \<and> (x, y) \<in> channel_pairs (a, b, c) \<and> f32_between x y u \<and> f32_between x y v"
proof -
  have fin: "f32_finite a" "f32_finite b" "f32_finite u" "f32_finite v"
    using assms(1,5) agree_finite by blast+
  from assms(4) consider "c' = c" | "c' = f32_mean a b" unfolding outvoted_def by blast
  then show ?thesis
  proof cases
    case 1
    then have "(u, v) \<in> channel_pairs (a, b, c)" using assms(6) by simp
    then show ?thesis using assms(5) f32_between_ends(1) [OF fin(3)] f32_between_ends(2) [OF fin(4)] by blast
  next
    case 2
    have enclosed: "f32_between a b w" if "w \<in> {a, b, c'}" for w
      using that 2 f32_between_mean [OF assms(2,3)] f32_between_ends(1) [OF fin(1), of b] f32_between_ends(2) [OF fin(2), of a] by blast
    have "u \<in> {a, b, c'}" "v \<in> {a, b, c'}" "(a, b) \<in> channel_pairs (a, b, c)"
      using assms(6) by (auto simp: channel_pairs_def)
    then show ?thesis using enclosed assms(1) by blast
  qed
qed

lemma voted_between:
  assumes "voted agree (a, b, c) (a', b', c')"
    and half: "\<forall>x y. (x, y) \<in> channel_pairs (a, b, c) \<longrightarrow> agree x y \<longrightarrow> f32_half_range x"
    and "agree u v" "(u, v) \<in> channel_pairs (a', b', c')"
  shows "\<exists>x y. agree x y \<and> (x, y) \<in> channel_pairs (a, b, c) \<and> f32_between x y u \<and> f32_between x y v"
proof -
  have hr: "f32_half_range x \<and> f32_half_range y" if "agree x y" "(x, y) \<in> channel_pairs (a, b, c)" for x y
  proof -
    have "(y, x) \<in> channel_pairs (a, b, c)" using that(2) by (auto simp: channel_pairs_def)
    moreover have "agree y x" using that(1) agree_commute [of x y] by simp
    ultimately show ?thesis using that half by blast
  qed
  have perm: "channel_pairs (b, c, z) = channel_pairs (z, b, c)" "channel_pairs (a, c, z) = channel_pairs (a, z, c)" for z
    by (auto simp: channel_pairs_def)
  from assms(1) consider
      "agree a b" "a' = a" "b' = b" "outvoted agree a b c c'"
    | "agree b c" "b' = b" "c' = c" "outvoted agree b c a a'"
    | "agree a c" "a' = a" "c' = c" "outvoted agree a c b b'"
    by (auto simp: voted_def)
  then show ?thesis
  proof cases
    case 1
    then show ?thesis using outvoted_between [of a b c c' u v] hr [of a b] assms(3,4) by (simp add: channel_pairs_def)
  next
    case 2
    then show ?thesis using outvoted_between [of b c a a' u v] hr [of b c] assms(3,4) by (simp add: perm) (simp add: channel_pairs_def)
  next
    case 3
    then show ?thesis using outvoted_between [of a c b b' u v] hr [of a c] assms(3,4) by (simp add: perm) (simp add: channel_pairs_def)
  qed
qed

end

text \<open>Equal finite values agree, which needs a positive tolerance.\<close>

locale reflexive_agreement = agreement +
  assumes agree_same: "f32_finite a \<Longrightarrow> f32_finite b \<Longrightarrow> f32_scaled a = f32_scaled b \<Longrightarrow> agree a b"
begin

text \<open>Two equal channels are a pair that agrees, whatever the third one shows.\<close>

lemma healthy_pair:
  "f32_finite x \<Longrightarrow> a = x \<and> b = x \<or> b = x \<and> c = x \<or> a = x \<and> c = x \<Longrightarrow> some_pair agree (a, b, c)"
  by (auto simp: some_pair_def agree_same)

end

end
