(* ===== verification/Redundancy.thy ===== *)
theory Redundancy
  imports Voting
begin

text \<open>
  The redundant variables of \<^verbatim>\<open>src/common/safety/redundancy.c\<close>. \<^verbatim>\<open>TOLERANCE\<close> is declared neither
  there nor in what the file includes, so it is a parameter; \<^verbatim>\<open>update_redundant_value\<close> and
  \<^verbatim>\<open>get_validated_value\<close> of the header have no definition.
\<close>

record redundant_value =
  value1 :: f32
  value2 :: f32
  value3 :: f32
  rv_timestamp :: u32

definition within :: "f32 \<Rightarrow> f32 \<Rightarrow> f32 \<Rightarrow> bool" where
  "within tol a b = f32_less (f32_abs (f32_sub a b)) tol"

definition verify_redundant_value :: "f32 \<Rightarrow> redundant_value \<Rightarrow> bool \<times> redundant_value" where
  "verify_redundant_value tol val =
     (if within tol (value1 val) (value2 val) \<and> within tol (value2 val) (value3 val) then (True, val)
      else if within tol (value1 val) (value2 val) then
        (True, val\<lparr>value3 := f32_mean (value1 val) (value2 val)\<rparr>)
      else if within tol (value2 val) (value3 val) then
        (True, val\<lparr>value1 := f32_mean (value2 val) (value3 val)\<rparr>)
      else if within tol (value1 val) (value3 val) then
        (True, val\<lparr>value2 := f32_mean (value1 val) (value3 val)\<rparr>)
      else (False, val))"

definition rv_channels :: "redundant_value \<Rightarrow> triple" where
  "rv_channels val = (value1 val, value2 val, value3 val)"

lemma within_commute: "within tol a b = within tol b a"
  unfolding within_def by (subst f32_distance_commute) (rule refl)

lemma within_finite: "within tol a b \<Longrightarrow> f32_finite a \<and> f32_finite b"
  unfolding within_def by (rule finite_distance, rule f32_less_finite) simp_all

interpretation redundant: agreement "within tol"
  by unfold_locales (rule within_commute, rule within_finite)

lemma within_same: "f32_less 0 tol \<Longrightarrow> f32_finite a \<Longrightarrow> f32_finite b \<Longrightarrow> f32_scaled a = f32_scaled b \<Longrightarrow> within tol a b"
  using f32_distance_self [of a b] f32_add_exact [of a "f32_neg b"]
  by (simp add: within_def f32_less_def f32_sub_def finite_not)

text \<open>C4: The check of a redundant variable is a two-out-of-three vote: it fails, and leaves the
  variable alone, exactly when no two channels are within the tolerance of each other; otherwise
  the new channels are related to the old ones by the vote of the specification, so a pair that
  agrees is kept and the third channel is kept or becomes the mean of the pair.\<close>

theorem redundancy_refines_vote:
  "(case verify_redundant_value tol val of
      (False, val') \<Rightarrow> \<not> some_pair (within tol) (rv_channels val) \<and> val' = val
    | (True, val') \<Rightarrow> voted (within tol) (rv_channels val) (rv_channels val'))"
  by (simp add: verify_redundant_value_def rv_channels_def some_pair_def voted_def outvoted_def
      within_commute [of tol "value2 val" "value1 val"] within_commute [of tol "value3 val" "value2 val"])

text \<open>A single faulty channel is masked: when two channels hold the same value and the third
  any bits at all, NaN and infinities included, the check succeeds and every channel then holds
  that value or one within the tolerance of it.\<close>

lemma single_faulty_channel_masked:
  assumes "f32_half_range x" and "f32_less 0 tol"
    and "rv_channels val \<in> {(x, x, z), (z, x, x), (x, z, x)}"
  shows "\<exists>val'. verify_redundant_value tol val = (True, val') \<and>
    (\<forall>v \<in> {value1 val', value2 val', value3 val'}. f32_scaled v = f32_scaled x \<or> within tol v x)"
proof -
  have fin: "f32_finite x" using assms(1) by (simp add: f32_half_range_def)
  have self: "within tol x x" using within_same [OF assms(2) fin fin] by simp
  have mean: "f32_scaled (f32_mean x x) = f32_scaled x" by (rule f32_mean_same [OF assms(1) refl assms(1)])
  show ?thesis
    using assms(3) self mean within_commute [of tol x z]
    by (auto simp: rv_channels_def verify_redundant_value_def)
qed

lemma redundant_example:
  "f32_half_range 0x40000000" "f32_less 0 0x3E4CCCCD" "f32_scaled 0x40000000 = 2 ^ 150"
  by (simp_all add: f32_half_range_def f32_class_defs f32_less_def f32_scaled_def f32_magnitude_def
      f32_exp_def f32_frac_def f32_sign_def)

lemma single_faulty_channel_masked_witness:
  "\<exists>val'. verify_redundant_value 0x3E4CCCCD
      \<lparr>value1 = 0x40000000, value2 = 0x7FC00000, value3 = 0x40000000, rv_timestamp = 0\<rparr> = (True, val') \<and>
    (\<forall>v \<in> {value1 val', value2 val', value3 val'}. f32_scaled v = 2 ^ 150 \<or> within 0x3E4CCCCD v 0x40000000)"
  using single_faulty_channel_masked [OF redundant_example(1,2), of
      "\<lparr>value1 = 0x40000000, value2 = 0x7FC00000, value3 = 0x40000000, rv_timestamp = 0\<rparr>" "0x7FC00000"]
  by (simp add: rv_channels_def redundant_example(3))

end
