(* ===== verification/Sensor_Validation.thy ===== *)
theory Sensor_Validation
  imports Voting
begin

text \<open>
  The validation of sensor values of \<^verbatim>\<open>src/common/sensor_utils/sensor_validation.c\<close>: range, rate
  and timeout checks with a history and statistics for each sensor, and the vote over redundant
  triples. Log messages are left out; \<^verbatim>\<open>k_uptime_get_32\<close> is an argument.
\<close>

section \<open>Data\<close>

definition MAX_SENSORS :: nat where "MAX_SENSORS = 16"
definition SENSOR_TIMEOUT_MS :: u32 where "SENSOR_TIMEOUT_MS = 1000"
definition VALIDATION_WINDOW :: nat where "VALIDATION_WINDOW = 5"
definition HISTORY_SIZE :: nat where "HISTORY_SIZE = 10"

definition TOLERANCE :: f32 where "TOLERANCE = f32_const 2 10"

definition VALIDATION_SUCCESS :: u8 where "VALIDATION_SUCCESS = 0"
definition VALIDATION_RANGE_ERROR :: u8 where "VALIDATION_RANGE_ERROR = 1"
definition VALIDATION_RATE_ERROR :: u8 where "VALIDATION_RATE_ERROR = 2"
definition VALIDATION_TIMEOUT_ERROR :: u8 where "VALIDATION_TIMEOUT_ERROR = 3"
definition VALIDATION_NOISE_ERROR :: u8 where "VALIDATION_NOISE_ERROR = 4"

lemmas validation_codes = VALIDATION_SUCCESS_def VALIDATION_RANGE_ERROR_def VALIDATION_RATE_ERROR_def
  VALIDATION_TIMEOUT_ERROR_def VALIDATION_NOISE_ERROR_def

record sensor_validation_params =
  sensor_id :: u8
  min_value :: f32
  max_value :: f32
  max_rate_of_change :: f32
  timeout_ms :: u32
  noise_threshold :: f32

record sensor_validation_result =
  is_valid :: bool
  error_code :: u8
  filtered_value :: f32

record sensor_history =
  hist_values :: "f32 list"
  hist_timestamps :: "u32 list"
  hist_index :: u8

record sensor_statistics =
  total_readings :: u32
  valid_readings :: u32
  range_violations :: u32
  rate_violations :: u32
  timeouts :: u32
  max_recorded_value :: f32
  min_recorded_value :: f32
  avg_value :: f32
  validation_success_rate :: f32
  last_error_timestamp :: u32

record sensors =
  histories :: "sensor_history list"
  sensor_stats :: "sensor_statistics list"

definition empty_history :: sensor_history where
  "empty_history = \<lparr>hist_values = replicate HISTORY_SIZE 0, hist_timestamps = replicate HISTORY_SIZE 0, hist_index = 0\<rparr>"

definition empty_statistics :: sensor_statistics where
  "empty_statistics = \<lparr>total_readings = 0, valid_readings = 0, range_violations = 0, rate_violations = 0,
     timeouts = 0, max_recorded_value = 0, min_recorded_value = 0, avg_value = 0,
     validation_success_rate = 0, last_error_timestamp = 0\<rparr>"

text \<open>Static storage is zero at start.\<close>

definition sensors_at_start :: sensors where
  "sensors_at_start = \<lparr>histories = replicate MAX_SENSORS empty_history,
     sensor_stats = replicate MAX_SENSORS empty_statistics\<rparr>"

section \<open>Statistics\<close>

definition get_sensor_statistics :: "u8 \<Rightarrow> sensors \<Rightarrow> sensor_statistics option" where
  "get_sensor_statistics i s = (if MAX_SENSORS \<le> unat i then None else Some (sensor_stats s ! unat i))"

definition count_error :: "u8 \<Rightarrow> sensor_statistics \<Rightarrow> sensor_statistics" where
  "count_error code st =
     (if code = VALIDATION_RANGE_ERROR then st\<lparr>range_violations := range_violations st + 1\<rparr>
      else if code = VALIDATION_RATE_ERROR then st\<lparr>rate_violations := rate_violations st + 1\<rparr>
      else if code = VALIDATION_TIMEOUT_ERROR then st\<lparr>timeouts := timeouts st + 1\<rparr>
      else st)"

definition record_value :: "f32 \<Rightarrow> sensor_statistics \<Rightarrow> sensor_statistics" where
  "record_value value st0 =
     (let st1 = st0\<lparr>valid_readings := valid_readings st0 + 1\<rparr>;
          st2 = (if f32_less value (min_recorded_value st1) \<or> total_readings st1 = 1
                 then st1\<lparr>min_recorded_value := value\<rparr> else st1);
          st3 = (if f32_less (max_recorded_value st2) value \<or> total_readings st2 = 1
                 then st2\<lparr>max_recorded_value := value\<rparr> else st2)
      in st3\<lparr>avg_value := f32_div
           (f32_add (f32_mul (avg_value st3) (f32_of_unsigned (unat (valid_readings st3 - 1)))) value)
           (f32_of_unsigned (unat (valid_readings st3)))\<rparr>)"

definition update_statistics :: "f32 \<Rightarrow> bool \<Rightarrow> u8 \<Rightarrow> u32 \<Rightarrow> sensor_statistics \<Rightarrow> sensor_statistics" where
  "update_statistics value valid code now st =
     (let st1 = st\<lparr>total_readings := total_readings st + 1\<rparr>;
          st2 = (if valid then record_value value st1
                 else (count_error code st1)\<lparr>last_error_timestamp := now\<rparr>)
      in st2\<lparr>validation_success_rate :=
           f32_mul (f32_div (f32_of_unsigned (unat (valid_readings st2))) (f32_of_unsigned (unat (total_readings st2))))
             (f32_of_unsigned 100)\<rparr>)"

definition update_sensor_statistics :: "u8 \<Rightarrow> f32 \<Rightarrow> bool \<Rightarrow> u8 \<Rightarrow> u32 \<Rightarrow> sensors \<Rightarrow> sensors" where
  "update_sensor_statistics i value valid code now s =
     (if MAX_SENSORS \<le> unat i then s
      else s\<lparr>sensor_stats := (sensor_stats s)[unat i :=
               update_statistics value valid code now (sensor_stats s ! unat i)]\<rparr>)"

definition get_validation_error_string :: "u8 \<Rightarrow> string" where
  "get_validation_error_string code =
     (if code = VALIDATION_SUCCESS then ''Success''
      else if code = VALIDATION_RANGE_ERROR then ''Value out of range''
      else if code = VALIDATION_RATE_ERROR then ''Rate of change exceeded''
      else if code = VALIDATION_TIMEOUT_ERROR then ''Sensor timeout''
      else if code = VALIDATION_NOISE_ERROR then ''Excessive noise''
      else ''Unknown error'')"

definition reset_sensor_history :: "u8 \<Rightarrow> sensors \<Rightarrow> sensors" where
  "reset_sensor_history i s =
     (if MAX_SENSORS \<le> unat i then s
      else s\<lparr>histories := (histories s)[unat i := empty_history],
             sensor_stats := (sensor_stats s)[unat i := empty_statistics]\<rparr>)"

definition handle_sensor_timeout :: "u8 \<Rightarrow> u32 \<Rightarrow> sensors \<Rightarrow> sensors" where
  "handle_sensor_timeout i now s =
     reset_sensor_history i (update_sensor_statistics i 0 False VALIDATION_TIMEOUT_ERROR now s)"

section \<open>A single reading\<close>

text \<open>\<^verbatim>\<open>& (HISTORY_SIZE - 1)\<close>: the mask is 9, binary 1001.\<close>

definition wrap_index :: "u8 \<Rightarrow> u8" where "wrap_index i = i AND (word_of_nat HISTORY_SIZE - 1)"

text \<open>The change per second since the entry \<open>prev\<close>; \<open>None\<close> when no time has passed.\<close>

definition reading_rate :: "sensor_history \<Rightarrow> u8 \<Rightarrow> f32 \<Rightarrow> u64 \<Rightarrow> f32 option" where
  "reading_rate h prev value timestamp =
     (let time_diff = f32_div (f32_of_unsigned (unat (timestamp - ucast (hist_timestamps h ! unat prev))))
                        (f32_of_unsigned 1000)
      in if f32_less 0 time_diff
         then Some (f32_abs (f32_div (f32_sub value (hist_values h ! unat prev)) time_diff)) else None)"

definition rate_exceeded :: "sensor_validation_params \<Rightarrow> sensor_history \<Rightarrow> u8 \<Rightarrow> f32 \<Rightarrow> u64 \<Rightarrow> bool" where
  "rate_exceeded p h prev value timestamp \<longleftrightarrow>
     0 < hist_timestamps h ! unat prev \<and>
     (case reading_rate h prev value timestamp of None \<Rightarrow> False | Some rate \<Rightarrow> f32_less (max_rate_of_change p) rate)"

definition timed_out :: "sensor_validation_params \<Rightarrow> sensor_history \<Rightarrow> u8 \<Rightarrow> u64 \<Rightarrow> bool" where
  "timed_out p h prev timestamp \<longleftrightarrow>
     0 < hist_timestamps h ! unat prev \<and>
     ucast (timeout_ms p) < timestamp - ucast (hist_timestamps h ! unat prev)"

definition out_of_range :: "sensor_validation_params \<Rightarrow> f32 \<Rightarrow> bool" where
  "out_of_range p value \<longleftrightarrow> f32_less value (min_value p) \<or> f32_less (max_value p) value"

definition push_history :: "f32 \<Rightarrow> u64 \<Rightarrow> sensor_history \<Rightarrow> sensor_history" where
  "push_history value timestamp h =
     h\<lparr>hist_values := (hist_values h)[unat (hist_index h) := value],
       hist_timestamps := (hist_timestamps h)[unat (hist_index h) := ucast timestamp],
       hist_index := wrap_index (hist_index h + 1)\<rparr>"

text \<open>The loop of the moving average: the running sum and the number of entries found.\<close>

definition filter_step :: "sensor_history \<Rightarrow> f32 \<times> u8 \<Rightarrow> nat \<Rightarrow> f32 \<times> u8" where
  "filter_step h acc i =
     (let idx = wrap_index (hist_index h - 1 - word_of_nat i) in
      if 0 < hist_timestamps h ! unat idx
      then (f32_add (fst acc) (hist_values h ! unat idx), snd acc + 1) else acc)"

definition moving_average :: "sensor_history \<Rightarrow> f32 \<Rightarrow> f32" where
  "moving_average h value =
     (let (sum, count) = foldl (filter_step h) (0, 0) [0..<min VALIDATION_WINDOW HISTORY_SIZE] in
      if 0 < count then f32_div sum (f32_of_unsigned (unat count)) else value)"

definition rejected :: "u8 \<Rightarrow> sensor_validation_result" where
  "rejected code = \<lparr>is_valid = False, error_code = code, filtered_value = 0\<rparr>"

definition validate_sensor_reading ::
  "f32 \<Rightarrow> sensor_validation_params \<Rightarrow> u64 \<Rightarrow> u32 \<Rightarrow> sensors \<Rightarrow> (sensor_validation_result \<times> sensors) res" where
  "validate_sensor_reading value p timestamp now s =
     (let i = sensor_id p in
      if out_of_range p value then
        Inr (rejected VALIDATION_RANGE_ERROR, update_sensor_statistics i value False VALIDATION_RANGE_ERROR now s)
      else res_bind (mem_get (histories s) (unat i)) (\<lambda>h.
        let prev = wrap_index (hist_index h - 1) in
        if rate_exceeded p h prev value timestamp then
          Inr (rejected VALIDATION_RATE_ERROR, update_sensor_statistics i value False VALIDATION_RATE_ERROR now s)
        else if timed_out p h prev timestamp then
          Inr (rejected VALIDATION_TIMEOUT_ERROR, update_sensor_statistics i value False VALIDATION_TIMEOUT_ERROR now s)
        else
          let h' = push_history value timestamp h;
              filtered = moving_average h' value
          in Inr (\<lparr>is_valid = True, error_code = VALIDATION_SUCCESS, filtered_value = filtered\<rparr>,
               update_sensor_statistics i filtered True VALIDATION_SUCCESS now
                 (s\<lparr>histories := (histories s)[unat i := h']\<rparr>))))"

section \<open>Redundant triples\<close>

record sensor_triple =
  primary_value :: f32
  secondary_value :: f32
  reference_value :: f32
  triple_timestamp :: u32
  values_valid :: bool

definition close_to :: "f32 \<Rightarrow> f32 \<Rightarrow> bool" where
  "close_to a b = f32_le (f32_abs (f32_sub a b)) TOLERANCE"

definition validate_sensor_readings :: "u32 \<Rightarrow> sensor_triple \<Rightarrow> bool \<times> sensor_triple" where
  "validate_sensor_readings now r =
     (if \<not> values_valid r then (False, r)
      else if SENSOR_TIMEOUT_MS < now - triple_timestamp r then (False, r\<lparr>values_valid := False\<rparr>)
      else if close_to (primary_value r) (secondary_value r) \<and> close_to (secondary_value r) (reference_value r)
              \<and> close_to (primary_value r) (reference_value r) then (True, r)
      else if close_to (primary_value r) (secondary_value r) then
        (True, r\<lparr>reference_value := f32_mean (primary_value r) (secondary_value r)\<rparr>)
      else if close_to (secondary_value r) (reference_value r) then
        (True, r\<lparr>primary_value := f32_mean (secondary_value r) (reference_value r)\<rparr>)
      else if close_to (primary_value r) (reference_value r) then
        (True, r\<lparr>secondary_value := f32_mean (primary_value r) (reference_value r)\<rparr>)
      else (False, r\<lparr>values_valid := False\<rparr>))"

definition get_validated_sensor_value :: "sensor_triple \<Rightarrow> f32 \<times> sensor_triple" where
  "get_validated_sensor_value r =
     (if \<not> values_valid r then (0, r)
      else if close_to (primary_value r) (secondary_value r) then
        (f32_mean (primary_value r) (secondary_value r), r)
      else if close_to (secondary_value r) (reference_value r) then
        (f32_mean (secondary_value r) (reference_value r), r)
      else if close_to (primary_value r) (reference_value r) then
        (f32_mean (primary_value r) (reference_value r), r)
      else (0, r\<lparr>values_valid := False\<rparr>))"

text \<open>The sensor named in the last log line of \<^verbatim>\<open>handle_sensor_disagreement\<close>.\<close>

datatype channel = Primary | Secondary | Reference

definition apart :: "f32 \<Rightarrow> f32 \<Rightarrow> bool" where
  "apart a b = f32_less TOLERANCE (f32_abs (f32_sub a b))"

definition handle_sensor_disagreement :: "sensor_triple \<Rightarrow> channel option" where
  "handle_sensor_disagreement r =
     (let d12 = apart (primary_value r) (secondary_value r);
          d23 = apart (secondary_value r) (reference_value r);
          d13 = apart (primary_value r) (reference_value r)
      in if d12 \<and> d13 then Some Primary else if d12 \<and> d23 then Some Secondary
         else if d13 \<and> d23 then Some Reference else None)"

definition triple_channels :: "sensor_triple \<Rightarrow> triple" where
  "triple_channels r = (primary_value r, secondary_value r, reference_value r)"

end
