(* ===== verification/Sensor_Properties.thy ===== *)
theory Sensor_Properties
  imports Sensor_Validation
begin

text \<open>
  What the validation of sensor values guarantees. Because the ring index is masked with 9 and not
  reduced modulo 10, only the entries 0 and 1 of a history are ever written and only entry 0 is
  read; the invariant of the histories says so, and the lemmas draw the consequences for the rate
  check, the timeout check and the moving average.
\<close>

section \<open>Invariant\<close>

definition history_ok :: "sensor_history \<Rightarrow> bool" where
  "history_ok h \<longleftrightarrow> length (hist_values h) = 10 \<and> length (hist_timestamps h) = 10 \<and>
     (hist_index h = 0 \<or> hist_index h = 1) \<and> (\<forall>i < 10. 2 \<le> i \<longrightarrow> hist_timestamps h ! i = 0)"

definition statistics_ok :: "sensor_statistics \<Rightarrow> bool" where
  "statistics_ok st \<longleftrightarrow>
     total_readings st = valid_readings st + range_violations st + rate_violations st + timeouts st"

definition sensors_ok :: "sensors \<Rightarrow> bool" where
  "sensors_ok s \<longleftrightarrow> length (histories s) = 16 \<and> length (sensor_stats s) = 16 \<and>
     (\<forall>h \<in> set (histories s). history_ok h) \<and> (\<forall>st \<in> set (sensor_stats s). statistics_ok st)"

datatype sensor_event =
    Reading f32 sensor_validation_params u64 u32
  | Timeout_Seen u8 u32
  | History_Reset u8

definition sensor_step :: "sensors \<Rightarrow> sensor_event \<Rightarrow> sensors res" where
  "sensor_step s e =
     (case e of
        Reading value p timestamp now \<Rightarrow> res_bind (validate_sensor_reading value p timestamp now s) (\<lambda>(r, s'). Inr s')
      | Timeout_Seen i now \<Rightarrow> Inr (handle_sensor_timeout i now s)
      | History_Reset i \<Rightarrow> Inr (reset_sensor_history i s))"

text \<open>The readings for which the code indexes \<^verbatim>\<open>histories\<close> beyond its end: those that pass the range
  check under a sensor number of 16 or more.\<close>

definition unchecked_index :: "sensor_event \<Rightarrow> bool" where
  "unchecked_index e =
     (case e of Reading value p timestamp now \<Rightarrow> 16 \<le> unat (sensor_id p) \<and> \<not> out_of_range p value | _ \<Rightarrow> False)"

lemma start_ok: "sensors_ok sensors_at_start"
  by (simp add: sensors_ok_def sensors_at_start_def MAX_SENSORS_def history_ok_def empty_history_def
      HISTORY_SIZE_def statistics_ok_def empty_statistics_def nth_Cons')

lemma set_update_all: "\<forall>x \<in> set xs. P x \<Longrightarrow> P y \<Longrightarrow> \<forall>x \<in> set (xs[i := y]). P x"
  using set_update_subset_insert [of xs i y] by blast

lemma empty_ok: "history_ok empty_history" "statistics_ok empty_statistics"
  using start_ok by (simp_all add: sensors_ok_def sensors_at_start_def MAX_SENSORS_def)

lemma record_value_counts:
  "valid_readings (record_value v st) = valid_readings st + 1" "total_readings (record_value v st) = total_readings st"
  "range_violations (record_value v st) = range_violations st" "rate_violations (record_value v st) = rate_violations st"
  "timeouts (record_value v st) = timeouts st"
  by (simp_all add: record_value_def Let_def)

lemma update_statistics_ok:
  assumes "statistics_ok st"
    and "valid \<or> code \<in> {VALIDATION_RANGE_ERROR, VALIDATION_RATE_ERROR, VALIDATION_TIMEOUT_ERROR}"
  shows "statistics_ok (update_statistics value valid code now st)"
  using assms by (auto simp: statistics_ok_def update_statistics_def record_value_counts count_error_def validation_codes
    Let_def ac_simps)

lemma update_sensor_statistics_ok:
  assumes "sensors_ok s"
    and "valid \<or> code \<in> {VALIDATION_RANGE_ERROR, VALIDATION_RATE_ERROR, VALIDATION_TIMEOUT_ERROR}"
  shows "sensors_ok (update_sensor_statistics i value valid code now s)"
proof (cases "MAX_SENSORS \<le> unat i")
  case True
  then show ?thesis using assms by (simp add: update_sensor_statistics_def)
next
  case False
  then have "statistics_ok (sensor_stats s ! unat i)" using assms(1) by (simp add: sensors_ok_def MAX_SENSORS_def)
  note new = update_statistics_ok [OF this assms(2), of "value" now]
  have "\<forall>st \<in> set ((sensor_stats s)[unat i := update_statistics value valid code now (sensor_stats s ! unat i)]). statistics_ok st"
    using assms(1) set_update_all [of "sensor_stats s" statistics_ok, OF _ new] by (simp add: sensors_ok_def)
  then show ?thesis using False assms(1) by (simp add: sensors_ok_def update_sensor_statistics_def)
qed

lemma reset_sensor_history_ok: "sensors_ok s \<Longrightarrow> sensors_ok (reset_sensor_history i s)"
  using set_update_all [of "histories s" history_ok, OF _ empty_ok(1), of "unat i"]
    set_update_all [of "sensor_stats s" statistics_ok, OF _ empty_ok(2), of "unat i"]
  by (simp add: sensors_ok_def reset_sensor_history_def)

lemma handle_sensor_timeout_ok: "sensors_ok s \<Longrightarrow> sensors_ok (handle_sensor_timeout i now s)"
  by (simp add: handle_sensor_timeout_def reset_sensor_history_ok update_sensor_statistics_ok)

text \<open>The masked index.\<close>

lemma wrap_index_simps:
  "wrap_index (0 - 1) = 9" "wrap_index (1 - 1) = 0" "wrap_index (0 + 1) = 1" "wrap_index (1 + 1) = 0"
  by (simp_all add: wrap_index_def HISTORY_SIZE_def)

lemma push_history_ok: "history_ok h \<Longrightarrow> history_ok (push_history value timestamp h)"
  by (auto simp: history_ok_def push_history_def wrap_index_def HISTORY_SIZE_def nth_list_update)

lemma push_history_simps:
  assumes "history_ok h"
  shows "hist_index h = 0 \<Longrightarrow> push_history value timestamp h =
      h\<lparr>hist_values := (hist_values h)[0 := value], hist_timestamps := (hist_timestamps h)[0 := ucast timestamp], hist_index := 1\<rparr>"
    and "hist_index h = 1 \<Longrightarrow> push_history value timestamp h =
      h\<lparr>hist_values := (hist_values h)[1 := value], hist_timestamps := (hist_timestamps h)[1 := ucast timestamp], hist_index := 0\<rparr>"
  by (simp_all add: push_history_def wrap_index_def HISTORY_SIZE_def)

text \<open>The moving average finds one entry or none.\<close>

lemma moving_average_once:
  assumes "history_ok h"
  shows "hist_index h = 0 \<Longrightarrow> moving_average (push_history value timestamp h) value =
      (if 0 < (ucast timestamp :: u32) then f32_div (f32_add 0 value) (f32_of_unsigned 1) else value)"
    and "hist_index h = 1 \<Longrightarrow> moving_average (push_history value timestamp h) value = value"
proof -
  have len: "length (hist_values h) = 10" "length (hist_timestamps h) = 10"
    and ts: "hist_timestamps h ! 8 = 0" "hist_timestamps h ! 9 = 0"
    using assms by (simp_all add: history_ok_def)
  have five: "[0..<min VALIDATION_WINDOW HISTORY_SIZE] = [0, 1, 2, 3, 4]"
    by (simp add: VALIDATION_WINDOW_def HISTORY_SIZE_def upt_rec)
  have avg: "moving_average g v =
      (let (sum, count) = foldl (filter_step g) (0, 0) [0, 1, 2, 3, 4] in
       if 0 < count then f32_div sum (f32_of_unsigned (unat count)) else v)" for g v
    by (simp only: moving_average_def five)
  show "hist_index h = 0 \<Longrightarrow> moving_average (push_history value timestamp h) value =
      (if 0 < (ucast timestamp :: u32) then f32_div (f32_add 0 value) (f32_of_unsigned 1) else value)"
    using len ts by (simp add: push_history_simps [OF assms] avg filter_step_def
      wrap_index_def HISTORY_SIZE_def Let_def nth_list_update)
  show "hist_index h = 1 \<Longrightarrow> moving_average (push_history value timestamp h) value = value"
    using len ts by (simp add: push_history_simps [OF assms] avg filter_step_def
      wrap_index_def HISTORY_SIZE_def Let_def nth_list_update)
qed

lemma moving_average_same:
  assumes "history_ok h" and "f32_finite value"
  shows "f32_scaled (moving_average (push_history value timestamp h) value) = f32_scaled value"
    and "f32_finite (moving_average (push_history value timestamp h) value)"
  using moving_average_once [OF assms(1), of "value" timestamp] assms f32_zero_add [OF assms(2)]
    f32_div_one [of "f32_add 0 value"] by (auto simp: history_ok_def)

section \<open>One reading\<close>

lemma history_of: "sensors_ok s \<Longrightarrow> unat i < 16 \<Longrightarrow>
    mem_get (histories s) (unat i) = Inr (histories s ! unat i) \<and> history_ok (histories s ! unat i)"
  by (simp add: sensors_ok_def mem_get_def)

lemma validate_fault:
  assumes "sensors_ok s"
  shows "isl (validate_sensor_reading v p t now s) \<longleftrightarrow> 16 \<le> unat (sensor_id p) \<and> \<not> out_of_range p v"
    and "validate_sensor_reading v p t now s = Inl x \<Longrightarrow> x = Out_Of_Bounds"
  using assms by (auto simp: validate_sensor_reading_def Let_def sensors_ok_def mem_get_def split: if_splits)

lemma validate_total:
  assumes "sensors_ok s" and "unat (sensor_id p) < 16"
  shows "\<not> isl (validate_sensor_reading v p t now s)"
  using validate_fault(1) [OF assms(1)] assms(2) by simp

lemma validate_ok:
  assumes ok: "sensors_ok s" and run: "validate_sensor_reading v p t now s = Inr (r, s')"
  shows "sensors_ok s'"
proof (cases "out_of_range p v")
  case True
  then show ?thesis using ok run by (auto simp: validate_sensor_reading_def Let_def update_sensor_statistics_ok)
next
  case False
  then have id: "unat (sensor_id p) < 16" using validate_fault(1) [OF ok, of v p t now] run by auto
  define h where "h = histories s ! unat (sensor_id p)"
  have h: "mem_get (histories s) (unat (sensor_id p)) = Inr h" "history_ok h"
    using history_of [OF ok id] by (simp_all add: h_def)
  have push: "sensors_ok (s\<lparr>histories := (histories s)[unat (sensor_id p) := push_history v t h]\<rparr>)"
    using ok set_update_all [of "histories s" history_ok, OF _ push_history_ok [OF h(2)]]
    by (simp add: sensors_ok_def)
  show ?thesis using ok run h(1) push
    by (auto simp: validate_sensor_reading_def Let_def update_sensor_statistics_ok split: if_splits)
qed

interpretation validation: guarded_machine sensor_step sensors_ok "\<lambda>_. True" "\<lambda>_. unchecked_index"
proof
  fix s e s' assume ok: "sensors_ok s" and step: "sensor_step s e = Inr s'"
  show "sensors_ok s'"
  proof (cases e)
    case (Reading v p t now)
    with step obtain r where "validate_sensor_reading v p t now s = Inr (r, s')"
      by (auto simp: sensor_step_def res_bind_Inr_iff)
    then show ?thesis by (rule validate_ok [OF ok])
  qed (use ok step in \<open>auto simp: sensor_step_def handle_sensor_timeout_ok reset_sensor_history_ok\<close>)
next
  fix s e assume ok: "sensors_ok s"
  show "isl (sensor_step s e) \<longleftrightarrow> unchecked_index e"
  proof (cases e)
    case (Reading v p t now)
    then show ?thesis using validate_fault(1) [OF ok, of v p t now]
      by (cases "validate_sensor_reading v p t now s") (auto simp: sensor_step_def unchecked_index_def)
  qed (simp_all add: sensor_step_def unchecked_index_def)
qed

text \<open>The only fault is the access behind the histories, and nothing that follows prevents it.\<close>

lemma sensor_step_fault: "sensors_ok s \<Longrightarrow> sensor_step s e = Inl x \<Longrightarrow> x = Out_Of_Bounds"
  by (cases e) (auto simp: sensor_step_def res_bind_def dest: validate_fault(2) split: sum.splits)

lemma sensor_run_fault:
  "sensors_ok s \<Longrightarrow> list_ex unchecked_index es \<Longrightarrow> res_run sensor_step s es = Inl Out_Of_Bounds"
proof (induction es arbitrary: s)
  case (Cons e es)
  show ?case
  proof (cases "sensor_step s e")
    case (Inl x)
    then show ?thesis using sensor_step_fault [OF Cons.prems(1)] by simp
  next
    case (Inr u)
    then have "sensors_ok u" "\<not> unchecked_index e"
      using validation.guarded_ok validation.guarded_fault [of s e] Cons.prems(1) by auto
    then show ?thesis using Cons Inr by simp
  qed
qed simp

text \<open>The states a run of events reaches, and the reading that follows.\<close>

definition sensors_after :: "sensor_event list \<Rightarrow> sensors \<Rightarrow> bool" where
  "sensors_after es s \<longleftrightarrow> res_run sensor_step sensors_at_start es = Inr s"

lemma sensors_after_ok: "sensors_after es s \<Longrightarrow> sensors_ok s"
  using validation.run_inv [OF start_ok, of es s] by (simp add: sensors_after_def list_all_iff)

lemma validate_known: "validate_sensor_reading v p t now s = Inr (r, s') \<Longrightarrow> is_valid r \<Longrightarrow> length (histories s) = 16 \<Longrightarrow>
    unat (sensor_id p) < 16"
  by (auto simp: validate_sensor_reading_def Let_def rejected_def res_bind_Inr_iff mem_get_def split: if_splits)

lemma validate_outcome:
  assumes "sensors_ok s" and "unat (sensor_id p) < 16" and "validate_sensor_reading v p t now s = Inr (r, s')"
  defines "h \<equiv> histories s ! unat (sensor_id p)"
  shows "is_valid r \<longleftrightarrow> \<not> out_of_range p v \<and> (hist_index h = 0 \<or> \<not> rate_exceeded p h 0 v t \<and> \<not> timed_out p h 0 t)"
    and "is_valid r \<Longrightarrow> filtered_value r = moving_average (push_history v t h) v"
proof -
  have h: "mem_get (histories s) (unat (sensor_id p)) = Inr h" "history_ok h"
    using history_of [OF assms(1,2)] by (simp_all add: h_def)
  have "hist_timestamps h ! 9 = 0" using h(2) by (simp add: history_ok_def)
  then have nine: "\<not> rate_exceeded p h 9 v t" "\<not> timed_out p h 9 t"
    by (simp_all add: rate_exceeded_def timed_out_def)
  have idx: "hist_index h = 0 \<and> wrap_index (hist_index h - 1) = 9 \<or> hist_index h = 1 \<and> wrap_index (hist_index h - 1) = 0"
    using h(2) wrap_index_simps(1,2) by (auto simp: history_ok_def)
  show "is_valid r \<longleftrightarrow> \<not> out_of_range p v \<and> (hist_index h = 0 \<or> \<not> rate_exceeded p h 0 v t \<and> \<not> timed_out p h 0 t)"
    using assms(3) h(1) idx nine by (auto simp: validate_sensor_reading_def Let_def rejected_def split: if_splits)
  show "is_valid r \<Longrightarrow> filtered_value r = moving_average (push_history v t h) v"
    using assms(3) h(1) by (auto simp: validate_sensor_reading_def Let_def rejected_def split: if_splits)
qed

section \<open>Properties\<close>

text \<open>C7: The validation keeps complete books, or it leaves its arrays. A sequence of readings,
  timeouts and resets, of any sensor numbers, faults exactly when it contains a reading that is in
  range and names a sensor of number 16 or above: then \<^verbatim>\<open>histories\<close> is indexed beyond its end. Any
  other sequence runs to its end, and for each sensor the number of readings is the sum of the valid
  ones and the three kinds of errors.\<close>

theorem sensor_books_balance:
  "if list_ex unchecked_index es then res_run sensor_step sensors_at_start es = Inl Out_Of_Bounds
   else \<exists>s. res_run sensor_step sensors_at_start es = Inr s \<and> length (sensor_stats s) = 16 \<and>
    (\<forall>i < 16. total_readings (sensor_stats s ! i) =
       valid_readings (sensor_stats s ! i) + range_violations (sensor_stats s ! i) +
       rate_violations (sensor_stats s ! i) + timeouts (sensor_stats s ! i))"
proof (cases "list_ex unchecked_index es")
  case True
  then show ?thesis using sensor_run_fault [OF start_ok] by simp
next
  case False
  then have "\<not> isl (res_run sensor_step sensors_at_start es)"
    using validation.run_fault_iff [OF start_ok, of es] by (auto simp: list_all_iff list_ex_iff)
  then obtain s where run: "res_run sensor_step sensors_at_start es = Inr s" by (auto dest: not_islD)
  have "sensors_ok s" using validation.run_inv [OF start_ok _ run] by (simp add: list_all_iff)
  then show ?thesis using False run by (auto simp: sensors_ok_def statistics_ok_def)
qed

text \<open>The moving average never averages: after any history, the filtered value of an accepted
  finite reading is the reading itself.\<close>

lemma filter_never_averages:
  assumes "sensors_after es s" and "validate_sensor_reading v p t now s = Inr (r, s')"
    and "is_valid r" and "f32_finite v"
  shows "f32_finite (filtered_value r) \<and> f32_scaled (filtered_value r) = f32_scaled v"
proof -
  have ok: "sensors_ok s" by (rule sensors_after_ok [OF assms(1)])
  have id: "unat (sensor_id p) < 16" using validate_known [OF assms(2,3)] ok by (simp add: sensors_ok_def)
  have "history_ok (histories s ! unat (sensor_id p))" using history_of [OF ok id] by simp
  from moving_average_same [OF this assms(4)] show ?thesis
    using validate_outcome(2) [OF ok id assms(2,3)] by simp
qed

text \<open>A NaN passes: the range and rate comparisons are false for it, so a sensor that delivers
  NaN is accepted as valid whenever its last entry is not too old, and NaN is the filtered value.\<close>

lemma nan_is_a_valid_reading:
  assumes "sensors_after es s" and "unat (sensor_id p) < 16" and "f32_is_nan v"
    and "\<not> timed_out p (histories s ! unat (sensor_id p)) 0 t"
  shows "\<exists>r s'. validate_sensor_reading v p t now s = Inr (r, s') \<and> is_valid r \<and> f32_is_nan (filtered_value r)"
proof -
  define h where "h = histories s ! unat (sensor_id p)"
  have ok: "sensors_ok s" by (rule sensors_after_ok [OF assms(1)])
  have h: "history_ok h" using history_of [OF ok assms(2)] by (simp add: h_def)
  have nan: "f32_is_nan f32_nan" by (simp add: f32_is_nan_def f32_nan_def f32_exp_def f32_frac_def)
  obtain r s' where run: "validate_sensor_reading v p t now s = Inr (r, s')"
    using not_islD [OF validate_total [OF ok assms(2), of v t now]] by auto
  have "\<not> out_of_range p v" using assms(3) by (simp add: out_of_range_def f32_less_def)
  moreover have "f32_is_nan rate" if "reading_rate h 0 v t = Some rate" for rate
    using that assms(3) nan by (auto simp: reading_rate_def Let_def f32_sub_def f32_add_def f32_div_def split: if_splits)
  then have "\<not> rate_exceeded p h 0 v t" by (auto simp: rate_exceeded_def f32_less_def split: option.splits)
  ultimately have valid: "is_valid r"
    using validate_outcome(1) [OF ok assms(2) run] assms(4) by (simp add: h_def)
  moreover have "f32_is_nan (moving_average (push_history v t h) v)"
    using moving_average_once [OF h, of v t] h assms(3) nan by (auto simp: history_ok_def f32_add_def f32_div_def)
  ultimately show ?thesis using run validate_outcome(2) [OF ok assms(2) run valid] by (auto simp: h_def)
qed

section \<open>Timeouts\<close>

text \<open>A rejected reading leaves the histories as they are.\<close>

lemma rejected_keeps_histories:
  "validate_sensor_reading v p t now s = Inr (r, s') \<Longrightarrow> \<not> is_valid r \<Longrightarrow> histories s' = histories s"
  by (auto simp: validate_sensor_reading_def Let_def rejected_def res_bind_Inr_iff update_sensor_statistics_def split: if_splits)

lemma timed_out_later:
  assumes "timed_out p h k t" and "ucast (hist_timestamps h ! unat k) \<le> t" and "t \<le> t'"
  shows "timed_out p h k t'"
proof -
  define u :: u64 where "u = ucast (hist_timestamps h ! unat k)"
  have "u \<le> t" "t \<le> t'" using assms(2,3) by (simp_all add: u_def)
  then have "t - u \<le> t' - u" by (simp add: word_le_nat_alt unat_sub diff_le_mono)
  moreover have "ucast (timeout_ms p) < t - u" using assms(1) by (simp add: timed_out_def u_def)
  ultimately have "ucast (timeout_ms p) < t' - u" by (rule less_le_trans [rotated])
  then show ?thesis using assms(1) by (simp add: timed_out_def u_def)
qed

text \<open>The verdicts on a sequence of readings of one sensor.\<close>

fun verdicts :: "sensor_validation_params \<Rightarrow> (f32 \<times> u64 \<times> u32) list \<Rightarrow> sensors \<Rightarrow> bool list res" where
  "verdicts p [] s = Inr []"
| "verdicts p ((v, t, now) # rs) s =
     res_bind (validate_sensor_reading v p t now s) (\<lambda>(r, s').
       res_bind (verdicts p rs s') (\<lambda>vs. Inr (is_valid r # vs)))"

lemma stuck_verdicts:
  assumes "sensors_ok s" and "unat (sensor_id p) < 16"
    and "h = histories s ! unat (sensor_id p)" and "hist_index h = 1"
    and "timed_out p h 0 t" and "ucast (hist_timestamps h ! 0) \<le> t" and "list_all (\<lambda>(v, t', now). t \<le> t') rs"
  shows "verdicts p rs s = Inr (replicate (length rs) False)"
  using assms
proof (induction rs arbitrary: s)
  case (Cons a rs)
  obtain v t' now where a: "a = (v, t', now)" by (cases a)
  obtain r s' where run: "validate_sensor_reading v p t' now s = Inr (r, s')"
    using not_islD [OF validate_total [OF Cons.prems(1,2), of v t' now]] by auto
  have "timed_out p h 0 t'" using timed_out_later [OF Cons.prems(5)] Cons.prems(6,7) a by simp
  then have invalid: "\<not> is_valid r"
    using validate_outcome(1) [OF Cons.prems(1,2) run] Cons.prems(3,4) by simp
  have "histories s' = histories s" by (rule rejected_keeps_histories [OF run invalid])
  then have "verdicts p rs s' = Inr (replicate (length rs) False)"
    using Cons.IH [of s'] Cons.prems validate_ok [OF Cons.prems(1) run] by simp
  then show ?case using run invalid by (simp add: a)
qed simp

text \<open>C29: A timeout is permanent: once the only entry that is checked is older than the sensor's
  timeout, every later reading of that sensor is rejected, because a rejected reading does not
  enter the history. Only \<^verbatim>\<open>reset_sensor_history\<close> ends it: the next reading in range is accepted.\<close>

theorem timeout_is_permanent:
  assumes "sensors_after es s" and "unat (sensor_id p) < 16"
    and "hist_index (histories s ! unat (sensor_id p)) = 1"
    and "timed_out p (histories s ! unat (sensor_id p)) 0 t"
    and "ucast (hist_timestamps (histories s ! unat (sensor_id p)) ! 0) \<le> t"
    and "list_all (\<lambda>(v, t', now). t \<le> t') rs" and "\<not> out_of_range p v"
  shows "verdicts p rs s = Inr (replicate (length rs) False) \<and>
    verdicts p [(v, t', now)] (reset_sensor_history (sensor_id p) s) = Inr [True]"
proof
  have ok: "sensors_ok s" by (rule sensors_after_ok [OF assms(1)])
  show "verdicts p rs s = Inr (replicate (length rs) False)"
    by (rule stuck_verdicts [OF ok assms(2) refl assms(3,4,5,6)])
  define u where "u = reset_sensor_history (sensor_id p) s"
  have u: "sensors_ok u" by (simp add: u_def ok reset_sensor_history_ok)
  obtain r s' where run: "validate_sensor_reading v p t' now u = Inr (r, s')"
    using not_islD [OF validate_total [OF u assms(2), of v t' now]] by auto
  have "hist_index (histories u ! unat (sensor_id p)) = 0"
    using ok assms(2) by (simp add: u_def reset_sensor_history_def MAX_SENSORS_def sensors_ok_def empty_history_def)
  then have "is_valid r" using validate_outcome(1) [OF u assms(2) run] assms(7) by simp
  then show "verdicts p [(v, t', now)] (reset_sensor_history (sensor_id p) s) = Inr [True]"
    using run by (simp add: u_def)
qed

section \<open>The verdicts on a sensor's readings\<close>

text \<open>What the code compares a reading with: \<open>too_far\<close> is the rate check and the timeout check
  against an earlier reading, of which the code keeps the low half of the timestamp and which it
  ignores if that is 0.\<close>

definition too_far :: "sensor_validation_params \<Rightarrow> f32 \<times> u64 \<Rightarrow> f32 \<Rightarrow> u64 \<Rightarrow> bool" where
  "too_far p prev v t =
     (let stored = ucast (snd prev) :: u32;
          age = t - ucast stored;
          seconds = f32_div (f32_of_unsigned (unat age)) (f32_of_unsigned 1000)
      in 0 < stored \<and>
         (f32_less 0 seconds \<and> f32_less (max_rate_of_change p) (f32_abs (f32_div (f32_sub v (fst prev)) seconds)) \<or>
          ucast (timeout_ms p) < age))"

text \<open>The reference: \<open>acc\<close> lists the readings accepted so far. A reading is accepted if it is in
  range and, when the number of accepted ones is odd, not too far from the last of them.\<close>

fun expected_verdicts ::
  "sensor_validation_params \<Rightarrow> (f32 \<times> u64) list \<Rightarrow> (f32 \<times> u64 \<times> u32) list \<Rightarrow> bool list" where
  "expected_verdicts p acc [] = []"
| "expected_verdicts p acc ((v, t, now) # rs) =
     (let accepted = \<not> out_of_range p v \<and> (even (length acc) \<or> \<not> too_far p (last acc) v t)
      in accepted # expected_verdicts p (if accepted then acc @ [(v, t)] else acc) rs)"

text \<open>The history after the accepted readings \<open>acc\<close>: the index alternates, and where it is 1 slot 0
  holds the last of them.\<close>

definition history_of_readings :: "(f32 \<times> u64) list \<Rightarrow> sensor_history \<Rightarrow> bool" where
  "history_of_readings acc h \<longleftrightarrow> history_ok h \<and>
     (if even (length acc) then hist_index h = 0
      else hist_index h = 1 \<and> hist_values h ! 0 = fst (last acc) \<and> hist_timestamps h ! 0 = ucast (snd (last acc)))"

lemma too_far_history:
  assumes "history_of_readings acc h" and "odd (length acc)"
  shows "rate_exceeded p h 0 v t \<or> timed_out p h 0 t \<longleftrightarrow> too_far p (last acc) v t"
  using assms by (auto simp: history_of_readings_def rate_exceeded_def reading_rate_def timed_out_def too_far_def Let_def)

lemma history_of_readings_push:
  assumes "history_of_readings acc h"
  shows "history_of_readings (acc @ [(v, t)]) (push_history v t h)"
proof -
  have h: "history_ok h" using assms by (simp add: history_of_readings_def)
  then have len: "length (hist_values h) = 10" "length (hist_timestamps h) = 10" by (simp_all add: history_ok_def)
  then show ?thesis
    using assms push_history_ok [OF h, of v t] push_history_simps [OF h]
    by (auto simp: history_of_readings_def split: if_splits)
qed

lemma accepted_history:
  "validate_sensor_reading v p t now s = Inr (r, s') \<Longrightarrow> is_valid r \<Longrightarrow>
    histories s' = (histories s)[unat (sensor_id p) := push_history v t (histories s ! unat (sensor_id p))]"
  by (auto simp: validate_sensor_reading_def Let_def rejected_def res_bind_Inr_iff mem_get_def
      update_sensor_statistics_def split: if_splits)

lemma verdicts_expected:
  assumes "sensors_ok s" and "unat (sensor_id p) < 16" and "history_of_readings acc (histories s ! unat (sensor_id p))"
  shows "verdicts p rs s = Inr (expected_verdicts p acc rs)"
  using assms
proof (induction rs arbitrary: s acc)
  case (Cons a rs)
  obtain v t now where a: "a = (v, t, now)" by (cases a)
  define h where "h = histories s ! unat (sensor_id p)"
  define acc' where "acc' = (if \<not> out_of_range p v \<and> (even (length acc) \<or> \<not> too_far p (last acc) v t)
    then acc @ [(v, t)] else acc)"
  obtain r s' where run: "validate_sensor_reading v p t now s = Inr (r, s')"
    using not_islD [OF validate_total [OF Cons.prems(1,2), of v t now]] by auto
  have valid: "is_valid r \<longleftrightarrow> \<not> out_of_range p v \<and> (even (length acc) \<or> \<not> too_far p (last acc) v t)"
    using validate_outcome(1) [OF Cons.prems(1,2) run] too_far_history [of acc h p v t] Cons.prems(3)
    by (auto simp: history_of_readings_def h_def split: if_splits)
  have "history_of_readings acc' (histories s' ! unat (sensor_id p))"
  proof (cases "is_valid r")
    case True
    then show ?thesis
      using valid accepted_history [OF run] Cons.prems history_of_readings_push by (simp add: acc'_def sensors_ok_def)
  next
    case False
    then have "acc' = acc" using valid by (auto simp: acc'_def)
    then show ?thesis using rejected_keeps_histories [OF run False] Cons.prems(3) by simp
  qed
  then have "verdicts p rs s' = Inr (expected_verdicts p acc' rs)"
    using Cons.IH validate_ok [OF Cons.prems(1) run] Cons.prems(2) by blast
  then show ?case using run valid by (simp add: a acc'_def Let_def)
qed simp

text \<open>C28: The checks work on every second reading only. Whatever happened before, from a reset of
  its history on the verdicts on a sensor's readings are those of the reference: each reading is
  checked for its range, and the rate and timeout checks against the last accepted reading are made
  only when the number of readings accepted so far is odd.\<close>

theorem verdicts_alternate:
  assumes "sensors_after es s" and "unat (sensor_id p) < 16"
  shows "verdicts p rs (reset_sensor_history (sensor_id p) s) = Inr (expected_verdicts p [] rs)"
proof (rule verdicts_expected)
  have ok: "sensors_ok s" by (rule sensors_after_ok [OF assms(1)])
  show "sensors_ok (reset_sensor_history (sensor_id p) s)" by (rule reset_sensor_history_ok [OF ok])
  show "history_of_readings [] (histories (reset_sensor_history (sensor_id p) s) ! unat (sensor_id p))"
    using ok assms(2) empty_ok(1)
    by (simp add: history_of_readings_def reset_sensor_history_def MAX_SENSORS_def sensors_ok_def) (simp add: empty_history_def)
qed (rule assms(2))

section \<open>Witnesses\<close>

text \<open>A temperature probe with the range 0 to 100, at most 10 per second, timeout 500 ms, and a
  reading of 20.\<close>

definition probe :: sensor_validation_params where
  "probe = \<lparr>sensor_id = 3, min_value = 0, max_value = 0x42C80000, max_rate_of_change = 0x41200000,
     timeout_ms = 500, noise_threshold = 0\<rparr>"

definition twenty :: f32 where "twenty = 0x41A00000"

lemma float_examples:
  "f32_scaled 0x42C80000 = 100 * 2 ^ 149" "f32_scaled twenty = 20 * 2 ^ 149"
  "f32_finite 0x42C80000" "f32_finite twenty" "f32_is_nan 0x7FC00000"
  by (simp_all add: f32_scaled_def f32_class_defs f32_magnitude_def f32_exp_def f32_frac_def f32_sign_def twenty_def)

lemma probe_in_range: "\<not> out_of_range probe twenty"
  by (simp add: out_of_range_def probe_def f32_less_def float_examples finite_not)

definition history_with_reading :: sensor_history where
  "history_with_reading = push_history twenty 1000 empty_history"

lemma history_with_reading_simps:
  "hist_index history_with_reading = 1" "hist_timestamps history_with_reading ! 0 = 1000"
  by (simp_all add: history_with_reading_def push_history_def empty_history_def wrap_index_def HISTORY_SIZE_def)

lemma probe_run:
  "\<exists>s. sensors_after [Reading twenty probe 1000 1000] s \<and> histories s ! 3 = history_with_reading"
proof -
  have known: "unat (sensor_id probe) < 16" by (simp add: probe_def)
  obtain r s where run: "validate_sensor_reading twenty probe 1000 1000 sensors_at_start = Inr (r, s)"
    using not_islD [OF validate_total [OF start_ok known, of twenty 1000 1000]] by auto
  have "is_valid r"
    using validate_outcome(1) [OF start_ok known run] probe_in_range
    by (simp add: sensors_at_start_def probe_def MAX_SENSORS_def empty_history_def)
  then have "histories s = (histories sensors_at_start)[3 := history_with_reading]"
    using run by (auto simp: validate_sensor_reading_def Let_def rejected_def update_sensor_statistics_def probe_def
      mem_get_def sensors_at_start_def MAX_SENSORS_def history_with_reading_def split: if_splits)
  then show ?thesis using run known
    by (intro exI [of _ s]) (simp add: sensors_after_def sensor_step_def sensors_at_start_def MAX_SENSORS_def)
qed

lemma probe_old: "timed_out probe history_with_reading 0 1501" "\<not> timed_out probe history_with_reading 0 1400"
  by (simp_all add: timed_out_def history_with_reading_simps probe_def)

theorem sensor_books_balance_witness:
  "(\<exists>s. res_run sensor_step sensors_at_start
      [Reading twenty probe 1000 1000, Reading 0xC1A00000 probe 1100 1100, Timeout_Seen 5 1200] = Inr s \<and>
    total_readings (sensor_stats s ! 3) =
      valid_readings (sensor_stats s ! 3) + range_violations (sensor_stats s ! 3) +
      rate_violations (sensor_stats s ! 3) + timeouts (sensor_stats s ! 3)) \<and>
   res_run sensor_step sensors_at_start
     [Reading twenty probe 1000 1000, Reading twenty (probe\<lparr>sensor_id := 16\<rparr>) 1100 1100] = Inl Out_Of_Bounds"
proof
  show "\<exists>s. res_run sensor_step sensors_at_start
      [Reading twenty probe 1000 1000, Reading 0xC1A00000 probe 1100 1100, Timeout_Seen 5 1200] = Inr s \<and>
    total_readings (sensor_stats s ! 3) =
      valid_readings (sensor_stats s ! 3) + range_violations (sensor_stats s ! 3) +
      rate_violations (sensor_stats s ! 3) + timeouts (sensor_stats s ! 3)"
    using sensor_books_balance [of "[Reading twenty probe 1000 1000, Reading 0xC1A00000 probe 1100 1100, Timeout_Seen 5 1200]"]
    by (auto simp: unchecked_index_def probe_def)
  show "res_run sensor_step sensors_at_start
     [Reading twenty probe 1000 1000, Reading twenty (probe\<lparr>sensor_id := 16\<rparr>) 1100 1100] = Inl Out_Of_Bounds"
    using sensor_books_balance [of "[Reading twenty probe 1000 1000, Reading twenty (probe\<lparr>sensor_id := 16\<rparr>) 1100 1100]"]
      probe_in_range by (simp add: unchecked_index_def out_of_range_def)
qed

text \<open>The readings of the rate test of \<^verbatim>\<open>tests/sensor_validation_test.c\<close> and one more: 50, 51, 70 and 90,
  a tenth of a second apart, at most 10 per second. The third one, which that test expects to be
  refused, is accepted; the fourth is refused.\<close>

definition rate_probe :: sensor_validation_params where
  "rate_probe = probe\<lparr>sensor_id := 1, timeout_ms := 1000\<rparr>"

definition rate_readings :: "(f32 \<times> u64 \<times> u32) list" where
  "rate_readings = [(0x42480000, 500, 500), (0x424C0000, 600, 600), (0x428C0000, 700, 700), (0x42B40000, 800, 800)]"

text \<open>The floats on the way, computed: 1 / 0.1 is 10 and 20 / 0.1 is 200.\<close>

lemmas f32_eval = f32_div_def f32_add_def f32_sub_def f32_neg_def f32_abs_def f32_less_def f32_class_defs
  f32_is_zero_def f32_round_def round_fields_def round_div_def ulp_exp_def log2_floor.simps f32_make_def
  f32_scaled_def f32_magnitude_def f32_exp_def f32_frac_def f32_sign_def f32_infinite_def Let_def

lemma rate_values:
  "f32_of_unsigned 100 = 0x42C80000" "f32_of_unsigned 1000 = 0x447A0000"
  by (simp_all add: f32_of_unsigned_def f32_const_def f32_eval)

lemma rate_quotients:
  "f32_div 0x42C80000 0x447A0000 = 0x3DCCCCCD"
  "f32_sub 0x424C0000 0x42480000 = 0x3F800000" "f32_sub 0x42B40000 0x428C0000 = 0x41A00000"
  "f32_abs (f32_div 0x3F800000 0x3DCCCCCD) = 0x41200000" "f32_abs (f32_div 0x41A00000 0x3DCCCCCD) = 0x43480000"
  by (simp_all add: f32_eval)

lemma rate_comparisons:
  "f32_less 0 0x3DCCCCCD" "\<not> f32_less 0x41200000 0x41200000" "f32_less 0x41200000 0x43480000"
  "\<not> f32_less 0x42480000 0" "\<not> f32_less 0x424C0000 0" "\<not> f32_less 0x428C0000 0" "\<not> f32_less 0x42B40000 0"
  "\<not> f32_less 0x42C80000 0x42480000" "\<not> f32_less 0x42C80000 0x424C0000"
  "\<not> f32_less 0x42C80000 0x428C0000" "\<not> f32_less 0x42C80000 0x42B40000"
  by (simp_all add: f32_less_def f32_class_defs f32_scaled_def f32_magnitude_def f32_exp_def f32_frac_def f32_sign_def)

lemma rate_readings_expected: "expected_verdicts rate_probe [] rate_readings = [True, True, True, False]"
  by (simp add: rate_readings_def rate_probe_def probe_def out_of_range_def too_far_def Let_def
      rate_values rate_quotients rate_comparisons)

theorem verdicts_alternate_witness:
  "\<exists>s. sensors_after [Reading twenty probe 1000 1000] s \<and>
    verdicts rate_probe rate_readings (reset_sensor_history 1 s) = Inr [True, True, True, False]"
proof -
  obtain s where s: "sensors_after [Reading twenty probe 1000 1000] s" using probe_run by blast
  have "sensor_id rate_probe = 1" by (simp add: rate_probe_def)
  then show ?thesis using verdicts_alternate [OF s, of rate_probe rate_readings] s
    by (auto simp: rate_readings_expected)
qed

lemma filter_never_averages_witness:
  "\<exists>r s'. validate_sensor_reading twenty probe 1000 1000 sensors_at_start = Inr (r, s') \<and>
    f32_scaled (filtered_value r) = 20 * 2 ^ 149"
proof -
  have start: "sensors_after [] sensors_at_start" by (simp add: sensors_after_def)
  have known: "unat (sensor_id probe) < 16" by (simp add: probe_def)
  obtain r s where run: "validate_sensor_reading twenty probe 1000 1000 sensors_at_start = Inr (r, s)"
    using not_islD [OF validate_total [OF start_ok known, of twenty 1000 1000]] by auto
  have "is_valid r" using validate_outcome(1) [OF start_ok known run] probe_in_range
    by (simp add: sensors_at_start_def probe_def MAX_SENSORS_def empty_history_def)
  from filter_never_averages [OF start run this] run show ?thesis by (simp add: float_examples)
qed

lemma nan_is_a_valid_reading_witness:
  "\<exists>s r s'. sensors_after [Reading twenty probe 1000 1000] s \<and>
    validate_sensor_reading 0x7FC00000 probe 1400 1400 s = Inr (r, s') \<and> is_valid r \<and> f32_is_nan (filtered_value r)"
proof -
  obtain s where s: "sensors_after [Reading twenty probe 1000 1000] s" "histories s ! 3 = history_with_reading"
    using probe_run by blast
  have "unat (sensor_id probe) = 3" by (simp add: probe_def)
  then show ?thesis
    using nan_is_a_valid_reading [OF s(1), of probe "0x7FC00000" 1400 1400] s probe_old float_examples by auto
qed

theorem timeout_is_permanent_witness:
  "\<exists>s. sensors_after [Reading twenty probe 1000 1000] s \<and>
    verdicts probe [(twenty, 1501, 1501), (twenty, 9000, 9000)] s = Inr [False, False] \<and>
    verdicts probe [(twenty, 9000, 9000)] (reset_sensor_history 3 s) = Inr [True]"
proof -
  obtain s where s: "sensors_after [Reading twenty probe 1000 1000] s" "histories s ! 3 = history_with_reading"
    using probe_run by blast
  have id: "unat (sensor_id probe) = 3" "sensor_id probe = 3" by (simp_all add: probe_def)
  have "verdicts probe [(twenty, 1501, 1501), (twenty, 9000, 9000)] s =
      Inr (replicate (length [(twenty, 1501 :: u64, 1501 :: u32), (twenty, 9000, 9000)]) False) \<and>
    verdicts probe [(twenty, 9000, 9000)] (reset_sensor_history (sensor_id probe) s) = Inr [True]"
    by (rule timeout_is_permanent [OF s(1), where t = 1501])
      (simp_all add: id s(2) history_with_reading_simps probe_old probe_in_range)
  then have "verdicts probe [(twenty, 1501, 1501), (twenty, 9000, 9000)] s = Inr [False, False] \<and>
    verdicts probe [(twenty, 9000, 9000)] (reset_sensor_history 3 s) = Inr [True]"
    by (simp only: id) (simp add: numeral_2_eq_2)
  then show ?thesis using s(1) by blast
qed

end
