(* ===== verification/Sensor_Triples.thy ===== *)
theory Sensor_Triples
  imports Sensor_Validation
begin

text \<open>
  The vote over redundant sensor triples of \<^verbatim>\<open>sensor_validation.c\<close>, and what the value taken from a
  validated triple is worth.
\<close>

lemma tolerance: "f32_finite TOLERANCE" "2 ^ 146 \<le> f32_scaled TOLERANCE" "f32_scaled TOLERANCE \<le> 2 ^ 147"
proof -
  have "f32_rep (2 ^ 146)" "f32_rep (2 ^ 147)"
    unfolding f32_rep_def by (intro exI [of _ 1] exI [of _ 146], simp) (intro exI [of _ 1] exI [of _ 147], simp)
  note b = f32_round_between [OF this, of 10 "2 * 2 ^ 149" False]
  show "f32_finite TOLERANCE" "2 ^ 146 \<le> f32_scaled TOLERANCE" "f32_scaled TOLERANCE \<le> 2 ^ 147"
    using b by (simp_all add: TOLERANCE_def f32_const_def f32_scaled_def)
qed

lemma close_to_commute: "close_to a b = close_to b a"
  unfolding close_to_def by (subst f32_distance_commute) (rule refl)

lemma close_to_finite: "close_to a b \<Longrightarrow> f32_finite a \<and> f32_finite b"
  unfolding close_to_def by (rule finite_distance, rule f32_le_finite [OF _ tolerance(1)]) simp_all

lemma close_to_same: "f32_finite a \<Longrightarrow> f32_finite b \<Longrightarrow> f32_scaled a = f32_scaled b \<Longrightarrow> close_to a b"
  using f32_distance_self [of a b] f32_add_exact [of a "f32_neg b"] tolerance
  by (simp add: close_to_def f32_le_def f32_sub_def finite_not)

interpretation triples: reflexive_agreement close_to
  by (intro reflexive_agreement.intro agreement.intro reflexive_agreement_axioms.intro)
    (rule close_to_commute, rule close_to_finite, assumption, rule close_to_same, assumption+)

definition fresh :: "u32 \<Rightarrow> sensor_triple \<Rightarrow> bool" where
  "fresh now r \<longleftrightarrow> values_valid r \<and> \<not> SENSOR_TIMEOUT_MS < now - triple_timestamp r"

lemma validate_triple:
  "fresh now r \<Longrightarrow> (case validate_sensor_readings now r of
      (False, r') \<Rightarrow> \<not> some_pair close_to (triple_channels r) \<and> triple_channels r' = triple_channels r \<and> \<not> values_valid r'
    | (True, r') \<Rightarrow> voted close_to (triple_channels r) (triple_channels r') \<and> values_valid r')"
  by (simp add: fresh_def validate_sensor_readings_def triple_channels_def some_pair_def voted_def outvoted_def
      close_to_commute [of "secondary_value r" "primary_value r"]
      close_to_commute [of "reference_value r" "secondary_value r"])

lemma stale_triple: "\<not> fresh now r \<Longrightarrow> \<exists>r'. validate_sensor_readings now r = (False, r') \<and> \<not> values_valid r' \<and>
    triple_channels r' = triple_channels r"
  by (auto simp: fresh_def validate_sensor_readings_def triple_channels_def)

lemma get_validated_pair:
  assumes "values_valid r" and "some_pair close_to (triple_channels r)"
  shows "\<exists>u v. close_to u v \<and> (u, v) \<in> channel_pairs (triple_channels r) \<and>
    get_validated_sensor_value r = (f32_mean u v, r)"
  using assms by (auto simp: get_validated_sensor_value_def some_pair_def triple_channels_def channel_pairs_def)

text \<open>The value taken from a validated triple lies between two channels of the readings that agree.\<close>

lemma validated_value_backed:
  assumes "validate_sensor_readings now r = (True, r')"
    and half: "\<forall>x y. (x, y) \<in> channel_pairs (triple_channels r) \<longrightarrow> close_to x y \<longrightarrow> f32_half_range x"
  shows "\<exists>v x y. get_validated_sensor_value r' = (v, r') \<and> close_to x y \<and>
    (x, y) \<in> channel_pairs (triple_channels r) \<and> f32_between x y v"
proof -
  have "fresh now r" using assms(1) stale_triple [of now r] by auto
  then have vote: "voted close_to (triple_channels r) (triple_channels r')" and valid: "values_valid r'"
    using validate_triple [of now r] assms(1) by simp_all
  obtain u v where uv: "close_to u v" "(u, v) \<in> channel_pairs (triple_channels r')"
      "get_validated_sensor_value r' = (f32_mean u v, r')"
    using get_validated_pair [OF valid triples.voted_pair [OF vote]] by blast
  obtain x y where xy: "close_to x y" "(x, y) \<in> channel_pairs (triple_channels r)"
      "f32_between x y u" "f32_between x y v"
    using triples.voted_between [OF vote [unfolded triple_channels_def] half [unfolded triple_channels_def] uv(1)] uv(2)
    unfolding triple_channels_def by blast
  have "(y, x) \<in> channel_pairs (triple_channels r)" "close_to y x"
    using xy(1,2) close_to_commute [of x y] by (auto simp: channel_pairs_def triple_channels_def)
  then have "f32_half_range x" "f32_half_range y" using half xy(1,2) by blast+
  then have "f32_half_range u" "f32_half_range v" using xy(3,4) f32_between_half_range by blast+
  then have "f32_between u v (f32_mean u v)" by (rule f32_between_mean)
  then have "f32_between x y (f32_mean u v)" by (rule f32_between_trans [OF xy(3,4)])
  then show ?thesis using uv(3) xy(1,2) by blast
qed

text \<open>C8: The validation of a triple is a two-out-of-three vote: stale or flagged readings fail
  and are flagged; fresh ones fail, and are flagged, exactly when no two channels are within 0.2 of
  each other; otherwise the new channels are related to the old ones by the vote of the
  specification. A failure never changes a channel.\<close>

theorem triple_validation_refines_vote:
  "(case validate_sensor_readings now r of
      (False, r') \<Rightarrow> \<not> (fresh now r \<and> some_pair close_to (triple_channels r)) \<and> \<not> values_valid r' \<and>
        triple_channels r' = triple_channels r
    | (True, r') \<Rightarrow> fresh now r \<and> voted close_to (triple_channels r) (triple_channels r') \<and> values_valid r')"
  using validate_triple [of now r] stale_triple [of now r]
  by (cases "fresh now r") (auto split: prod.splits bool.splits)

section \<open>Faulty sensors\<close>

text \<open>Between a value below half the range and a finite one above lies more than the tolerance.\<close>

lemma f32_round_lower: "f32_rep lo \<Longrightarrow> 0 < q \<Longrightarrow> lo * q \<le> p \<Longrightarrow> lo \<le> f32_magnitude (f32_round s p q)"
proof -
  assume rep: "f32_rep lo" and q: "0 < q" and p: "lo * q \<le> p"
  have "round_fields p q < 2 ^ 31" by (simp add: round_fields_def f32_infinite_def Let_def min_def)
  then have "f32_magnitude (f32_round s p q) = fields_magnitude (round_fields p q)"
    using f32_make_fields(4) by (simp add: f32_round_def)
  moreover have "round_fields (lo * q) q \<le> round_fields p q" using p q by (simp add: round_fields_mono mult_le_mono1)
  ultimately show ?thesis using fields_magnitude_mono round_fields_rep(2) [OF rep q] by metis
qed

lemma half_range_magnitude: "f32_half_range a \<Longrightarrow> f32_magnitude a + 2 ^ 252 \<le> 2 ^ 276"
proof -
  assume "f32_half_range a"
  then have m: "f32_magnitude a < 2 ^ 276" by (simp add: f32_half_range_def)
  have frac: "f32_frac a < 2 ^ 23" by (simp add: f32_frac_def)
  show ?thesis
  proof (cases "f32_exp a - 1 \<le> 252 \<and> f32_exp a \<noteq> 0")
    case True
    have "f32_magnitude a = (2 ^ 23 + f32_frac a) * 2 ^ (f32_exp a - 1)" using True by (simp add: f32_magnitude_def)
    also have "\<dots> \<le> (2 ^ 24 - 1) * 2 ^ (f32_exp a - 1)" using frac by (intro mult_le_mono1) simp
    also have "\<dots> \<le> (2 ^ 24 - 1) * 2 ^ 252" using True by (intro mult_le_mono2 power_increasing) simp_all
    finally show ?thesis by simp
  next
    case False
    show ?thesis
    proof (cases "f32_exp a = 0")
      case True
      then show ?thesis using frac by (simp add: f32_magnitude_def)
    next
      case exp: False
      then have "(2::nat) ^ 253 \<le> 2 ^ (f32_exp a - 1)" using False by (intro power_increasing) auto
      then have "2 ^ 23 * 2 ^ 253 \<le> (2 ^ 23 + f32_frac a) * 2 ^ (f32_exp a - 1)" by (intro mult_le_mono) simp_all
      then show ?thesis using m exp by (simp add: f32_magnitude_def)
    qed
  qed
qed

lemma half_range_close:
  assumes "close_to a z" and "f32_half_range a"
  shows "f32_half_range z"
proof (rule ccontr)
  assume "\<not> f32_half_range z"
  then have z: "f32_finite z" "2 ^ 276 \<le> f32_magnitude z" and a: "f32_finite a"
    using close_to_finite [OF assms(1)] by (auto simp: f32_half_range_def)
  let ?s = "f32_scaled a + f32_scaled (f32_neg z)"
  have "int (f32_magnitude a) + 2 ^ 252 \<le> int (f32_magnitude z)"
    using half_range_magnitude [OF assms(2)] z(2) by (simp flip: of_nat_le_iff)
  then have "2 ^ 252 \<le> \<bar>?s\<bar>" by (auto simp: f32_scaled_def)
  then have gap: "2 ^ 252 \<le> nat \<bar>?s\<bar>" by (simp add: le_nat_iff)
  have rep: "f32_rep (2 ^ 252)" unfolding f32_rep_def by (intro exI [of _ 1] exI [of _ 252]) simp
  have "2 ^ 252 \<le> f32_magnitude (f32_sub a z)"
    using gap f32_round_lower [OF rep, of 1 "nat \<bar>?s\<bar>" "?s < 0"] f32_add_finite [OF a, of "f32_neg z"] z(1)
    by (auto simp: f32_sub_def Let_def)
  moreover have "f32_scaled TOLERANCE \<le> 2 ^ 147" using tolerance(3) .
  ultimately show False
    using assms(1) by (simp add: close_to_def f32_le_def abs_scaled)
qed

text \<open>C5: One faulty sensor never reaches the output. Let two channels \<open>a\<close> and \<open>b\<close> of a fresh triple
  be healthy, that is within 0.2 of each other and of a magnitude below \<open>2 ^ 127\<close>, so that their sum
  does not overflow, and let the third channel, in any of the three places, have any bits at all,
  NaN and infinities included. Then the validation succeeds, and the value taken afterwards lies
  between a healthy reading and another reading within 0.2 of it.\<close>

theorem faulty_sensor_masked:
  assumes "fresh now r" and "close_to a b" and "f32_half_range a" and "f32_half_range b"
    and "triple_channels r \<in> {(a, b, z), (z, a, b), (a, z, b)}"
  shows "\<exists>r' v x y. validate_sensor_readings now r = (True, r') \<and> get_validated_sensor_value r' = (v, r') \<and>
    x \<in> {a, b} \<and> y \<in> {a, b, z} \<and> close_to x y \<and> f32_between x y v"
proof -
  have "some_pair close_to (triple_channels r)" using assms(2,5) by (auto simp: some_pair_def)
  then obtain r' where run: "validate_sensor_readings now r = (True, r')"
    using validate_triple [OF assms(1)] by (cases "validate_sensor_readings now r") (auto split: bool.splits)
  have half: "\<forall>x y. (x, y) \<in> channel_pairs (triple_channels r) \<longrightarrow> close_to x y \<longrightarrow> f32_half_range x"
  proof (intro allI impI)
    fix x y assume that: "(x, y) \<in> channel_pairs (triple_channels r)" "close_to x y"
    have "x \<in> {a, b} \<or> x = z \<and> y \<in> {a, b}" using assms(5) that(1) by (auto simp: channel_pairs_def)
    then show "f32_half_range x" using assms(3,4) half_range_close [of y x] that(2) close_to_commute [of x y] by auto
  qed
  obtain v x y where v: "get_validated_sensor_value r' = (v, r')" "close_to x y"
      "(x, y) \<in> channel_pairs (triple_channels r)" "f32_between x y v"
    using validated_value_backed [OF run half] by blast
  have "x \<in> {a, b} \<and> y \<in> {a, b, z} \<or> y \<in> {a, b} \<and> x \<in> {a, b, z}"
    using assms(5) v(3) by (auto simp: channel_pairs_def)
  moreover have "close_to y x \<and> f32_between y x v"
    using v(2,4) close_to_commute [of y x] by (auto simp: f32_between_def)
  ultimately show ?thesis using run v(1,2,4) by blast
qed

text \<open>Readings of 2 and 2.125 and a NaN between them.\<close>

definition split_triple :: sensor_triple where
  "split_triple = \<lparr>primary_value = 0x40000000, secondary_value = 0x7FC00000, reference_value = 0x40080000,
     triple_timestamp = 5000, values_valid = True\<rparr>"

lemma split_triple_ok:
  "fresh 5600 split_triple" "f32_half_range 0x40000000" "f32_half_range 0x40080000" "\<not> f32_finite 0x7FC00000"
  "f32_scaled 0x40000000 = 2 * 2 ^ 149" "f32_scaled 0x40080000 = 2 * 2 ^ 149 + 2 ^ 146"
  by (simp_all add: split_triple_def fresh_def SENSOR_TIMEOUT_MS_def f32_half_range_def f32_class_defs
      f32_scaled_def f32_magnitude_def f32_exp_def f32_frac_def f32_sign_def)

lemma split_triple_close: "close_to 0x40000000 0x40080000"
proof -
  have "f32_abs (f32_sub 0x40000000 0x40080000) = 0x3E000000"
    by (simp add: f32_sub_def f32_neg_def f32_add_def f32_abs_def f32_class_defs f32_round_def round_fields_def
        round_div_def ulp_exp_def log2_floor.simps f32_make_def f32_scaled_def f32_magnitude_def f32_exp_def
        f32_frac_def f32_sign_def f32_infinite_def Let_def)
  moreover have "f32_scaled 0x3E000000 = 2 ^ 146" "\<not> f32_is_nan 0x3E000000"
    by (simp_all add: f32_class_defs f32_scaled_def f32_magnitude_def f32_exp_def f32_frac_def f32_sign_def)
  ultimately show ?thesis using tolerance by (simp add: close_to_def f32_le_def finite_not)
qed

theorem faulty_sensor_masked_witness:
  "\<exists>r' v. validate_sensor_readings 5600 split_triple = (True, r') \<and> get_validated_sensor_value r' = (v, r') \<and>
     2 * 2 ^ 149 \<le> f32_scaled v \<and> f32_scaled v \<le> 2 * 2 ^ 149 + 2 ^ 146"
  using faulty_sensor_masked [OF split_triple_ok(1) split_triple_close split_triple_ok(2,3), of "0x7FC00000"]
    split_triple_ok(4,5,6) close_to_finite
  by (auto simp: triple_channels_def split_triple_def f32_between_def)

end
