(* ===== verification/Mqtt_Publish.thy ===== *)
theory Mqtt_Publish
  imports Float_Arith
begin

text \<open>
  Publishing over MQTT, the second half of \<^verbatim>\<open>vcu/src/mqtt_handler.c\<close>: the text made of a float
  value and the parameters of the message. \<^verbatim>\<open>snprintf\<close> with the format \<^verbatim>\<open>%.2f\<close> is modelled as the
  C standard has it, the exact value rounded to two decimals, half to even. The message id is what
  \<^verbatim>\<open>sys_rand32_get\<close> returns; messages handed to the library are recorded.
\<close>

section \<open>Formatting\<close>

definition digit_char :: "nat \<Rightarrow> char" where "digit_char d = char_of (48 + d)"

definition two_digits :: "nat \<Rightarrow> string" where
  "two_digits k = [digit_char (k div 10), digit_char (k mod 10)]"

text \<open>The absolute value in hundredths.\<close>

definition hundredths :: "f32 \<Rightarrow> nat" where
  "hundredths v = round_div (f32_magnitude v * 100) (2 ^ 149)"

definition format_2f :: "f32 \<Rightarrow> string" where
  "format_2f v =
     (if f32_sign v then ''-'' else '''') @
     (if f32_is_nan v then ''nan'' else if f32_is_inf v then ''inf''
      else decimal (hundredths v div 100) @ ''.'' @ two_digits (hundredths v mod 100))"

section \<open>Publishing\<close>

record 't publication =
  topic_name :: "'t"
  payload :: string
  qos :: nat
  message_id :: u16
  dup_flag :: bool
  retain_flag :: bool

definition publish_param :: "'t \<Rightarrow> string \<Rightarrow> u32 \<Rightarrow> 't publication" where
  "publish_param topic text rand =
     \<lparr>topic_name = topic, payload = text, qos = 1, message_id = ucast rand, dup_flag = False, retain_flag = False\<rparr>"

text \<open>The payload buffer has 32 bytes, one for the terminating zero.\<close>

definition publish_sensor_data :: "'t \<Rightarrow> f32 \<Rightarrow> u32 \<Rightarrow> 't publication list \<Rightarrow> 't publication list" where
  "publish_sensor_data topic v rand sent = sent @ [publish_param topic (take 31 (format_2f v)) rand]"

definition publish_to_topic :: "'t \<Rightarrow> string \<Rightarrow> u32 \<Rightarrow> 't publication list \<Rightarrow> 't publication list" where
  "publish_to_topic topic text rand sent = sent @ [publish_param topic text rand]"

section \<open>Reading the text back\<close>

definition digit_value :: "char \<Rightarrow> nat" where "digit_value c = of_char c - 48"

definition digits_value :: "string \<Rightarrow> nat" where
  "digits_value s = foldl (\<lambda>n c. 10 * n + digit_value c) 0 s"

text \<open>A subscriber's reading of a text with two decimals, in hundredths.\<close>

definition is_mark :: "char \<Rightarrow> bool" where "is_mark c \<longleftrightarrow> c = CHR ''-'' \<or> c = CHR ''.''"

definition read_hundredths :: "string \<Rightarrow> int" where
  "read_hundredths s =
     (let n = int (digits_value (filter (\<lambda>c. \<not> is_mark c) s))
      in if s \<noteq> [] \<and> hd s = CHR ''-'' then - n else n)"

lemma digit_char: "d < 10 \<Longrightarrow> digit_value (digit_char d) = d" "d < 10 \<Longrightarrow> digit_char d \<noteq> CHR ''-''"
  "d < 10 \<Longrightarrow> digit_char d \<noteq> CHR ''.''"
proof -
  assume "d < 10"
  then have c: "of_char (digit_char d) = 48 + d" by (simp add: digit_char_def)
  show "digit_value (digit_char d) = d" using c by (simp add: digit_value_def)
  have "of_char (CHR ''-'') = (45 :: nat)" "of_char (CHR ''.'') = (46 :: nat)" by simp_all
  then show "digit_char d \<noteq> CHR ''-''" "digit_char d \<noteq> CHR ''.''" using c by auto
qed

lemma digits_value_snoc: "digits_value (s @ [c]) = 10 * digits_value s + digit_value c"
  by (simp add: digits_value_def)

lemma decimal_digits: "\<exists>ds. decimal n = map digit_char ds \<and> (\<forall>d \<in> set ds. d < 10) \<and> ds \<noteq> [] \<and>
    digits_value (decimal n) = n"
proof (induction n rule: decimal.induct)
  case (1 n)
  show ?case
  proof (cases "n < 10")
    case True
    then show ?thesis using digit_char(1) [of n]
      by (intro exI [of _ "[n]"]) (simp add: decimal.simps [of n] digits_value_def digit_char_def)
  next
    case False
    then obtain ds where ds: "decimal (n div 10) = map digit_char ds" "\<forall>d \<in> set ds. d < 10"
        "digits_value (decimal (n div 10)) = n div 10" using 1 by blast
    have step: "decimal n = decimal (n div 10) @ [digit_char (n mod 10)]"
      using False by (simp add: decimal.simps [of n] digit_char_def)
    show ?thesis
      using ds digit_char(1) [of "n mod 10"] by (intro exI [of _ "ds @ [n mod 10]"]) (simp add: step digits_value_snoc)
  qed
qed

lemma length_decimal: "n < 10 ^ Suc k \<Longrightarrow> length (decimal n) \<le> Suc k"
proof (induction k arbitrary: n)
  case 0
  then show ?case by (simp add: decimal.simps [of n])
next
  case (Suc k)
  show ?case
  proof (cases "n < 10")
    case False
    then show ?thesis using Suc.IH [of "n div 10"] Suc.prems
      by (simp add: decimal.simps [of n] less_mult_imp_div_less)
  qed (simp add: decimal.simps [of n])
qed

lemma marks: "is_mark (CHR ''-'')" "is_mark (CHR ''.'')" "d < 10 \<Longrightarrow> \<not> is_mark (digit_char d)"
  using digit_char(2,3) [of d] by (auto simp: is_mark_def)

lemma filter_digits: "\<forall>d \<in> set ds. d < 10 \<Longrightarrow>
    filter (\<lambda>c. \<not> is_mark c) (map digit_char ds) = map digit_char ds"
  by (induction ds) (simp_all add: marks)

lemma read_format:
  assumes "f32_finite v"
  shows "read_hundredths (format_2f v) = (if f32_sign v then - int (hundredths v) else int (hundredths v))"
proof -
  define n where "n = hundredths v"
  obtain ds where ds: "decimal (n div 100) = map digit_char ds" "\<forall>d \<in> set ds. d < 10" "ds \<noteq> []"
      "digits_value (decimal (n div 100)) = n div 100" using decimal_digits by blast
  have tens: "n mod 100 div 10 < 10" "n mod 100 mod 10 < 10" by (simp_all add: less_mult_imp_div_less)
  have form: "format_2f v = (if f32_sign v then ''-'' else '''') @ map digit_char ds @ ''.'' @ two_digits (n mod 100)"
    using assms by (simp add: format_2f_def finite_not ds(1) flip: n_def)
  have "filter (\<lambda>c. \<not> is_mark c) (format_2f v) =
      (decimal (n div 100) @ [digit_char (n mod 100 div 10)]) @ [digit_char (n mod 100 mod 10)]"
    unfolding form two_digits_def ds(1) filter_append filter_digits [OF ds(2)]
    by (cases "f32_sign v") (simp_all add: marks(1,2) marks(3) [OF tens(1)] marks(3) [OF tens(2)])
  then have "digits_value (filter (\<lambda>c. \<not> is_mark c) (format_2f v)) =
      10 * (10 * (n div 100) + n mod 100 div 10) + n mod 100 mod 10"
    by (simp only: digits_value_snoc ds(4) digit_char(1) [OF tens(1)] digit_char(1) [OF tens(2)])
  also have "\<dots> = 100 * (n div 100) + (10 * (n mod 100 div 10) + n mod 100 mod 10)" by simp
  also have "\<dots> = n" by (simp only: mult_div_mod_eq)
  finally have val: "digits_value (filter (\<lambda>c. \<not> is_mark c) (format_2f v)) = n" .
  have "hd (map digit_char ds @ r) \<noteq> CHR ''-''" for r using ds(2,3) digit_char(2) by (cases ds) auto
  then have "hd (format_2f v) = CHR ''-'' \<longleftrightarrow> f32_sign v" unfolding form by (cases "f32_sign v") simp_all
  moreover have "format_2f v \<noteq> []" using ds(3) by (simp add: form)
  ultimately show ?thesis using val by (simp add: read_hundredths_def Let_def n_def)
qed

lemma length_format:
  assumes "f32_finite v" "f32_magnitude v < 10 ^ 26 * 2 ^ 149"
  shows "length (format_2f v) \<le> 31"
proof -
  have "2 * \<bar>int (hundredths v * 2 ^ 149) - int (f32_magnitude v * 100)\<bar> \<le> int (2 ^ 149)"
    unfolding hundredths_def by (intro round_div_error) simp
  moreover have "int (f32_magnitude v) < int (10 ^ 26 * 2 ^ 149)" using assms(2) by (simp only: of_nat_less_iff)
  ultimately have "int (hundredths v) \<le> 10 ^ 28" by simp
  then have "hundredths v < 10 ^ Suc 26 * 100" by simp
  then have "hundredths v div 100 < 10 ^ Suc 26" by (rule less_mult_imp_div_less)
  then have "length (decimal (hundredths v div 100)) \<le> Suc 26" by (rule length_decimal)
  then show ?thesis using assms(1) by (simp add: format_2f_def finite_not two_digits_def)
qed

section \<open>Accuracy\<close>

text \<open>What is sent for a value, and how far the text is from it.\<close>

lemma published_text:
  assumes "f32_finite v" and "f32_magnitude v < 10 ^ 26 * 2 ^ 149"
  shows "publish_sensor_data topic v rand sent = sent @ [publish_param topic (format_2f v) rand]"
    and "2 * \<bar>read_hundredths (format_2f v) * 2 ^ 149 - 100 * f32_scaled v\<bar> \<le> 2 ^ 149"
proof -
  have "2 * \<bar>int (hundredths v * 2 ^ 149) - int (f32_magnitude v * 100)\<bar> \<le> int (2 ^ 149)"
    unfolding hundredths_def by (intro round_div_error) simp
  then show "2 * \<bar>read_hundredths (format_2f v) * 2 ^ 149 - 100 * f32_scaled v\<bar> \<le> 2 ^ 149"
    using read_format [OF assms(1)] by (cases "f32_sign v") (simp_all add: f32_scaled_def abs_le_iff)
  show "publish_sensor_data topic v rand sent = sent @ [publish_param topic (format_2f v) rand]"
    using length_format [OF assms] by (simp add: publish_sensor_data_def)
qed

text \<open>C24: The published text is accurate. For every finite value of absolute value below \<open>10 ^ 26\<close> the
  message carries a text that is not cut by the buffer, and a subscriber who reads it back gets the
  value to within half a hundredth, with its sign; it is sent once, with quality of service one and
  not retained.\<close>

theorem published_text_accurate:
  assumes "f32_finite v" and "f32_magnitude v < 10 ^ 26 * 2 ^ 149"
  shows "\<exists>m. publish_sensor_data topic v rand sent = sent @ [m] \<and> topic_name m = topic \<and>
    payload m = format_2f v \<and> qos m = 1 \<and> \<not> dup_flag m \<and> \<not> retain_flag m \<and>
    2 * \<bar>read_hundredths (payload m) * 2 ^ 149 - 100 * f32_scaled v\<bar> \<le> 2 ^ 149"
  using published_text(2) [OF assms] by (simp add: published_text(1) [OF assms] publish_param_def)

theorem published_text_accurate_witness:
  "\<exists>m. publish_sensor_data ''speed'' 0xC0200000 7 [] = [m] \<and> payload m = ''-2.50''"
proof -
  have v: "f32_magnitude 0xC0200000 = 5 * 2 ^ 148" "f32_sign 0xC0200000" "f32_finite 0xC0200000"
    by (simp_all add: f32_magnitude_def f32_exp_def f32_frac_def f32_sign_def f32_finite_def)
  have h: "hundredths 0xC0200000 = 250" by (simp add: hundredths_def v round_div_def)
  have "f32_magnitude 0xC0200000 < 10 ^ 26 * 2 ^ 149" by (simp add: v)
  from published_text_accurate [OF v(3) this, of "''speed''" 7 "[]"] h v show ?thesis
    by (auto simp: format_2f_def finite_not decimal.simps [of 2] two_digits_def digit_char_def char_of_def bit_0)
qed

end
