(* ===== verification/Drive_Nodes.thy ===== *)
theory Drive_Nodes
  imports Vcu_Can Mqtt_Publish
begin

text \<open>
  The sensor nodes that compute with floats: \<^verbatim>\<open>battery_node/src/main.c\<close> and
  \<^verbatim>\<open>speed_node/src/main.c\<close>, one round of each sampling thread, and what the central unit makes of
  their frames.
\<close>

definition BATTERY_MSG_LEN :: u8 where "BATTERY_MSG_LEN = 4"
definition SPEED_MSG_LEN :: u8 where "SPEED_MSG_LEN = 2"

section \<open>Battery\<close>

text \<open>
  \<^verbatim>\<open>i2c_burst_read\<close> puts the two bytes of a register, as the device sends them, into an
  \<^verbatim>\<open>int16_t\<close> of a little-endian processor.
\<close>

definition int16_of_bytes :: "u8 \<Rightarrow> u8 \<Rightarrow> u16" where
  "int16_of_bytes first second = ucast first OR push_bit 8 (ucast second)"

text \<open>The raw value times \<open>p / q\<close>.\<close>

definition scaled_reading :: "u16 \<Rightarrow> nat \<Rightarrow> nat \<Rightarrow> f32" where
  "scaled_reading raw p q = f32_mul (f32_of_signed (sint raw)) (f32_const p q)"

definition battery_voltage :: "u16 \<Rightarrow> f32" where "battery_voltage raw = scaled_reading raw 125 100000"
definition battery_current :: "u16 \<Rightarrow> f32" where "battery_current raw = scaled_reading raw 5 10000"

text \<open>One round; the current is computed and not used.\<close>

definition battery_round :: "can_dev \<Rightarrow> u8 \<times> u8 \<Rightarrow> u8 \<times> u8 \<Rightarrow> world \<Rightarrow> world res" where
  "battery_round dev voltage_reg current_reg w =
     (let voltage = battery_voltage (int16_of_bytes (fst voltage_reg) (snd voltage_reg));
          current = battery_current (int16_of_bytes (fst current_reg) (snd current_reg))
      in send_and_wait dev CAN_ID_BATTERY (bytes_of_f32 voltage) BATTERY_MSG_LEN 1000 w)"

section \<open>Speed\<close>

record hall =
  pulse_count :: u32
  last_pulse_time :: u64

definition hall_sensor_callback :: "u64 \<Rightarrow> hall \<Rightarrow> hall" where
  "hall_sensor_callback current_time s = s\<lparr>pulse_count := pulse_count s + 1, last_pulse_time := current_time\<rparr>"

record speed_thread =
  last_count :: u32
  last_time :: u64

definition time_between :: "u64 \<Rightarrow> f32" where
  "time_between elapsed = f32_div (f32_of_unsigned (unat elapsed)) (f32_of_unsigned 1000)"

definition speed_of :: "u32 \<Rightarrow> f32 \<Rightarrow> f32" where
  "speed_of pulses time_diff =
     (let rotations = f32_div (f32_of_unsigned (unat pulses)) (f32_of_unsigned 4);
          distance = f32_mul rotations (f32_const 2 1)
      in f32_mul (f32_div distance time_diff) (f32_const 36 10))"

definition speed_round :: "can_dev \<Rightarrow> hall \<Rightarrow> speed_thread \<times> world \<Rightarrow> (speed_thread \<times> world) res" where
  "speed_round dev s tw =
     (case tw of (st, w) \<Rightarrow>
        let current_time = word_of_nat (uptime w);
            current_count = pulse_count s;
            pulses = current_count - last_count st;
            time_diff = time_between (current_time - last_time st);
            st' = \<lparr>last_count = current_count, last_time = current_time\<rparr>
        in if f32_less 0 time_diff then
             res_bind (f32_to_u16 (speed_of pulses time_diff)) (\<lambda>speed_kmh.
             res_bind (send_and_wait dev CAN_ID_SPEED (be_bytes speed_kmh) SPEED_MSG_LEN 100 w)
               (\<lambda>w'. Inr (st', w')))
           else Inr (st', k_sleep 100 w))"

section \<open>The constants of the computation\<close>

lemma f32_round_value:
  assumes "2 ^ 23 < j" "j < 2 ^ 24" "d \<le> 253" "0 < q" "(2 * j - 1) * (q * 2 ^ d) < 2 * p" "2 * p < (2 * j + 1) * (q * 2 ^ d)"
  shows "f32_magnitude (f32_round False p q) = j * 2 ^ d \<and> \<not> f32_sign (f32_round False p q) \<and> f32_finite (f32_round False p q)"
  using f32_round_near [OF assms, of False] by simp

lemma tenth_of_a_second:
  "f32_magnitude (time_between 100) = 13421773 * 2 ^ 122" "\<not> f32_sign (time_between 100)" "f32_finite (time_between 100)"
proof -
  have "time_between 100 = f32_round False (100 * 2 ^ 149 * 2 ^ 149) (1000 * 2 ^ 149)"
    by (simp add: time_between_def f32_div_finite)
  then show "f32_magnitude (time_between 100) = 13421773 * 2 ^ 122" "\<not> f32_sign (time_between 100)" "f32_finite (time_between 100)"
    using f32_round_value [of 13421773 122 "1000 * 2 ^ 149" "100 * 2 ^ 149 * 2 ^ 149"] by simp_all
qed

lemma ms_to_kmh:
  "f32_magnitude (f32_const 36 10) = 15099494 * 2 ^ 127" "\<not> f32_sign (f32_const 36 10)" "f32_finite (f32_const 36 10)"
  using f32_round_value [of 15099494 127 10 "36 * 2 ^ 149"] by (simp_all add: f32_const_def)

lemma not_power: "n * k \<noteq> (2::nat) ^ l" if "odd k" "1 < k"
proof
  assume "n * k = 2 ^ l"
  then have "k dvd 2 ^ l" by (metis dvd_triv_right)
  moreover have "coprime k (2 ^ l)" using that(1) by (simp add: coprime_right_2_iff_odd)
  ultimately have "k dvd 1" by (meson coprime_common_divisor dvd_refl)
  then show False using that(2) by simp
qed

section \<open>Speed is exact\<close>

lemma f32_mul_finite:
  "f32_finite a \<Longrightarrow> f32_finite b \<Longrightarrow> \<not> f32_sign a \<Longrightarrow> \<not> f32_sign b \<Longrightarrow>
     f32_mul a b = f32_round False (f32_magnitude a * f32_magnitude b) (2 ^ 149)"
  by (simp add: f32_mul_def finite_not Let_def)

lemma f32_div_positive:
  "f32_finite a \<Longrightarrow> f32_finite b \<Longrightarrow> \<not> f32_sign a \<Longrightarrow> \<not> f32_sign b \<Longrightarrow> 0 < f32_magnitude b \<Longrightarrow>
     f32_div a b = f32_round False (f32_magnitude a * 2 ^ 149) (f32_magnitude b)"
  by (simp add: f32_div_finite)

text \<open>Half the number of pulses is the distance in metres, without error.\<close>

lemma distance_exact:
  assumes "n < 2 ^ 24"
  defines "d \<equiv> f32_mul (f32_div (f32_of_unsigned n) (f32_of_unsigned 4)) (f32_const 2 1)"
  shows "f32_magnitude d = n * 2 ^ 148" "\<not> f32_sign d" "f32_finite d"
proof -
  have rep: "f32_rep (n * 2 ^ k)" if "k \<le> 253" for k using assms(1) that unfolding f32_rep_def by blast
  have two: "f32_const 2 1 = f32_of_unsigned 2" by (simp add: f32_of_unsigned_def)
  have "f32_div (f32_of_unsigned n) (f32_of_unsigned 4) = f32_round False (n * 2 ^ 147 * (4 * 2 ^ 149)) (4 * 2 ^ 149)"
    using assms(1) by (simp add: f32_div_positive)
  then have r: "f32_magnitude (f32_div (f32_of_unsigned n) (f32_of_unsigned 4)) = n * 2 ^ 147"
      "\<not> f32_sign (f32_div (f32_of_unsigned n) (f32_of_unsigned 4))" "f32_finite (f32_div (f32_of_unsigned n) (f32_of_unsigned 4))"
    using f32_round_rep [OF rep [of 147], of "4 * 2 ^ 149" False] by simp_all
  then have "d = f32_round False (n * 2 ^ 148 * 2 ^ 149) (2 ^ 149)"
    unfolding d_def two by (simp add: f32_mul_finite)
  then show "f32_magnitude d = n * 2 ^ 148" "\<not> f32_sign d" "f32_finite d"
    using f32_round_rep [OF rep [of 148], of "2 ^ 149" False] by simp_all
qed

lemma speed_exact:
  assumes "0 < n" and "18 * n < 2 ^ 24"
  shows "f32_magnitude (speed_of (word_of_nat n) (time_between 100)) = 18 * n * 2 ^ 149"
    "\<not> f32_sign (speed_of (word_of_nat n) (time_between 100))" "f32_finite (speed_of (word_of_nat n) (time_between 100))"
proof -
  have u: "unat (word_of_nat n :: u32) = n" using assms(2) by (simp add: unat_of_nat_u32)
  define d where "d = f32_mul (f32_div (f32_of_unsigned n) (f32_of_unsigned 4)) (f32_const 2 1)"
  define v where "v = f32_div d (time_between 100)"
  have "n < 2 ^ 24" using assms(2) by simp
  note dist = distance_exact [OF this, folded d_def]
  have "v = f32_round False (n * 2 ^ 148 * 2 ^ 149) (13421773 * 2 ^ 122)"
    by (simp add: v_def f32_div_positive dist tenth_of_a_second)
  moreover have "n * 5 \<noteq> 2 ^ l" for l by (rule not_power) simp_all
  ultimately have v: "f32_magnitude v = n * 5 * 2 ^ 149" "\<not> f32_sign v" "f32_finite v"
    using f32_round_near_nat [of "n * 5" "13421773 * 2 ^ 122" "n * 2 ^ 148 * 2 ^ 149" False] assms by simp_all
  have "speed_of (word_of_nat n) (time_between 100) = f32_mul v (f32_const 36 10)"
    by (simp add: speed_of_def u v_def d_def Let_def)
  also have "\<dots> = f32_round False (n * 5 * 2 ^ 149 * (15099494 * 2 ^ 127)) (2 ^ 149)"
    by (simp add: f32_mul_finite v ms_to_kmh)
  finally have s: "speed_of (word_of_nat n) (time_between 100) = f32_round False (n * 5 * 2 ^ 149 * (15099494 * 2 ^ 127)) (2 ^ 149)" .
  have "n * 6 * 3 \<noteq> 2 ^ l" for l by (rule not_power) simp_all
  then have "18 * n \<noteq> 2 ^ l" for l by (simp add: mult.commute)
  then show "f32_magnitude (speed_of (word_of_nat n) (time_between 100)) = 18 * n * 2 ^ 149"
    "\<not> f32_sign (speed_of (word_of_nat n) (time_between 100))" "f32_finite (speed_of (word_of_nat n) (time_between 100))"
    using f32_round_near_nat [of "18 * n" "2 ^ 149" "n * 5 * 2 ^ 149 * (15099494 * 2 ^ 127)" False] assms
    unfolding s by simp_all
qed

section \<open>Frames\<close>

lemma f32_to_u16_of_nat:
  assumes "f32_magnitude a = n * 2 ^ 149" "\<not> f32_sign a" "f32_finite a"
  shows "f32_to_u16 a = (if n < 2 ^ 16 then Inr (word_of_nat n) else Inl Bad_Conversion)"
proof -
  have "f32_magnitude a div 2 ^ 149 = n" unfolding assms(1) by simp
  then show ?thesis using assms(2,3) by (simp add: f32_to_u16_def f32_finite_def Let_def)
qed

lemma time_between_positive: "f32_less 0 (time_between 100)"
  using tenth_of_a_second by (simp add: f32_less_def finite_not f32_scaled_def)

text \<open>The speed is exact. In a round 100 ms after the last one in which \<open>n\<close> pulses were counted,
  the counter having wrapped or not, all rounding errors of the float computation cancel: the node
  sends exactly \<open>18 * n\<close> km/h and the central unit publishes exactly that number, as long as it fits
  the 16 bits of the message; from there on the conversion of the float is undefined.\<close>

lemma speed_reading_reaches_vcu:
  assumes "0 < n" and "18 * n < 2 ^ 24" and "pulse_count h = last_count st + word_of_nat n"
    and "last_time st + 100 = word_of_nat (uptime w)" and "length junk = 240"
  shows "if 18 * n < 2 ^ 16
    then \<exists>f st' w' s' v. speed_round dev h (st, w) = Inr (st', w') \<and> bus_log w' = bus_log w @ [(uptime w, f)] \<and>
      last_count st' = pulse_count h \<and> last_time st' = word_of_nat (uptime w) \<and> uptime w' = uptime w + 100 \<and>
      can_handler bt junk f s = Inr s' \<and> outs s' = outs s @ [Publish TOPIC_SPEED v] \<and>
      f32_scaled v = int (18 * n) * 2 ^ 149
    else speed_round dev h (st, w) = Inl Bad_Conversion"
proof -
  have elapsed: "word_of_nat (uptime w) - last_time st = 100" using assms(4) by (simp add: algebra_simps)
  have pulses: "pulse_count h - last_count st = word_of_nat n" using assms(3) by simp
  note conv = f32_to_u16_of_nat [OF speed_exact [OF assms(1,2)]]
  show ?thesis
  proof (cases "18 * n < 2 ^ 16")
    case False
    then show ?thesis using conv by (simp add: speed_round_def elapsed pulses time_between_positive)
  next
    case True
    define raw :: u16 where "raw = word_of_nat (18 * n)"
    define st' where "st' = \<lparr>last_count = pulse_count h, last_time = word_of_nat (uptime w)\<rparr>"
    let ?f = "\<lparr>fid = CAN_ID_SPEED, dlc = 2, fflags = 0, fdata = be_bytes raw @ replicate 6 0\<rparr>"
    have "f32_to_u16 (speed_of (word_of_nat n) (time_between 100)) = Inr raw" using conv True by (simp add: raw_def)
    then have round: "speed_round dev h (st, w) = Inr (st', k_sleep 100 (snd (can_send dev ?f w)))"
      by (simp add: speed_round_def elapsed pulses time_between_positive send_and_wait_ok SPEED_MSG_LEN_def st'_def)
    have "unat raw = 18 * n" unfolding raw_def by (rule unat_of_nat_u16) (use True in simp)
    then have v: "f32_scaled (f32_of_nat (unat raw)) = int (18 * n) * 2 ^ 149"
      using f32_of_nat_exact(1) [OF assms(2)] by simp
    obtain s' where handler: "can_handler bt junk ?f s = Inr s'"
        "outs s' = outs s @ [Publish TOPIC_SPEED (f32_of_nat (unat raw))]"
      using be16_be_bytes [of raw] relay_ok [OF assms(5), of 2 "be_bytes raw @ replicate 6 0"]
      by (simp add: can_handler_def can_id_defs mem_simps nth_append call_publish_sensor_data_def)
    have "last_count st' = pulse_count h" "last_time st' = word_of_nat (uptime w)" by (simp_all add: st'_def)
    then show ?thesis using True round v handler by (simp only: if_True) (intro exI conjI | assumption | simp)+
  qed
qed

section \<open>The battery reading\<close>

lemma int16_swapped: "int16_of_bytes (be_bytes r ! 0) (be_bytes r ! 1) = push_bit 8 r OR drop_bit 8 r"
proof (rule bit_word_eqI)
  fix i assume "i < LENGTH(16)"
  then have i: "i < 16" by simp
  have ff: "(0xFF :: u16) = mask 8" by (simp add: mask_eq_exp_minus_1)
  show "bit (int16_of_bytes (be_bytes r ! 0) (be_bytes r ! 1)) i = bit (push_bit 8 r OR drop_bit 8 r) i"
    using i unfolding int16_of_bytes_def be_bytes_def ff by (cases "i < 8") (auto simp: bit_simps dest: bit_imp_le_length)
qed

lemma sint16_bound: "\<bar>sint (x :: u16)\<bar> \<le> 2 ^ 15"
  using sint_range_size [of x] by (auto simp: word_size abs_le_iff)

lemma millivolt_lsb:
  "f32_magnitude (f32_const 125 100000) = 10737418 * 2 ^ 116" "\<not> f32_sign (f32_const 125 100000)" "f32_finite (f32_const 125 100000)"
  using f32_round_value [of 10737418 116 100000 "125 * 2 ^ 149"] by (simp_all add: f32_const_def)

lemma battery_voltage_error:
  "2 ^ 23 * \<bar>800 * f32_scaled (battery_voltage raw) - sint raw * 2 ^ 149\<bar> \<le> \<bar>sint raw\<bar> * 2 ^ 149"
proof -
  define n where "n = nat \<bar>sint raw\<bar>"
  have n: "n \<le> 2 ^ 15" using sint16_bound [of raw] by (simp add: n_def)
  have rep: "f32_rep (n * 2 ^ 149)" using n unfolding f32_rep_def by (intro exI [of _ n] exI [of _ 149]) simp
  define a where "a = f32_of_signed (sint raw)"
  have "a = f32_round (sint raw < 0) (n * 2 ^ 149 * 1) 1" by (simp add: a_def f32_of_signed_def n_def)
  then have a: "f32_magnitude a = n * 2 ^ 149" "f32_sign a \<longleftrightarrow> sint raw < 0" "f32_finite a"
    using f32_round_rep [OF rep, of 1] by simp_all
  define p where "p = n * 2 ^ 149 * (10737418 * 2 ^ 116)"
  define v where "v = battery_voltage raw"
  have v: "v = f32_round (sint raw < 0) p (2 ^ 149)"
    using a millivolt_lsb by (simp add: v_def battery_voltage_def scaled_reading_def f32_mul_def finite_not p_def flip: a_def)
  show ?thesis
  proof (cases "n = 0")
    case True
    then have "f32_magnitude v = 0" using f32_round_rep(1) [OF f32_rep_zero, of "2 ^ 149" "sint raw < 0"]
      by (simp add: v p_def)
    then show ?thesis using True by (simp add: n_def f32_scaled_def flip: v_def)
  next
    case False
    then have pos: "0 < n" by simp
    have big: "2 ^ 149 * 2 ^ 23 \<le> p" "p < 2 ^ 149 * 2 ^ 276"
      using pos n by (simp_all add: p_def)
    note err = f32_round_error [of "2 ^ 149" p "sint raw < 0", OF _ big, folded v]
    define m where "m = int (f32_magnitude v)"
    have "2 ^ 24 * \<bar>m * 2 ^ 149 - int n * 10737418 * 2 ^ 265\<bar> \<le> int n * 10737418 * 2 ^ 265"
      using err(1) by (simp add: m_def p_def mult_ac)
    then have "2 ^ 24 * \<bar>m - int n * 10737418 * 2 ^ 116\<bar> \<le> int n * 10737418 * 2 ^ 116"
      by (simp add: abs_if split: if_splits)
    then have "2 ^ 23 * \<bar>800 * m - int n * 2 ^ 149\<bar> \<le> int n * 2 ^ 149"
      by (simp add: abs_if split: if_splits)
    moreover have "f32_scaled v = (if sint raw < 0 then - m else m)"
      using err(2) by (simp add: f32_scaled_def m_def)
    moreover have "sint raw = (if sint raw < 0 then - int n else int n)" by (simp add: n_def)
    ultimately show ?thesis unfolding v_def [symmetric]
      by (cases "sint raw < 0") (simp_all add: abs_if split: if_splits)
  qed
qed

lemma battery_voltage_small:
  "f32_finite (battery_voltage raw)" "f32_magnitude (battery_voltage raw) < 10 ^ 26 * 2 ^ 149"
proof -
  define n where "n = nat \<bar>sint raw\<bar>"
  have n: "n \<le> 2 ^ 15" using sint16_bound [of raw] by (simp add: n_def)
  have rep: "f32_rep (n * 2 ^ 149)" using n unfolding f32_rep_def by (intro exI [of _ n] exI [of _ 149]) simp
  define a where "a = f32_of_signed (sint raw)"
  have "a = f32_round (sint raw < 0) (n * 2 ^ 149 * 1) 1" by (simp add: a_def f32_of_signed_def n_def)
  then have a: "f32_magnitude a = n * 2 ^ 149" "f32_finite a" using f32_round_rep [OF rep, of 1] by simp_all
  define s where "s = (f32_sign a \<noteq> f32_sign (f32_const 125 100000))"
  have v: "battery_voltage raw = f32_round s (n * 2 ^ 149 * (10737418 * 2 ^ 116)) (2 ^ 149)"
    using a millivolt_lsb by (simp add: battery_voltage_def scaled_reading_def f32_mul_def finite_not s_def flip: a_def)
  have big: "f32_rep (2 ^ 160)" unfolding f32_rep_def by (intro exI [of _ 1] exI [of _ 160]) simp
  have "n * 2 ^ 149 * (10737418 * 2 ^ 116) \<le> 2 ^ 160 * 2 ^ 149" using n by simp
  note r = f32_round_between [OF f32_rep_zero big _ _ this, of s, folded v]
  show "f32_finite (battery_voltage raw)" using r(4) by simp
  have "f32_magnitude (battery_voltage raw) \<le> 2 ^ 160" using r(2) by simp
  then show "f32_magnitude (battery_voltage raw) < 10 ^ 26 * 2 ^ 149" by simp
qed

text \<open>The two roundings together: the text is within half a hundredth of 1.25 mV per unit.\<close>

lemma battery_text_error: "\<bar>8 * read_hundredths (format_2f (battery_voltage raw)) - sint raw\<bar> \<le> 4"
proof -
  define h where "h = read_hundredths (format_2f (battery_voltage raw))"
  define v where "v = f32_scaled (battery_voltage raw)"
  have "2 * \<bar>h * 2 ^ 149 - 100 * v\<bar> \<le> 2 ^ 149"
    unfolding h_def v_def by (rule published_text(2) [OF battery_voltage_small])
  moreover have "2 ^ 23 * \<bar>800 * v - sint raw * 2 ^ 149\<bar> \<le> 2 ^ 15 * 2 ^ 149"
    using battery_voltage_error [of raw] sint16_bound [of raw]
      mult_right_mono [of "\<bar>sint raw\<bar>" "2 ^ 15" "2 ^ 149 :: int"] by (simp add: v_def)
  ultimately have "\<bar>8 * h - sint raw\<bar> * 2 ^ 149 < 5 * 2 ^ 149"
    by (simp add: abs_if split: if_splits)
  then show ?thesis by (simp add: h_def)
qed

text \<open>C26: From the register of the battery monitor to the message on the network. The node sends one
  frame; the central unit decodes from it the float the node computed, bit for bit, and publishes it
  as a text of two decimals, which is within 0.005 V of 1.25 mV times the value the node read, both
  roundings included. But the node reads the register, which the sensor sends high byte first, into
  an integer of a little-endian processor, so for a register \<open>r\<close> that value is \<open>r\<close> with its bytes
  exchanged.\<close>

theorem battery_reading_published:
  assumes "raw = push_bit 8 r OR drop_bit 8 r"
  shows "\<exists>f w' s' m. battery_round dev (be_bytes r ! 0, be_bytes r ! 1) current_reg w = Inr w' \<and>
    bus_log w' = bus_log w @ [(uptime w, f)] \<and> can_handler bt junk f s = Inr s' \<and>
    outs s' = outs s @ [Publish TOPIC_BATTERY (battery_voltage raw)] \<and>
    publish_sensor_data TOPIC_BATTERY (battery_voltage raw) rand sent = sent @ [m] \<and>
    topic_name m = TOPIC_BATTERY \<and> payload m = format_2f (battery_voltage raw) \<and>
    \<bar>8 * read_hundredths (payload m) - sint raw\<bar> \<le> 4"
proof -
  let ?v = "battery_voltage raw"
  let ?f = "\<lparr>fid = CAN_ID_BATTERY, dlc = 4, fflags = 0, fdata = bytes_of_f32 ?v @ replicate 4 0\<rparr>"
  have "int16_of_bytes (be_bytes r ! 0) (be_bytes r ! 1) = raw" using int16_swapped assms by simp
  then have round: "battery_round dev (be_bytes r ! 0, be_bytes r ! 1) current_reg w = Inr (k_sleep 1000 (snd (can_send dev ?f w)))"
    by (simp add: battery_round_def send_and_wait_ok BATTERY_MSG_LEN_def)
  have "f32_of_bytes (take 4 (bytes_of_f32 ?v @ replicate 4 0)) = ?v"
    using f32_bytes_inverse [of ?v "[]"] by simp
  then obtain s' where handler: "can_handler bt junk ?f s = Inr s'" "outs s' = outs s @ [Publish TOPIC_BATTERY ?v]"
    by (simp add: can_handler_def can_id_defs mem_simps call_publish_sensor_data_def)
  have "publish_sensor_data TOPIC_BATTERY ?v rand sent = sent @ [publish_param TOPIC_BATTERY (format_2f ?v) rand]"
    by (rule published_text(1) [OF battery_voltage_small])
  with round handler show ?thesis
    by (intro exI [of _ ?f] exI [of _ "k_sleep 1000 (snd (can_send dev ?f w))"] exI [of _ s']
        exI [of _ "publish_param TOPIC_BATTERY (format_2f ?v) rand"] conjI)
      (simp_all add: publish_param_def battery_text_error)
qed

lemma speed_reading_reaches_vcu_witness:
  "\<exists>f st' w' s' v. speed_round (\<lambda>_ _. 0) \<lparr>pulse_count = 3, last_pulse_time = 90\<rparr>
       (\<lparr>last_count = 0xFFFFFFFE, last_time = 0\<rparr>, \<lparr>uptime = 100, bus_log = []\<rparr>) = Inr (st', w') \<and>
     bus_log w' = [(100, f)] \<and> can_handler (\<lambda>_. 0) (replicate 240 0) f fresh_vcu = Inr s' \<and>
     outs s' = [Publish TOPIC_SPEED v] \<and> f32_scaled v = 90 * 2 ^ 149"
proof -
  from speed_reading_reaches_vcu [of 5 "\<lparr>pulse_count = 3, last_pulse_time = 90\<rparr>" "\<lparr>last_count = 0xFFFFFFFE, last_time = 0\<rparr>"
      "\<lparr>uptime = 100, bus_log = []\<rparr>" "replicate 240 0" "\<lambda>_ _. 0" "\<lambda>_. 0" fresh_vcu]
  show ?thesis by (simp add: fresh_vcu_def) blast
qed

text \<open>The register 0x1900, 8 V, is read as 25, and 0.03 V are published.\<close>

theorem battery_reading_published_witness:
  "\<exists>f w' s' v m. battery_round (\<lambda>_ _. 0) (0x19, 0) (0, 0) quiet_bus = Inr w' \<and> bus_log w' = [(0, f)] \<and>
     can_handler (\<lambda>_. 0) (replicate 240 0) f fresh_vcu = Inr s' \<and> outs s' = [Publish TOPIC_BATTERY v] \<and>
     publish_sensor_data TOPIC_BATTERY v 7 [] = [m] \<and> read_hundredths (payload m) = 3"
proof -
  have "be_bytes 0x1900 = [0x19, 0]" "sint (0x19 :: u16) = 25" "push_bit 8 0x1900 OR drop_bit 8 (0x1900 :: u16) = 0x19"
    by (simp_all add: be_bytes_def)
  moreover have "h = 3" if "\<bar>8 * h - 25\<bar> \<le> (4 :: int)" for h using that by arith
  ultimately show ?thesis
    using battery_reading_published [of "0x19" "0x1900" "\<lambda>_ _. 0" "(0, 0)" quiet_bus "\<lambda>_. 0" "replicate 240 0" fresh_vcu 7 "[]"]
    by (auto simp: quiet_bus_def fresh_vcu_def)
qed

end
