(* ===== verification/Node_Start.thy ===== *)
theory Node_Start
  imports Sensor_Nodes Drive_Nodes
begin

text \<open>
  The sensor nodes from power-on: \<^verbatim>\<open>main\<close> of each node's \<^verbatim>\<open>src/main.c\<close>, the set-up calls it makes to
  the drivers, and the thread it starts, round after round over what the sensor reports. The devices
  of the device tree are ready or not as the function \<open>ready\<close> says.
\<close>

section \<open>The seven programs\<close>

datatype device = Adc0 | Gpio0 | Spi0 | Ds18b20 | Uart_Gps | I2c_Sens | Zephyr_Canbus

datatype setup_call = Adc_Channel_Setup | Gpio_Output nat | Gpio_Input nat | Gpio_Input_Rising nat
  | Gpio_Callback nat | Gpio_Interrupt_Rising nat | I2c_Write u8 bytes
  | Uart_Callback_Set | Uart_Rx_Enable | Thread_Start

definition TRIG_PIN :: nat where "TRIG_PIN = 13"
definition ECHO_PIN :: nat where "ECHO_PIN = 14"
definition HALL_SENSOR_PIN :: nat where "HALL_SENSOR_PIN = 5"
definition INA219_ADDR :: u8 where "INA219_ADDR = 0x40"
definition INA219_CONFIG :: u16 where "INA219_CONFIG = 0x399F"

definition brake_thread :: "can_dev \<Rightarrow> u16 list \<Rightarrow> world \<Rightarrow> world res" where
  "brake_thread dev readings w = res_run (\<lambda>w r. brake_round dev r w) w readings"

definition brake_main :: "(device \<Rightarrow> bool) \<Rightarrow> can_dev \<Rightarrow> u16 list \<Rightarrow> world \<Rightarrow> setup_call list \<times> world res" where
  "brake_main ready dev readings w =
     (if \<not> ready Adc0 \<or> \<not> ready Zephyr_Canbus then ([], Inr w)
      else ([Adc_Channel_Setup, Thread_Start], brake_thread dev readings w))"

definition tpms_thread :: "can_dev \<Rightarrow> u8 option list \<Rightarrow> world \<Rightarrow> world res" where
  "tpms_thread dev readings w = res_run (\<lambda>w r. tpms_round dev r w) w readings"

definition tpms_main :: "(device \<Rightarrow> bool) \<Rightarrow> can_dev \<Rightarrow> u8 option list \<Rightarrow> world \<Rightarrow> setup_call list \<times> world res" where
  "tpms_main ready dev readings w =
     (if \<not> ready Spi0 \<or> \<not> ready Zephyr_Canbus then ([], Inr w)
      else ([Thread_Start], tpms_thread dev readings w))"

definition temperature_thread :: "can_dev \<Rightarrow> f32 option list \<Rightarrow> world \<Rightarrow> world res" where
  "temperature_thread dev readings w = res_run (\<lambda>w r. temperature_round dev r w) w readings"

definition temp_main :: "(device \<Rightarrow> bool) \<Rightarrow> can_dev \<Rightarrow> f32 option list \<Rightarrow> world \<Rightarrow> setup_call list \<times> world res" where
  "temp_main ready dev readings w =
     (if \<not> ready Zephyr_Canbus then ([], Inr w)
      else if \<not> ready Ds18b20 then ([], Inr w)
      else ([Thread_Start], temperature_thread dev readings w))"

definition battery_thread :: "can_dev \<Rightarrow> ((u8 \<times> u8) \<times> (u8 \<times> u8)) list \<Rightarrow> world \<Rightarrow> world res" where
  "battery_thread dev registers w = res_run (\<lambda>w r. battery_round dev (fst r) (snd r) w) w registers"

definition battery_main ::
  "(device \<Rightarrow> bool) \<Rightarrow> can_dev \<Rightarrow> ((u8 \<times> u8) \<times> (u8 \<times> u8)) list \<Rightarrow> world \<Rightarrow> setup_call list \<times> world res" where
  "battery_main ready dev registers w =
     (if \<not> ready I2c_Sens \<or> \<not> ready Zephyr_Canbus then ([], Inr w)
      else ([I2c_Write INA219_ADDR (be_bytes INA219_CONFIG), Thread_Start], battery_thread dev registers w))"

text \<open>
  One measurement of the distance as the loops and the clock read it: the uninitialised start time,
  the readings of the first loop, the time after it, the readings of the second and the time after
  it. \<open>hz\<close> and \<open>limit\<close> are those of \<^term>\<open>measure_distance\<close>. \<open>None\<close>: a busy loop is still running.
\<close>

record echo =
  junk_start :: u32
  up_readings :: "(int \<times> u32) list"
  echo_start :: u32
  down_readings :: "(int \<times> u32) list"
  echo_stop :: u32

fun collision_thread :: "can_dev \<Rightarrow> u32 \<Rightarrow> u32 \<Rightarrow> echo list \<Rightarrow> world \<Rightarrow> world res option" where
  "collision_thread dev hz limit [] w = Some (Inr w)"
| "collision_thread dev hz limit (e # es) w =
     (case measure_distance (junk_start e) hz limit (up_readings e) (echo_start e) (down_readings e) (echo_stop e) of
        None \<Rightarrow> None
      | Some m \<Rightarrow>
          (case res_bind m (\<lambda>d. collision_round dev d w) of
             Inl x \<Rightarrow> Some (Inl x)
           | Inr w' \<Rightarrow> collision_thread dev hz limit es w'))"

definition collision_main ::
  "(device \<Rightarrow> bool) \<Rightarrow> can_dev \<Rightarrow> u32 \<Rightarrow> u32 \<Rightarrow> echo list \<Rightarrow> world \<Rightarrow> setup_call list \<times> world res option" where
  "collision_main ready dev hz limit echoes w =
     (if \<not> ready Gpio0 \<or> \<not> ready Zephyr_Canbus then ([], Some (Inr w))
      else ([Gpio_Output TRIG_PIN, Gpio_Input ECHO_PIN, Thread_Start], collision_thread dev hz limit echoes w))"

definition gps_boot :: gps where
  "gps_boot = \<lparr>rx_buf = replicate GPS_BUFFER_SIZE 0, rx_pos = 0\<rparr>"

definition gps_main ::
  "(device \<Rightarrow> bool) \<Rightarrow> (bytes \<Rightarrow> u8 \<Rightarrow> f32 \<times> f32) \<Rightarrow> can_dev \<Rightarrow> u8 option list \<Rightarrow> world \<Rightarrow>
   setup_call list \<times> (gps \<times> world) res" where
  "gps_main ready parse dev inputs w =
     (if \<not> ready Uart_Gps \<or> \<not> ready Zephyr_Canbus then ([], Inr (gps_boot, w))
      else ([Uart_Callback_Set, Uart_Rx_Enable], res_run (\<lambda>gw c. uart_cb parse dev c gw) (gps_boot, w) inputs))"

text \<open>The speed node: interrupts of the wheel sensor between the rounds of the thread.\<close>

datatype speed_event = Pulse u64 | Round

definition speed_step ::
  "can_dev \<Rightarrow> hall \<times> speed_thread \<times> world \<Rightarrow> speed_event \<Rightarrow> (hall \<times> speed_thread \<times> world) res" where
  "speed_step dev s e =
     (case s of (h, st, w) \<Rightarrow>
        case e of
          Pulse t \<Rightarrow> Inr (hall_sensor_callback t h, st, w)
        | Round \<Rightarrow> res_bind (speed_round dev h (st, w)) (\<lambda>tw. Inr (h, tw)))"

definition speed_main ::
  "(device \<Rightarrow> bool) \<Rightarrow> can_dev \<Rightarrow> speed_event list \<Rightarrow> world \<Rightarrow>
   setup_call list \<times> (hall \<times> speed_thread \<times> world) res" where
  "speed_main ready dev events w =
     (let h = \<lparr>pulse_count = 0, last_pulse_time = 0\<rparr>;
          st = \<lparr>last_count = 0, last_time = word_of_nat (uptime w)\<rparr>
      in if \<not> ready Gpio0 \<or> \<not> ready Zephyr_Canbus then ([], Inr (h, st, w))
         else ([Gpio_Input_Rising HALL_SENSOR_PIN, Gpio_Callback HALL_SENSOR_PIN,
                Gpio_Interrupt_Rising HALL_SENSOR_PIN, Thread_Start],
               res_run (speed_step dev) (h, st, w) events))"

section \<open>Starting a node\<close>

text \<open>A node with a device that is not ready does nothing at all.\<close>

lemma silent_unless_ready:
  assumes "\<not> ready Zephyr_Canbus"
  shows "brake_main ready dev rs w = ([], Inr w)" and "tpms_main ready dev ps w = ([], Inr w)"
    and "temp_main ready dev ts w = ([], Inr w)" and "battery_main ready dev bs w = ([], Inr w)"
    and "collision_main ready dev hz limit es w = ([], Some (Inr w))"
    and "gps_main ready parse dev cs w = ([], Inr (gps_boot, w))"
    and "fst (speed_main ready dev evs w) = []"
  using assms by (simp_all add: brake_main_def tpms_main_def temp_main_def battery_main_def
      collision_main_def gps_main_def speed_main_def Let_def)

text \<open>The brake thread is a paced burst on the bus: one frame for each reading, 50 ms apart.\<close>

definition brake_frame :: "u16 \<Rightarrow> can_frame" where
  "brake_frame r = \<lparr>fid = CAN_ID_BRAKE, dlc = 2, fflags = 0, fdata = be_bytes r @ replicate 6 0\<rparr>"

lemma brake_thread_burst:
  "brake_thread dev rs w = Inr (fold (\<lambda>f w. k_sleep 50 (snd (can_send dev f w))) (map brake_frame rs) w)"
  unfolding brake_thread_def
  by (induction rs arbitrary: w) (simp_all add: brake_round_def send_and_wait_ok BRAKE_MSG_LEN_def brake_frame_def)

lemma brake_node_sends_readings:
  assumes "ready Adc0" and "ready Zephyr_Canbus"
  shows "\<exists>w'. brake_main ready dev rs w = ([Adc_Channel_Setup, Thread_Start], Inr w') \<and>
    sent_frames w' = sent_frames w @ map brake_frame rs \<and> uptime w' = uptime w + 50 * length rs"
  using assms bus.paced_burst [of 50 dev "map brake_frame rs" w] by (simp add: brake_main_def brake_thread_burst)

section \<open>The traffic of the nodes\<close>

text \<open>A frame that one round of some node, whatever it reads, puts on the bus.\<close>

inductive node_sends :: "can_frame \<Rightarrow> bool" where
  brake: "brake_round dev r w = Inr w' \<Longrightarrow> sent_frames w' = sent_frames w @ [f] \<Longrightarrow> node_sends f"
| tpms: "tpms_round dev p w = Inr w' \<Longrightarrow> sent_frames w' = sent_frames w @ [f] \<Longrightarrow> node_sends f"
| temperature: "temperature_round dev t w = Inr w' \<Longrightarrow> sent_frames w' = sent_frames w @ [f] \<Longrightarrow> node_sends f"
| battery: "battery_round dev v c w = Inr w' \<Longrightarrow> sent_frames w' = sent_frames w @ [f] \<Longrightarrow> node_sends f"
| collision: "collision_round dev d w = Inr w' \<Longrightarrow> sent_frames w' = sent_frames w @ [f] \<Longrightarrow> node_sends f"
| speed: "speed_round dev h (st, w) = Inr (st', w') \<Longrightarrow> sent_frames w' = sent_frames w @ [f] \<Longrightarrow> node_sends f"
| gps: "uart_cb parse dev c (g, w) = Inr (g', w') \<Longrightarrow> sent_frames w' = sent_frames w @ [f] \<Longrightarrow> node_sends f"

lemma sent_frames_simps [simp]:
  "sent_frames (snd (can_send dev f w)) = sent_frames w @ [f]" "sent_frames (k_sleep n w) = sent_frames w"
  by (simp_all add: bus.tx_simps)

definition node_ids :: "u32 set" where
  "node_ids = {CAN_ID_BATTERY, CAN_ID_COLLISION, CAN_ID_TEMP, CAN_ID_GPS, CAN_ID_BRAKE, CAN_ID_TPMS, CAN_ID_SPEED}"

definition long_enough :: "can_frame \<Rightarrow> bool" where
  "long_enough f \<longleftrightarrow> wf_frame f \<and> dlc f \<le> 8 \<and> fid f \<in> node_ids \<and>
     (fid f \<in> {CAN_ID_GPS, CAN_ID_BRAKE, CAN_ID_SPEED} \<longrightarrow> 2 \<le> dlc f)"

lemmas frame_shape = long_enough_def wf_frame_def CAN_MAX_DLEN_def node_ids_def can_id_defs send_and_wait_ok

lemma node_frames_long_enough: "node_sends f \<Longrightarrow> long_enough f"
proof (induction rule: node_sends.induct)
  case (brake dev r w w' f)
  then show ?case by (auto simp: brake_round_def BRAKE_MSG_LEN_def frame_shape)
next
  case (tpms dev p w w' f)
  then show ?case by (auto simp: tpms_round_def TPMS_MSG_LEN_def frame_shape split: option.splits)
next
  case (temperature dev t w w' f)
  then show ?case by (auto simp: temperature_round_def TEMP_MSG_LEN_def frame_shape split: option.splits)
next
  case (battery dev v c w w' f)
  then show ?case by (auto simp: battery_round_def BATTERY_MSG_LEN_def frame_shape Let_def)
next
  case (collision dev d w w' f)
  then show ?case by (auto simp: collision_round_def COLLISION_MSG_LEN_def frame_shape)
next
  case (speed dev h st w st' w' f)
  then show ?case
    by (auto simp: speed_round_def SPEED_MSG_LEN_def frame_shape Let_def res_bind_Inr_iff split: if_splits)
next
  case (gps parse dev c g w g' w' f)
  then show ?case
    by (auto simp: uart_cb_def send_sensor_data_ok GPS_MSG_LEN_def frame_shape case_prod_beta split: option.splits if_splits)
qed

lemma outs_relay: "relay bt junk t data len s = Inr s' \<Longrightarrow> outs s' = outs s"
  by (auto simp: relay_def res_bind_Inr_iff)

lemma handled_frame_published:
  assumes "can_handler bt junk f s = Inr s'" and "fid f \<in> node_ids"
  shows "length (outs s) < length (outs s')"
  using assms
  by (auto simp: can_handler_def node_ids_def can_id_defs res_bind_Inr_iff Let_def call_publish_sensor_data_def
      call_publish_gps_data_def split: if_splits dest!: outs_relay)

text \<open>C6: The traffic of the seven nodes is safe for the central unit, however it is interleaved and
  whatever the sensors read: it handles every frame without leaving its memory and publishes at least
  one message for each. The frames it does fault on can only come from outside the nodes.\<close>

theorem node_traffic_safe_and_published:
  assumes "\<And>f. f \<in> set fs \<Longrightarrow> node_sends f" and "length junk = 240"
  shows "\<exists>s'. res_run (\<lambda>s f. can_handler bt junk f s) s fs = Inr s' \<and> length (outs s) + length fs \<le> length (outs s')"
  using assms(1)
proof (induction fs arbitrary: s)
  case Nil
  then show ?case by simp
next
  case (Cons f fs)
  have "node_sends f" by (simp add: Cons.prems)
  then have f: "long_enough f" by (rule node_frames_long_enough)
  then have "\<not> isl (can_handler bt junk f s)"
    using vcu_fault_iff [of f junk bt s] assms(2) by (auto simp: long_enough_def)
  then obtain u where u: "can_handler bt junk f s = Inr u" by (cases "can_handler bt junk f s") auto
  then have "length (outs s) < length (outs u)"
    using handled_frame_published f by (auto simp: long_enough_def)
  moreover obtain s' where "res_run (\<lambda>s f. can_handler bt junk f s) u fs = Inr s'"
      "length (outs u) + length fs \<le> length (outs s')"
    using Cons by auto
  ultimately show ?case using u by auto
qed

section \<open>The pulses of the wheel\<close>

text \<open>Each list of times holds the pulses that arrive before one round.\<close>

definition speed_events :: "u64 list list \<Rightarrow> speed_event list" where
  "speed_events tss = concat (map (\<lambda>ts. map Pulse ts @ [Round]) tss)"

definition speed_frame :: "nat \<Rightarrow> can_frame" where
  "speed_frame x = \<lparr>fid = CAN_ID_SPEED, dlc = 2, fflags = 0, fdata = be_bytes (word_of_nat x) @ replicate 6 0\<rparr>"

lemma speed_step_simps [simp]:
  "speed_step dev (h, st, w) (Pulse t) = Inr (hall_sensor_callback t h, st, w)"
  "speed_step dev (h, st, w) Round = res_bind (speed_round dev h (st, w)) (\<lambda>tw. Inr (h, tw))"
  by (simp_all add: speed_step_def)

lemma enumerate_Suc: "enumerate (Suc n) xs = map (\<lambda>(i, x). (Suc i, x)) (enumerate n xs)"
  by (induction xs arbitrary: n) simp_all

lemma pulses_counted:
  "\<exists>t. res_run (speed_step dev) (h, st, w) (map Pulse ts) =
    Inr (\<lparr>pulse_count = pulse_count h + word_of_nat (length ts), last_pulse_time = t\<rparr>, st, w)"
proof (induction ts arbitrary: h)
  case Nil
  show ?case by (intro exI [of _ "last_pulse_time h"]) simp
next
  case (Cons a ts)
  obtain t where "res_run (speed_step dev) (hall_sensor_callback a h, st, w) (map Pulse ts) =
      Inr (\<lparr>pulse_count = pulse_count (hall_sensor_callback a h) + word_of_nat (length ts), last_pulse_time = t\<rparr>, st, w)"
    using Cons by blast
  then show ?case by (intro exI [of _ t]) (simp add: hall_sensor_callback_def algebra_simps)
qed

lemma speed_standing: "f32_to_u16 (speed_of 0 (time_between 100)) = Inr 0"
proof -
  have r: "f32_rep 0" by (rule f32_rep_zero)
  define d where "d = f32_mul (f32_div (f32_of_unsigned 0) (f32_of_unsigned 4)) (f32_const 2 1)"
  define v where "v = f32_div d (time_between 100)"
  have d: "f32_magnitude d = 0" "\<not> f32_sign d" "f32_finite d" using distance_exact [of 0] by (simp_all add: d_def)
  have "v = f32_round False (0 * (13421773 * 2 ^ 122)) (13421773 * 2 ^ 122)"
    by (simp add: v_def f32_div_positive d tenth_of_a_second)
  then have v: "f32_magnitude v = 0" "\<not> f32_sign v" "f32_finite v"
    using f32_round_rep [OF r, of "13421773 * 2 ^ 122" False] by simp_all
  have "f32_mul v (f32_const 36 10) = f32_round False (0 * 2 ^ 149) (2 ^ 149)"
    by (simp add: f32_mul_finite v ms_to_kmh)
  then have m: "f32_magnitude (f32_mul v (f32_const 36 10)) = 0" "\<not> f32_sign (f32_mul v (f32_const 36 10))"
      "f32_finite (f32_mul v (f32_const 36 10))"
    using f32_round_rep [OF r, of "2 ^ 149" False] by simp_all
  have "speed_of 0 (time_between 100) = f32_mul v (f32_const 36 10)"
    by (simp add: speed_of_def v_def d_def Let_def)
  then show ?thesis using f32_to_u16_of_nat [of "f32_mul v (f32_const 36 10)" 0] m by simp
qed

lemma time_between_zero: "\<not> f32_less 0 (time_between 0)"
proof -
  have "time_between 0 = f32_round False (0 * (1000 * 2 ^ 149)) (1000 * 2 ^ 149)"
    by (simp add: time_between_def f32_div_finite)
  then have "f32_magnitude (time_between 0) = 0" using f32_round_rep(1) [OF f32_rep_zero, of "1000 * 2 ^ 149" False] by simp
  then show ?thesis by (simp add: f32_less_def f32_scaled_def)
qed

lemma speed_round_exact:
  assumes "n \<le> 3640" and "pulse_count h = last_count st + word_of_nat n" and "last_time st + 100 = word_of_nat (uptime w)"
  shows "speed_round dev h (st, w) = Inr (\<lparr>last_count = pulse_count h, last_time = word_of_nat (uptime w)\<rparr>,
    k_sleep 100 (snd (can_send dev (speed_frame (18 * n)) w)))"
proof -
  have elapsed: "word_of_nat (uptime w) - last_time st = 100" using assms(3) by (simp add: algebra_simps)
  have pulses: "pulse_count h - last_count st = word_of_nat n" using assms(2) by simp
  have "f32_to_u16 (speed_of (word_of_nat n) (time_between 100)) = Inr (word_of_nat (18 * n))"
  proof (cases "n = 0")
    case True
    then show ?thesis using speed_standing by simp
  next
    case False
    then show ?thesis using f32_to_u16_of_nat [OF speed_exact [of n]] assms(1) by simp
  qed
  then show ?thesis
    by (simp add: speed_round_def elapsed pulses time_between_positive send_and_wait_ok SPEED_MSG_LEN_def speed_frame_def)
qed

lemma speed_rounds:
  assumes "\<forall>ts\<in>set tss. length ts \<le> 3640" and "last_time st + 100 = word_of_nat (uptime w)" and "last_count st = pulse_count h"
  shows "\<exists>h' st' w'. res_run (speed_step dev) (h, st, w) (speed_events tss) = Inr (h', st', w') \<and>
    bus_log w' = bus_log w @ map (\<lambda>(i, ts). (uptime w + 100 * i, speed_frame (18 * length ts))) (enumerate 0 tss)"
  using assms
proof (induction tss arbitrary: h st w)
  case Nil
  then show ?case by (simp add: speed_events_def)
next
  case (Cons ts tss)
  obtain t where p: "res_run (speed_step dev) (h, st, w) (map Pulse ts) =
      Inr (\<lparr>pulse_count = pulse_count h + word_of_nat (length ts), last_pulse_time = t\<rparr>, st, w)"
    using pulses_counted by blast
  let ?h = "\<lparr>pulse_count = pulse_count h + word_of_nat (length ts), last_pulse_time = t\<rparr>"
  let ?st = "\<lparr>last_count = pulse_count ?h, last_time = word_of_nat (uptime w)\<rparr>"
  let ?w = "k_sleep 100 (snd (can_send dev (speed_frame (18 * length ts)) w))"
  have "speed_round dev ?h (st, w) = Inr (?st, ?w)"
    by (rule speed_round_exact) (use Cons.prems in simp_all)
  then have run: "res_run (speed_step dev) (h, st, w) (speed_events (ts # tss)) =
      res_run (speed_step dev) (?h, ?st, ?w) (speed_events tss)"
    using p by (simp add: speed_events_def res_run_append)
  obtain h' st' w' where rest: "res_run (speed_step dev) (?h, ?st, ?w) (speed_events tss) = Inr (h', st', w')"
      "bus_log w' = bus_log ?w @ map (\<lambda>(i, ts). (uptime ?w + 100 * i, speed_frame (18 * length ts))) (enumerate 0 tss)"
    using Cons.IH [of ?st ?w ?h] Cons.prems(1) by (auto simp: add.commute)
  show ?case using run rest
    by (intro exI [of _ h'] exI [of _ st'] exI [of _ w']) (auto simp: enumerate_Suc [of 0] algebra_simps)
qed

text \<open>C13: The speed node accounts for the wheel exactly from its second round on: with at most 3640
  pulses between two rounds, it sends one frame every 100 ms, the frame of \<open>18 * n\<close> km/h for the \<open>n\<close>
  pulses since the round before, whenever they came and wherever the counter wraps, so no pulse is
  counted twice. The pulses before its first round are never reported.\<close>

theorem pulses_reported_once:
  assumes "ready Gpio0" and "ready Zephyr_Canbus" and "\<forall>ts\<in>set tss. length ts \<le> 3640"
  shows "\<exists>h st w'. snd (speed_main ready dev (speed_events (ts0 # tss)) w) = Inr (h, st, w') \<and>
    bus_log w' = bus_log w @ map (\<lambda>(i, ts). (uptime w + 100 + 100 * i, speed_frame (18 * length ts))) (enumerate 0 tss)"
proof -
  let ?st = "\<lparr>last_count = 0, last_time = word_of_nat (uptime w)\<rparr>"
  obtain t where p: "res_run (speed_step dev) (\<lparr>pulse_count = 0, last_pulse_time = 0\<rparr>, ?st, w) (map Pulse ts0) =
      Inr (\<lparr>pulse_count = word_of_nat (length ts0), last_pulse_time = t\<rparr>, ?st, w)"
    using pulses_counted [of dev "\<lparr>pulse_count = 0, last_pulse_time = 0\<rparr>" ?st w ts0] by auto
  let ?h = "\<lparr>pulse_count = word_of_nat (length ts0), last_pulse_time = t\<rparr>"
  have first: "speed_round dev ?h (?st, w) =
      Inr (\<lparr>last_count = pulse_count ?h, last_time = word_of_nat (uptime w)\<rparr>, k_sleep 100 w)"
    by (simp add: speed_round_def time_between_zero)
  obtain h st w' where "res_run (speed_step dev) (?h, \<lparr>last_count = pulse_count ?h, last_time = word_of_nat (uptime w)\<rparr>, k_sleep 100 w)
        (speed_events tss) = Inr (h, st, w')"
      "bus_log w' = bus_log w @ map (\<lambda>(i, ts). (uptime w + 100 + 100 * i, speed_frame (18 * length ts))) (enumerate 0 tss)"
    using speed_rounds [OF assms(3), of "\<lparr>last_count = pulse_count ?h, last_time = word_of_nat (uptime w)\<rparr>" "k_sleep 100 w" ?h dev]
    by (auto simp: add.commute)
  moreover have "res_run (speed_step dev) (\<lparr>pulse_count = 0, last_pulse_time = 0\<rparr>, ?st, w) (speed_events (ts0 # tss)) =
      res_run (speed_step dev) (?h, \<lparr>last_count = pulse_count ?h, last_time = word_of_nat (uptime w)\<rparr>, k_sleep 100 w) (speed_events tss)"
    using p first by (simp add: speed_events_def res_run_append)
  ultimately show ?thesis using assms(1,2) by (simp add: speed_main_def Let_def)
qed

section \<open>Instances\<close>

theorem node_traffic_safe_and_published_witness:
  "\<exists>s'. res_run (\<lambda>s f. can_handler (\<lambda>_. 0) (replicate 240 0) f s) fresh_vcu [brake_frame 7] = Inr s' \<and> 1 \<le> length (outs s')"
proof -
  have "node_sends f" if "f \<in> set [brake_frame 7]" for f
    using that node_sends.brake [of "\<lambda>_ _. 0" 7 quiet_bus "k_sleep 50 (snd (can_send (\<lambda>_ _. 0) (brake_frame 7) quiet_bus))" "brake_frame 7"]
    by (simp add: brake_round_def send_and_wait_ok BRAKE_MSG_LEN_def brake_frame_def)
  from node_traffic_safe_and_published [OF this, of "[brake_frame 7]" "replicate 240 0" "\<lambda>_. 0" fresh_vcu] show ?thesis
    by (simp add: fresh_vcu_def)
qed

theorem pulses_reported_once_witness:
  "\<exists>h st w'. snd (speed_main (\<lambda>_. True) (\<lambda>_ _. 0) (speed_events [[3], [40, 41, 44], []]) quiet_bus) = Inr (h, st, w') \<and>
     bus_log w' = [(100, speed_frame 54), (200, speed_frame 0)]"
  using pulses_reported_once [of "\<lambda>_. True" "[[40, 41, 44], []]" "\<lambda>_ _. 0" "[3]" quiet_bus]
  by (simp add: quiet_bus_def)

end
