(* ===== verification/V2i_Handler.thy ===== *)
theory V2i_Handler
  imports V2x_Router Float_Arith
begin

text \<open>
  The messages between vehicle and infrastructure of \<^verbatim>\<open>vcu/src/v2i_handler.c\<close>. The JSON library
  is a parameter: a parsed message is what the decoding calls leave in the variables they are given,
  which for a missing field is whatever was there. The light colours, road conditions and limits
  the file compares with are declared nowhere in the repository and are the parameter \<open>vc\<close>, the
  state of the vehicle is the parameter \<open>car\<close>. Calls of routines the repository does not define are
  recorded in order.
\<close>

section \<open>Data\<close>

definition V2I_TRAFFIC_LIGHT :: u8 where "V2I_TRAFFIC_LIGHT = 1"
definition V2I_ROAD_CONDITION :: u8 where "V2I_ROAD_CONDITION = 2"
definition V2I_TRAFFIC_FLOW :: u8 where "V2I_TRAFFIC_FLOW = 3"

record v2i_config =
  LIGHT_RED :: u8
  LIGHT_YELLOW :: u8
  ROAD_ICY :: u8
  ROAD_WET :: u8
  HIGH_TRAFFIC_THRESHOLD :: u16
  CRITICAL_DISTANCE :: f32
  BRAKE_DECELERATION :: f32

record vehicle =
  current_speed :: f32
  traffic_info :: bytes
  stability_threshold :: "f32 \<Rightarrow> f32"

record json_token =
  u8_field :: "string \<Rightarrow> u8"
  u16_field :: "string \<Rightarrow> u16"
  float_field :: "string \<Rightarrow> f32"
  string_field :: "string \<Rightarrow> string"

datatype v2i_call = Brake_Warning | Adjust_Speed f32 | Traction_Control f32 f32 | Road_Hazard_Broadcast
  | Adjust_Abs | Suggest_Route | Traffic_System_Update | Publish_Json string | Subscribe_Topics

record v2i =
  traffic_light_state :: bool
  v2i_road_condition :: u8
  traffic_flow :: u16
  calls :: "v2i_call list"
  routed :: "v2x_message list"

definition call :: "v2i_call \<Rightarrow> v2i \<Rightarrow> v2i" where "call c s = s\<lparr>calls := calls s @ [c]\<rparr>"

section \<open>Operations\<close>

definition v2i_init :: "v2i \<Rightarrow> v2i" where
  "v2i_init s = call Subscribe_Topics (s\<lparr>traffic_light_state := False, v2i_road_condition := 0, traffic_flow := 0\<rparr>)"

text \<open>The texts fit the buffer of 256 characters; \<open>junk\<close> is what it holds for an unknown type.\<close>

definition send_v2i_data :: "string \<Rightarrow> u8 \<Rightarrow> bytes \<Rightarrow> v2i \<Rightarrow> v2i res" where
  "send_v2i_data junk t data s =
     (if t = V2I_TRAFFIC_LIGHT then
        res_bind (mem_get data 0) (\<lambda>a.
          Inr (call (Publish_Json (''{\"type\":\"traffic_light\",\"state\":'' @ decimal (unat a) @ ''}'')) s))
      else if t = V2I_ROAD_CONDITION then
        res_bind (mem_get data 0) (\<lambda>a.
          Inr (call (Publish_Json (''{\"type\":\"road_condition\",\"condition\":'' @ decimal (unat a) @ ''}'')) s))
      else if t = V2I_TRAFFIC_FLOW then
        res_bind (mem_get data 0) (\<lambda>a.
        res_bind (mem_get data 1) (\<lambda>b.
          Inr (call (Publish_Json (''{\"type\":\"traffic_flow\",\"density\":'' @
            decimal (unat a * 256 + unat b) @ ''}'')) s)))
      else Inr (call (Publish_Json junk) s))"

definition brake_distance :: "v2i_config \<Rightarrow> f32 \<Rightarrow> f32" where
  "brake_distance vc speed = f32_div (f32_mul speed speed) (f32_mul (f32_of_unsigned 2) (BRAKE_DECELERATION vc))"

definition calculate_stopping_distance :: "v2i_config \<Rightarrow> vehicle \<Rightarrow> f32 \<Rightarrow> v2i \<Rightarrow> v2i" where
  "calculate_stopping_distance vc car distance s =
     (if f32_less distance (brake_distance vc (current_speed car))
      then call (Adjust_Speed distance) (call Brake_Warning s) else s)"

definition handle_traffic_light_data :: "v2i_config \<Rightarrow> vehicle \<Rightarrow> json_token \<Rightarrow> v2i \<Rightarrow> v2i" where
  "handle_traffic_light_data vc car token s =
     (let light_state = u8_field token ''state'';
          distance = float_field token ''distance'';
          s1 = s\<lparr>traffic_light_state := light_state \<noteq> 0\<rparr>
      in if light_state = LIGHT_RED vc then
           (if f32_less distance (CRITICAL_DISTANCE vc) then call Brake_Warning s1 else s1)
         else if light_state = LIGHT_YELLOW vc then calculate_stopping_distance vc car distance s1
         else s1)"

definition adjust_traction_control :: "vehicle \<Rightarrow> f32 \<Rightarrow> v2i \<Rightarrow> v2i" where
  "adjust_traction_control car friction s = call (Traction_Control friction (stability_threshold car friction)) s"

definition handle_road_condition_data :: "v2i_config \<Rightarrow> vehicle \<Rightarrow> json_token \<Rightarrow> v2i \<Rightarrow> v2i" where
  "handle_road_condition_data vc car token s =
     (let condition = u8_field token ''condition'';
          friction = float_field token ''friction'';
          s1 = s\<lparr>v2i_road_condition := condition\<rparr>
      in if condition = ROAD_ICY vc then call Road_Hazard_Broadcast (adjust_traction_control car friction s1)
         else if condition = ROAD_WET vc then call Adjust_Abs s1
         else s1)"

text \<open>\<open>traffic_info\<close> is the memory of the structure that is copied into the message.\<close>

definition notify_traffic_congestion :: "router_config \<Rightarrow> vehicle \<Rightarrow> v2i \<Rightarrow> v2i res" where
  "notify_traffic_congestion rc car s =
     res_bind (memcpy_at (msg_data zero_message) 0 (traffic_info car)) (\<lambda>d.
       let m = zero_message\<lparr>msg_type := V2X_MSG_TRAFFIC, priority := 1,
                 data_len := word_of_nat (length (traffic_info car)), msg_data := d\<rparr>
       in Inr (s\<lparr>routed := v2x_route_message rc m (routed s)\<rparr>))"

definition handle_traffic_flow_data :: "v2i_config \<Rightarrow> router_config \<Rightarrow> vehicle \<Rightarrow> json_token \<Rightarrow> v2i \<Rightarrow> v2i res" where
  "handle_traffic_flow_data vc rc car token s =
     (let density = u16_field token ''density'';
          s1 = s\<lparr>traffic_flow := density\<rparr>
      in if HIGH_TRAFFIC_THRESHOLD vc < density then notify_traffic_congestion rc car (call Suggest_Route s1)
         else Inr s1)"

definition process_v2i_message ::
  "(bytes \<Rightarrow> json_token option) \<Rightarrow> v2i_config \<Rightarrow> router_config \<Rightarrow> vehicle \<Rightarrow> bytes \<Rightarrow> v2i \<Rightarrow> v2i res" where
  "process_v2i_message parse vc rc car data s =
     (case parse data of
        None \<Rightarrow> Inr s
      | Some token \<Rightarrow>
          let kind = string_field token ''type'' in
          res_bind
            (if kind = ''traffic_light'' then Inr (handle_traffic_light_data vc car token s)
             else if kind = ''road_condition'' then Inr (handle_road_condition_data vc car token s)
             else if kind = ''traffic_flow'' then handle_traffic_flow_data vc rc car token s
             else Inr s)
            (\<lambda>s'. Inr (call Traffic_System_Update s')))"

section \<open>Monotone float operations\<close>

lemma round_fields_limit: "round_fields p q \<le> f32_infinite"
  by (simp add: round_fields_def Let_def)

lemma f32_round_fields: "f32_magnitude (f32_round s p q) = fields_magnitude (round_fields p q)"
    "f32_sign (f32_round s p q) = s" "\<not> f32_is_nan (f32_round s p q)"
proof -
  have le: "round_fields p q \<le> 255 * 8388608" using round_fields_limit [of p q] by (simp add: f32_infinite_def)
  then have "round_fields p q < 2 ^ 31" by simp
  note f = f32_make_fields [OF this, of s]
  show "f32_magnitude (f32_round s p q) = fields_magnitude (round_fields p q)" "f32_sign (f32_round s p q) = s"
    by (simp_all only: f32_round_def f(3,4))
  show "\<not> f32_is_nan (f32_round s p q)"
  proof
    assume "f32_is_nan (f32_round s p q)"
    then have nan: "round_fields p q div 8388608 = 255" "round_fields p q mod 8388608 \<noteq> 0"
      using f(1,2) by (simp_all add: f32_is_nan_def f32_round_def)
    then have "round_fields p q = 255 * 8388608 + round_fields p q mod 8388608"
      using div_mult_mod_eq [of "round_fields p q" 8388608] by simp
    then show False using le nan(2) by simp
  qed
qed

lemma f32_infinity: "f32_magnitude (f32_make s f32_infinite) = fields_magnitude f32_infinite"
    "f32_sign (f32_make s f32_infinite) = s" "\<not> f32_is_nan (f32_make s f32_infinite)" "f32_is_inf (f32_make s f32_infinite)"
  using f32_make_fields [of f32_infinite s] by (simp_all add: f32_infinite_def f32_is_nan_def f32_is_inf_def)

definition f32_positive :: "f32 \<Rightarrow> bool" where
  "f32_positive a \<longleftrightarrow> \<not> f32_is_nan a \<and> \<not> f32_sign a"

lemma round_magnitude_mono: "0 < q \<Longrightarrow> p \<le> p' \<Longrightarrow>
    f32_magnitude (f32_round s p q) \<le> f32_magnitude (f32_round s' p' q)"
  by (simp add: f32_round_fields fields_magnitude_mono round_fields_mono)

lemma square_mono:
  assumes "f32_finite a" "f32_finite b" "\<not> f32_sign a" "\<not> f32_sign b" "f32_magnitude a \<le> f32_magnitude b"
  shows "f32_magnitude (f32_mul a a) \<le> f32_magnitude (f32_mul b b)" "f32_positive (f32_mul a a)" "f32_positive (f32_mul b b)"
proof -
  have m: "f32_mul x x = f32_round False (f32_magnitude x * f32_magnitude x) (2 ^ 149)" if "f32_finite x" for x
    using that by (simp add: f32_mul_def finite_not)
  show "f32_magnitude (f32_mul a a) \<le> f32_magnitude (f32_mul b b)"
    using assms by (simp add: m round_magnitude_mono mult_le_mono)
  show "f32_positive (f32_mul a a)" "f32_positive (f32_mul b b)"
    using assms by (simp_all add: m f32_positive_def f32_round_fields)
qed

lemma div_mono:
  assumes "f32_positive a" "f32_positive b" "f32_magnitude a \<le> f32_magnitude b"
    and "f32_finite c" "0 < f32_magnitude c"
  shows "f32_magnitude (f32_div a c) \<le> f32_magnitude (f32_div b c)" "\<not> f32_is_nan (f32_div b c)"
    "f32_sign (f32_div a c) = f32_sign c" "f32_sign (f32_div b c) = f32_sign c"
proof -
  have d: "f32_div x c = (if f32_is_inf x then f32_make (f32_sign c) f32_infinite
      else f32_round (f32_sign c) (f32_magnitude x * 2 ^ 149) (f32_magnitude c))" if "f32_positive x" for x
    using that assms(4,5) by (simp add: f32_div_def f32_positive_def finite_not f32_is_zero_def Let_def)
  have "f32_is_inf b" if "f32_is_inf a"
    using that assms(2,3) finite_magnitude [of b] inf_magnitude [of a] by (auto simp: f32_positive_def finite_iff)
  then show "f32_magnitude (f32_div a c) \<le> f32_magnitude (f32_div b c)"
    using assms by (auto simp: d f32_infinity f32_round_fields fields_magnitude_mono round_fields_limit round_fields_mono)
  show "\<not> f32_is_nan (f32_div b c)" "f32_sign (f32_div a c) = f32_sign c" "f32_sign (f32_div b c) = f32_sign c"
    using assms(1,2) by (simp_all add: d f32_infinity f32_round_fields)
qed

section \<open>Warnings\<close>

text \<open>The deceleration is a usable divisor.\<close>

definition brakes_work :: "v2i_config \<Rightarrow> bool" where
  "brakes_work vc \<longleftrightarrow> (let c = f32_mul (f32_of_unsigned 2) (BRAKE_DECELERATION vc) in
     f32_finite c \<and> 0 < f32_magnitude c \<and> \<not> f32_sign c)"

definition is_speed :: "f32 \<Rightarrow> bool" where "is_speed v \<longleftrightarrow> f32_finite v \<and> \<not> f32_sign v"

lemma brake_distance_mono:
  assumes "brakes_work vc" "is_speed v" "is_speed v'" "f32_scaled v \<le> f32_scaled v'" "f32_less d (brake_distance vc v)"
  shows "f32_less d (brake_distance vc v')"
proof -
  have "f32_magnitude v \<le> f32_magnitude v'" using assms(2-4) by (simp add: is_speed_def f32_scaled_def)
  note sq = square_mono [OF _ _ _ _ this]
  note q = div_mono [OF sq(2) sq(3) sq(1), of "f32_mul (f32_of_unsigned 2) (BRAKE_DECELERATION vc)"]
  show ?thesis
    using assms(1,2,3,5) q unfolding is_speed_def brakes_work_def brake_distance_def
    by (auto simp: f32_less_def f32_scaled_def Let_def)
qed

definition warned :: "v2i \<Rightarrow> bool" where "warned s \<longleftrightarrow> Brake_Warning \<in> set (calls s)"

lemma warned_simps [simp]:
  "warned (call c s) \<longleftrightarrow> c = Brake_Warning \<or> warned s"
  "warned (s\<lparr>traffic_light_state := x\<rparr>) = warned s" "warned (s\<lparr>v2i_road_condition := c'\<rparr>) = warned s"
  "warned (s\<lparr>traffic_flow := y\<rparr>) = warned s" "warned (s\<lparr>routed := z\<rparr>) = warned s"
  by (auto simp: warned_def call_def)

lemma road_never_warns: "warned (handle_road_condition_data vc car token s) = warned s"
  by (simp add: handle_road_condition_data_def adjust_traction_control_def Let_def)

lemma flow_never_warns: "handle_traffic_flow_data vc rc car token s = Inr s' \<Longrightarrow> warned s' = warned s"
  by (auto simp: handle_traffic_flow_data_def notify_traffic_congestion_def Let_def res_bind_Inr_iff split: if_splits)

lemma light_warning:
  "warned (handle_traffic_light_data vc car token s) \<longleftrightarrow> warned s \<or>
     u8_field token ''state'' = LIGHT_RED vc \<and> f32_less (float_field token ''distance'') (CRITICAL_DISTANCE vc) \<or>
     u8_field token ''state'' \<noteq> LIGHT_RED vc \<and> u8_field token ''state'' = LIGHT_YELLOW vc \<and>
       f32_less (float_field token ''distance'') (brake_distance vc (current_speed car))"
  by (auto simp: handle_traffic_light_data_def calculate_stopping_distance_def Let_def)

text \<open>C14: A faster car is warned too. Whatever message arrives: if the handler warns a car at some
  speed, it warns every car with a higher speed in the same situation; the rounding of the braking
  distance, overflow to infinity included, never turns the comparison round.\<close>

theorem faster_car_warned_too:
  assumes "brakes_work vc" "is_speed v" "is_speed v'" "f32_scaled v \<le> f32_scaled v'"
    and "process_v2i_message parse vc rc (car\<lparr>current_speed := v\<rparr>) data s = Inr slow" "warned slow"
    and "process_v2i_message parse vc rc (car\<lparr>current_speed := v'\<rparr>) data s = Inr fast"
  shows "warned fast"
proof (cases "parse data")
  case None
  then show ?thesis using assms(5-7) by (simp add: process_v2i_message_def)
next
  case (Some token)
  have mono: "f32_less d (brake_distance vc v) \<Longrightarrow> f32_less d (brake_distance vc v')" for d
    by (rule brake_distance_mono [OF assms(1-4)])
  have "warned (handle_traffic_light_data vc (car\<lparr>current_speed := v\<rparr>) token s) \<Longrightarrow>
      warned (handle_traffic_light_data vc (car\<lparr>current_speed := v'\<rparr>) token s)"
    using mono unfolding light_warning by auto
  then show ?thesis using assms(5-7) Some
    by (auto simp: process_v2i_message_def Let_def res_bind_Inr_iff road_never_warns dest!: flow_never_warns split: if_splits)
qed

section \<open>The context\<close>

definition reports :: "(bytes \<Rightarrow> json_token option) \<Rightarrow> string \<Rightarrow> bytes list \<Rightarrow> json_token list" where
  "reports parse kind ms = filter (\<lambda>t. string_field t ''type'' = kind) (List.map_filter parse ms)"

definition last_report :: "'a \<Rightarrow> (json_token \<Rightarrow> 'a) \<Rightarrow> json_token list \<Rightarrow> 'a" where
  "last_report start get ts = (if ts = [] then start else get (last ts))"

definition v2i_step :: "(bytes \<Rightarrow> json_token option) \<Rightarrow> v2i_config \<Rightarrow> router_config \<Rightarrow> vehicle \<Rightarrow> v2i \<Rightarrow> bytes \<Rightarrow> v2i res" where
  "v2i_step parse vc rc car s data = process_v2i_message parse vc rc car data s"

lemma call_simps [simp]:
  "traffic_light_state (call c s) = traffic_light_state s" "v2i_road_condition (call c s) = v2i_road_condition s"
  "traffic_flow (call c s) = traffic_flow s" "routed (call c s) = routed s"
  by (simp_all add: call_def)

lemma light_context:
  "traffic_light_state (handle_traffic_light_data vc car token s) \<longleftrightarrow> u8_field token ''state'' \<noteq> 0"
  "v2i_road_condition (handle_traffic_light_data vc car token s) = v2i_road_condition s"
  "traffic_flow (handle_traffic_light_data vc car token s) = traffic_flow s"
  by (simp_all add: handle_traffic_light_data_def calculate_stopping_distance_def Let_def)

lemma road_context:
  "traffic_light_state (handle_road_condition_data vc car token s) = traffic_light_state s"
  "v2i_road_condition (handle_road_condition_data vc car token s) = u8_field token ''condition''"
  "traffic_flow (handle_road_condition_data vc car token s) = traffic_flow s"
  by (simp_all add: handle_road_condition_data_def adjust_traction_control_def Let_def)

lemma flow_context:
  assumes "length (traffic_info car) \<le> 256"
  shows "\<exists>s'. handle_traffic_flow_data vc rc car token s = Inr s' \<and> traffic_light_state s' = traffic_light_state s \<and>
    v2i_road_condition s' = v2i_road_condition s \<and> traffic_flow s' = u16_field token ''density''"
  using assms by (simp add: handle_traffic_flow_data_def notify_traffic_congestion_def Let_def mem_simps
    zero_message_def V2X_MAX_DATA_SIZE_def)

text \<open>C27: The context is the last report of each kind. Starting from the initialisation, every
  sequence of messages is processed without a fault, and afterwards the light, the road condition
  and the traffic flow are those of the last message of that type, or the initial ones if there was
  none; unreadable messages and unknown types change nothing.\<close>

theorem context_is_last_report:
  assumes "length (traffic_info car) \<le> 256"
  shows "\<exists>s. res_run (v2i_step parse vc rc car) (v2i_init s0) ms = Inr s \<and>
    traffic_light_state s = last_report False (\<lambda>t. u8_field t ''state'' \<noteq> 0) (reports parse ''traffic_light'' ms) \<and>
    v2i_road_condition s = last_report 0 (\<lambda>t. u8_field t ''condition'') (reports parse ''road_condition'' ms) \<and>
    traffic_flow s = last_report 0 (\<lambda>t. u16_field t ''density'') (reports parse ''traffic_flow'' ms)"
proof (induction ms rule: rev_induct)
  case Nil
  then show ?case by (simp add: v2i_init_def reports_def last_report_def)
next
  case (snoc m ms)
  then obtain s where s: "res_run (v2i_step parse vc rc car) (v2i_init s0) ms = Inr s"
      "traffic_light_state s = last_report False (\<lambda>t. u8_field t ''state'' \<noteq> 0) (reports parse ''traffic_light'' ms)"
      "v2i_road_condition s = last_report 0 (\<lambda>t. u8_field t ''condition'') (reports parse ''road_condition'' ms)"
      "traffic_flow s = last_report 0 (\<lambda>t. u16_field t ''density'') (reports parse ''traffic_flow'' ms)"
    by blast
  show ?case
  proof (cases "parse m")
    case None
    then have same: "reports parse k (ms @ [m]) = reports parse k ms" for k
      by (simp add: reports_def List.map_filter_def)
    have "v2i_step parse vc rc car s m = Inr s" using None by (simp add: v2i_step_def process_v2i_message_def)
    then show ?thesis unfolding same using s by (simp add: res_run_append)
  next
    case (Some t)
    then have more: "reports parse k (ms @ [m]) = reports parse k ms @ (if string_field t ''type'' = k then [t] else [])" for k
      by (simp add: reports_def List.map_filter_def)
    obtain u where u: "handle_traffic_flow_data vc rc car t s = Inr u" "traffic_light_state u = traffic_light_state s"
        "v2i_road_condition u = v2i_road_condition s" "traffic_flow u = u16_field t ''density''"
      using flow_context [OF assms] by blast
    define s' where "s' = (if string_field t ''type'' = ''traffic_light'' then handle_traffic_light_data vc car t s
      else if string_field t ''type'' = ''road_condition'' then handle_road_condition_data vc car t s
      else if string_field t ''type'' = ''traffic_flow'' then u else s)"
    have "v2i_step parse vc rc car s m = Inr (call Traffic_System_Update s')"
      using Some u(1) by (simp add: v2i_step_def process_v2i_message_def s'_def)
    then show ?thesis unfolding more using s u
      by (simp add: res_run_append s'_def light_context road_context last_report_def)
  qed
qed

text \<open>The notice of a congestion never reaches anyone: the router passes only safety messages of
  more than high priority, and this one is a traffic message of priority one.\<close>

lemma congestion_notice_dropped:
  assumes "V2X_MSG_SAFETY rc \<noteq> V2X_MSG_TRAFFIC \<or> 1 \<le> V2X_PRIORITY_HIGH rc" and "notify_traffic_congestion rc car s = Inr s'"
  shows "routed s' = routed s"
  using assms by (auto simp: notify_traffic_congestion_def v2x_route_message_def Let_def res_bind_Inr_iff zero_message_def)

section \<open>Instances\<close>

definition demo_config :: v2i_config where
  "demo_config = \<lparr>LIGHT_RED = 0, LIGHT_YELLOW = 1, ROAD_ICY = 2, ROAD_WET = 1, HIGH_TRAFFIC_THRESHOLD = 80,
     CRITICAL_DISTANCE = 0x41A00000, BRAKE_DECELERATION = 0x40800000\<rparr>"

text \<open>A yellow light 8 m ahead, a car at 16 or 20 m/s.\<close>

definition yellow_light :: json_token where
  "yellow_light = \<lparr>u8_field = \<lambda>_. 1, u16_field = \<lambda>_. 90, float_field = \<lambda>_. 0x41000000, string_field = \<lambda>_. ''traffic_light''\<rparr>"

definition demo_car :: vehicle where
  "demo_car = \<lparr>current_speed = 0, traffic_info = replicate 16 0, stability_threshold = \<lambda>x. x\<rparr>"

definition idle_v2i :: v2i where
  "idle_v2i = \<lparr>traffic_light_state = True, v2i_road_condition = 9, traffic_flow = 7, calls = [], routed = []\<rparr>"

theorem context_is_last_report_witness:
  "\<exists>s. res_run (v2i_step (\<lambda>_. Some yellow_light) demo_config \<lparr>V2X_MSG_SAFETY = 5, V2X_PRIORITY_HIGH = 3\<rparr> demo_car)
      (v2i_init idle_v2i) [[], []] = Inr s \<and> traffic_light_state s \<and> v2i_road_condition s = 0 \<and> traffic_flow s = 0"
  using context_is_last_report [of demo_car "\<lambda>_. Some yellow_light" demo_config
      "\<lparr>V2X_MSG_SAFETY = 5, V2X_PRIORITY_HIGH = 3\<rparr>" idle_v2i "[[], []]"]
  by (simp add: demo_car_def reports_def List.map_filter_def yellow_light_def last_report_def)

lemma demo_limits:
  "f32_magnitude (f32_mul (f32_of_unsigned 2) 0x40800000) = 8 * 2 ^ 149 \<and>
   \<not> f32_sign (f32_mul (f32_of_unsigned 2) 0x40800000) \<and> f32_finite (f32_mul (f32_of_unsigned 2) 0x40800000)"
proof -
  have b: "f32_magnitude 0x40800000 = 4 * 2 ^ 149" "\<not> f32_sign 0x40800000" "f32_finite 0x40800000"
    by (simp_all add: f32_magnitude_def f32_exp_def f32_frac_def f32_sign_def f32_finite_def)
  have rep: "f32_rep (8 * 2 ^ 149)" unfolding f32_rep_def by (intro exI [of _ 8] exI [of _ 149]) simp
  have "f32_mul (f32_of_unsigned 2) 0x40800000 = f32_round False (8 * 2 ^ 149 * 2 ^ 149) (2 ^ 149)"
    using b by (simp add: f32_mul_def finite_not)
  then show ?thesis using f32_round_rep [OF rep, of "2 ^ 149" False] by simp
qed

lemma demo_brake_distance: "f32_less 0x41000000 (brake_distance demo_config 0x41800000)"
proof -
  have x: "f32_magnitude 0x41800000 = 16 * 2 ^ 149" "\<not> f32_sign 0x41800000" "f32_finite 0x41800000"
      "f32_scaled 0x41000000 = 8 * 2 ^ 149" "f32_finite 0x41000000"
    by (simp_all add: f32_scaled_def f32_magnitude_def f32_exp_def f32_frac_def f32_sign_def f32_finite_def)
  have rep: "f32_rep (256 * 2 ^ 149)" "f32_rep (32 * 2 ^ 149)"
    unfolding f32_rep_def by (intro exI [of _ 256] exI [of _ 149], simp) (intro exI [of _ 32] exI [of _ 149], simp)
  define m where "m = f32_mul 0x41800000 0x41800000"
  have "m = f32_round False (256 * 2 ^ 149 * 2 ^ 149) (2 ^ 149)" using x by (simp add: m_def f32_mul_def finite_not)
  then have m: "f32_magnitude m = 256 * 2 ^ 149" "\<not> f32_sign m" "f32_finite m"
    using f32_round_rep [OF rep(1), of "2 ^ 149" False] by simp_all
  define c where "c = f32_mul (f32_of_unsigned 2) 0x40800000"
  have "f32_div m c = f32_round False (32 * 2 ^ 149 * (8 * 2 ^ 149)) (8 * 2 ^ 149)"
    using m demo_limits by (simp add: f32_div_finite flip: c_def)
  then have "f32_magnitude (f32_div m c) = 32 * 2 ^ 149" "\<not> f32_sign (f32_div m c)" "f32_finite (f32_div m c)"
    using f32_round_rep [OF rep(2), of "8 * 2 ^ 149" False] by simp_all
  moreover have "brake_distance demo_config 0x41800000 = f32_div m c"
    by (simp add: brake_distance_def demo_config_def m_def c_def)
  ultimately show ?thesis using x by (simp add: f32_less_def finite_not f32_scaled_def [of "f32_div m c"])
qed

theorem faster_car_warned_too_witness:
  "warned (handle_traffic_light_data demo_config (demo_car\<lparr>current_speed := 0x41A00000\<rparr>) yellow_light idle_v2i)"
proof -
  define rc :: router_config where "rc = \<lparr>V2X_MSG_SAFETY = 5, V2X_PRIORITY_HIGH = 3\<rparr>"
  define msg where "msg v = process_v2i_message (\<lambda>_. Some yellow_light) demo_config rc (demo_car\<lparr>current_speed := v\<rparr>) [] idle_v2i" for v
  have msg: "msg v = Inr (call Traffic_System_Update (handle_traffic_light_data demo_config (demo_car\<lparr>current_speed := v\<rparr>)
      yellow_light idle_v2i))" for v
    by (simp add: msg_def process_v2i_message_def yellow_light_def)
  have "brakes_work demo_config" using demo_limits by (simp add: brakes_work_def demo_config_def)
  moreover have "is_speed 0x41800000" "is_speed 0x41A00000" "f32_scaled 0x41800000 \<le> f32_scaled 0x41A00000"
    by (simp_all add: is_speed_def f32_scaled_def f32_magnitude_def f32_exp_def f32_frac_def f32_sign_def f32_finite_def)
  moreover have "warned (call Traffic_System_Update (handle_traffic_light_data demo_config (demo_car\<lparr>current_speed := 0x41800000\<rparr>)
      yellow_light idle_v2i))"
    using demo_brake_distance by (simp add: light_warning yellow_light_def demo_config_def)
  ultimately show ?thesis
    using faster_car_warned_too [OF _ _ _ _ msg [unfolded msg_def, of "0x41800000"] _ msg [unfolded msg_def, of "0x41A00000"]]
    by simp
qed

end
