(* ===== verification/Runtime_Report.thy ===== *)
theory Runtime_Report
  imports Runtime_Stats Float_Arith
begin

text \<open>
  The report of \<^verbatim>\<open>common/safety/runtime_stats.c\<close>: the trend analysis and the lines
  \<^verbatim>\<open>runtime_stats_report\<close> logs. The comparison with a growth of 20 percent is done in \<^verbatim>\<open>double\<close>, which
  is modelled with its rounding; the lemmas show that it decides the exact inequality.
\<close>

section \<open>The comparison in double precision\<close>

text \<open>
  A natural number rounded to 53 significant bits, ties to even; the exponents that occur are far
  from the ends of the range of a double.
\<close>

definition round_double :: "nat \<Rightarrow> nat" where
  "round_double m =
     (if m < 2 ^ 53 then m else let e = log2_floor m - 52 in round_div m (2 ^ e) * 2 ^ e)"

text \<open>The constant 1.2 as a double, in units of \<open>2 ^ -52\<close>.\<close>

definition growth_limit :: nat where "growth_limit = 5404319552844595"

lemma growth_limit_nearest: "growth_limit = round_div (12 * 2 ^ 52) 10"
  by (simp add: growth_limit_def round_div_def Let_def)

text \<open>\<^verbatim>\<open>curr_avg > prev_avg * 1.2\<close>; both sides in units of \<open>2 ^ -52\<close>.\<close>

definition exceeds_growth :: "u32 \<Rightarrow> u32 \<Rightarrow> bool" where
  "exceeds_growth prev_avg curr_avg \<longleftrightarrow> round_double (unat prev_avg * growth_limit) < unat curr_avg * 2 ^ 52"

section \<open>The report\<close>

definition trend_step :: "u32 \<times> nat \<Rightarrow> runtime_stats \<Rightarrow> u32 \<times> nat" where
  "trend_step pc h =
     (case pc of (prev_avg, trend_count) \<Rightarrow>
        let curr_avg = avg_execution_time h in
        (curr_avg, if 0 < prev_avg \<and> exceeds_growth prev_avg curr_avg then trend_count + 1 else trend_count))"

text \<open>Whether the warning about an increasing trend is logged.\<close>

definition analyze_runtime_trend :: "string \<Rightarrow> task_runtime_data list \<Rightarrow> bool" where
  "analyze_runtime_trend task_name ts =
     (case find_index task_name ts of
        None \<Rightarrow> False
      | Some i \<Rightarrow> HISTORY_SIZE div 2 \<le> snd (foldl trend_step (0, 0) (history (ts ! i))))"

definition runtime_stats_report :: "task_runtime_data list \<Rightarrow> (string \<times> runtime_stats \<times> bool) list" where
  "runtime_stats_report ts =
     map (\<lambda>t. (tname t, current t, analyze_runtime_trend (tname t) ts)) (filter is_active ts)"

section \<open>The comparison is exact\<close>

lemma exceeds_exact_core:
  assumes p: "0 < p" "p < 2 ^ 32"
  shows "round_double (p * growth_limit) < c * 2 ^ 52 \<longleftrightarrow> 6 * p < 5 * c"
proof -
  define m where "m = p * growth_limit"
  have m5: "5 * int m = 6 * int p * 2 ^ 52 - int p" by (simp add: m_def growth_limit_def)
  show ?thesis
  proof (cases "m < 2 ^ 53")
    case True
    then have "p = 1" using p by (simp add: m_def growth_limit_def)
    then show ?thesis by (auto simp: round_double_def growth_limit_def)
  next
    case False
    define l where "l = log2_floor m"
    have l: "2 ^ l \<le> m" "m < 2 ^ (l + 1)" using log2_floor_bounds [of m] False by (simp_all add: l_def)
    have "(2::nat) ^ 53 < 2 ^ (l + 1)" using False l(2) by linarith
    then have l53: "53 < l + 1" by (rule power_less_imp_less_exp [rotated]) simp
    define e where "e = l - 52"
    have le: "l = 52 + e" using l53 by (simp add: e_def)
    define E where "E = (2::nat) ^ e"
    have E: "0 < E" by (simp add: E_def)
    have bounds: "2 ^ 52 * E \<le> m" "m < 2 ^ 53 * E" using l by (simp_all add: le E_def power_add)
    have "int (2 ^ 52 * E) \<le> int m" using bounds(1) by (simp only: of_nat_le_iff)
    then have e_hi: "5 * int E \<le> 6 * int p" using m5 by simp
    have "int m < int (2 ^ 53 * E)" using bounds(2) by (simp only: of_nat_less_iff)
    then have e_lo: "2 * int p < 5 * int E" using m5 by simp
    have small: "E \<le> 2 ^ 52"
    proof -
      have "5 * int E < 5 * 2 ^ 52" using e_hi p(2) by simp
      then show ?thesis by simp
    qed
    then have "(2::nat) ^ e \<le> 2 ^ 52" by (simp only: E_def)
    then have "e \<le> 52" by (rule power_le_imp_le_exp [rotated]) simp
    then have "E dvd 2 ^ 52" unfolding E_def by (rule le_imp_power_dvd)
    then obtain d where d: "2 ^ 52 = E * d" by (rule dvdE)
    define k where "k = round_div m E"
    have R: "round_double m = k * E" using False by (simp add: round_double_def Let_def k_def E_def e_def l_def)
    have err: "2 * \<bar>int (k * E) - int m\<bar> \<le> int E" unfolding k_def by (rule round_div_error [OF E])
    define x where "x = int (k * E)"
    have "2 * \<bar>x - int m\<bar> \<le> int E" using err by (simp only: x_def)
    moreover have "x - int m \<le> \<bar>x - int m\<bar>" "int m - x \<le> \<bar>x - int m\<bar>"
      using abs_ge_self [of "x - int m"] abs_ge_minus_self [of "x - int m"] by simp_all
    ultimately have x: "2 * x \<le> 2 * int m + int E" "2 * int m \<le> 2 * x + int E" by simp_all
    have p32: "int p < 2 ^ 32" using p(2) by simp
    consider "6 * p < 5 * c" | "5 * c < 6 * p" | "5 * c = 6 * p" by linarith
    then show ?thesis
    proof cases
      case 1
      then have "6 * int p + 1 \<le> 5 * int c" by simp
      then have "x < int (c * 2 ^ 52)" using x m5 e_hi p32 by simp
      then have "k * E < c * 2 ^ 52" by (simp only: x_def of_nat_less_iff)
      then show ?thesis using 1 R by (simp add: m_def)
    next
      case 2
      then have "5 * int c + 1 \<le> 6 * int p" by simp
      then have "int (c * 2 ^ 52) \<le> x" using x m5 e_hi p32 by simp
      then have "\<not> k * E < c * 2 ^ 52" by (simp only: x_def of_nat_le_iff not_less)
      then show ?thesis using 2 R by (simp add: m_def)
    next
      case 3
      define j where "j = c * d"
      have cj: "c * 2 ^ 52 = j * E" unfolding j_def d by (simp add: mult_ac)
      have "5 * int c = 6 * int p" using 3 by simp
      then have "5 * int m = 5 * int (c * 2 ^ 52) - int p" using m5 by simp
      then have "(2 * int j - 1) * int E < 2 * int m" using e_lo unfolding cj by (simp add: algebra_simps)
      moreover have "0 < j" using 3 p(1) cj E by (cases j) simp_all
      then have "int (2 * (j - 1) + 1) = 2 * int j - 1" by (simp add: of_nat_diff)
      ultimately have "int ((2 * (j - 1) + 1) * E) < int (2 * m)" by (simp only: of_nat_mult of_nat_numeral)
      then have "(2 * (j - 1) + 1) * E < 2 * m" by (simp only: of_nat_less_iff)
      then have "\<not> k \<le> j - 1" unfolding k_def round_div_le_iff [OF E] by linarith
      then have "j \<le> k" by simp
      then have "j * E \<le> k * E" by (rule mult_le_mono1)
      then have "\<not> k * E < c * 2 ^ 52" by (simp only: cj not_less)
      then show ?thesis using 3 R by (simp add: m_def)
    qed
  qed
qed

text \<open>C25: The floating-point comparison of the trend analysis decides the exact inequality: for all
  averages, an entry counts as an increase if and only if the new average is more than six fifths
  of the last one in the integers, whatever the constant 1.2 and the product are rounded to.\<close>

theorem growth_comparison_exact:
  fixes prev curr :: u32
  shows "0 < prev \<and> exceeds_growth prev curr \<longleftrightarrow> 0 < prev \<and> 6 * unat prev < 5 * unat curr"
proof (cases "prev = 0")
  case False
  then have "0 < unat prev" by (simp add: unat_gt_0)
  then show ?thesis using exceeds_exact_core [of "unat prev" "unat curr"] unat_u32_less [of prev]
    by (simp add: exceeds_growth_def)
qed simp

text \<open>In the report after cycles of one task, its line shows its statistics and never the warning,
  whatever its durations: the history it is judged by is never written.\<close>

lemma report_never_warns:
  assumes "length n < 32" and "ps \<noteq> []"
  shows "runtime_stats_report (foldl stats_step runtime_stats_init (cycle_calls n ps)) =
    [(n, current (foldl run_cycle (new_entry n) ps), False)]"
proof -
  let ?t = "foldl run_cycle (new_entry n) ps"
  have ts: "foldl stats_step runtime_stats_init (cycle_calls n ps) = [?t]"
    using assms by (intro cycles_from_empty) (simp_all add: NAME_SIZE_def)
  have kept: "tname (foldl run_cycle t qs) = tname t" "is_active (foldl run_cycle t qs) = is_active t" for t qs
    by (induction qs arbitrary: t)
      (simp_all add: run_cycle_def start_entry_def end_entry_def store_history_def update_moving_average_def Let_def)
  have new: "tname ?t = n" "is_active ?t" using assms(1) by (simp_all add: kept new_entry_def NAME_SIZE_def)
  have "history ?t = replicate 10 zero_stats"
    using run_cycles_inv [where ps = ps, OF cycles_inv_new [of n]] by (simp add: cycles_inv_def size_defs)
  moreover have "foldl trend_step (0, 0) (replicate k zero_stats) = (0, 0)" for k
    by (induction k) (simp_all add: trend_step_def zero_stats_def Let_def)
  ultimately show ?thesis using new
    by (simp add: runtime_stats_report_def ts analyze_runtime_trend_def size_defs)
qed

end
