(* ===== verification/Secure_Storage.thy ===== *)
theory Secure_Storage
  imports Wifi_Provisioning
begin

text \<open>
  The encrypted storage of \<^verbatim>\<open>common/security/secure_storage.c\<close> and the name lookup of
  \<^verbatim>\<open>vcu/src/dns_client.c\<close>. The flash, AES and DNS libraries are parameters. \<open>aes\<close> is CBC encryption
  with the key of the context, \<open>None\<close> where the library refuses the length; \<open>iv\<close>, which the file does
  not declare, and \<^verbatim>\<open>generate_storage_key\<close>, which nothing defines, are parameters too.
  \<^verbatim>\<open>secure_storage_read\<close> of the header has no definition.
\<close>

section \<open>State and operations\<close>

datatype esp_err = ESP_OK | ESP_ERR_NVS_NO_FREE_PAGES | ESP_FAIL

record storage =
  storage_key :: bytes
  aes_key :: "bytes option"
  blobs :: "string \<Rightarrow> bytes option"

text \<open>What the flash library answers.\<close>

record flash_env =
  first_init :: esp_err
  erase_result :: esp_err
  second_init :: esp_err

text \<open>\<^verbatim>\<open>ESP_ERROR_CHECK\<close> aborts the program; \<open>None\<close> is that.\<close>

definition nvs_start :: "flash_env \<Rightarrow> esp_err option" where
  "nvs_start f =
     (if first_init f = ESP_ERR_NVS_NO_FREE_PAGES then
        (if erase_result f = ESP_OK then Some (second_init f) else None)
      else Some (first_init f))"

definition secure_storage_init :: "bytes \<Rightarrow> flash_env \<Rightarrow> storage \<Rightarrow> (int \<times> storage) option" where
  "secure_storage_init generated_key f s =
     (case nvs_start f of
        None \<Rightarrow> None
      | Some err \<Rightarrow>
          Some (if err = ESP_OK then 0 else -1, s\<lparr>storage_key := generated_key, aes_key := Some generated_key\<rparr>))"

text \<open>\<open>junk\<close> is the content of the array the ciphertext goes to.\<close>

definition secure_storage_write ::
  "(bytes option \<Rightarrow> bytes \<Rightarrow> bytes \<Rightarrow> bytes option) \<Rightarrow> bytes \<Rightarrow> bytes \<Rightarrow> esp_err \<Rightarrow> esp_err \<Rightarrow> string \<Rightarrow> bytes \<Rightarrow>
   storage \<Rightarrow> int \<times> storage" where
  "secure_storage_write aes iv junk open_result set_result key data s =
     (let encrypted = (case aes (aes_key s) iv data of Some c \<Rightarrow> c | None \<Rightarrow> junk) in
      if open_result \<noteq> ESP_OK then (-1, s)
      else if set_result = ESP_OK then (0, s\<lparr>blobs := (blobs s)(key \<mapsto> encrypted)\<rparr>)
      else (-1, s))"

section \<open>Host names\<close>

text \<open>\<open>resolve\<close> is the answer of the resolver, its code and the address.\<close>

definition dns_init :: "int \<Rightarrow> int" where "dns_init result = result"

definition dns_resolve_hostname :: "(string \<Rightarrow> int \<times> bytes) \<Rightarrow> string \<Rightarrow> bytes \<Rightarrow> int \<times> bytes" where
  "dns_resolve_hostname resolve hostname addr =
     (let (ret, info) = resolve hostname in (ret, if ret = 0 then info else addr))"

section \<open>What is stored\<close>

text \<open>A cipher that accepts whole blocks and whose decryption inverts it gives the caller's data back.\<close>

lemma stored_blob_decrypts:
  assumes "secure_storage_write aes iv junk ESP_OK ESP_OK key data s = (r, s')"
    and "length data mod 16 = 0"
    and "\<And>k d. length d mod 16 = 0 \<Longrightarrow> \<exists>c. aes k iv d = Some c \<and> dec k iv c = Some d"
  shows "r = 0 \<and> (\<exists>c. blobs s' key = Some c \<and> dec (aes_key s) iv c = Some data)"
proof -
  obtain c where "aes (aes_key s) iv data = Some c" "dec (aes_key s) iv c = Some data"
    using assms(3) [OF assms(2), of "aes_key s"] by blast
  then show ?thesis using assms(1) by (auto simp: secure_storage_write_def)
qed

text \<open>The result of the cipher is not looked at: a length it refuses stores the array as it was found.\<close>

lemma refused_length_stores_junk:
  assumes "secure_storage_write aes iv junk ESP_OK ESP_OK key data s = (r, s')"
    and "aes (aes_key s) iv data = None"
  shows "r = 0 \<and> blobs s' key = Some junk"
  using assms by (auto simp: secure_storage_write_def)

text \<open>Only a failed write leaves the blobs as they were, and no other name changes.\<close>

lemma other_blobs_kept:
  assumes "secure_storage_write aes iv junk e1 e2 key data s = (r, s')" and "key' \<noteq> key \<or> r \<noteq> 0"
  shows "blobs s' key' = blobs s key'"
  using assms by (auto simp: secure_storage_write_def Let_def split: if_splits)

text \<open>
  The credentials of the WiFi provisioning are always whole blocks: \<open>storage_log\<close> is what
  \<^verbatim>\<open>store_wifi_credentials\<close> hands to the storage.
\<close>

lemma length_c_strncpy: "length (c_strncpy dst src n) = n + (length dst - n)"
  by (simp add: c_strncpy_def)

lemma stored_credentials_are_blocks:
  assumes "length (cred_ssid s) = 32" "length (cred_pass s) = 64"
  shows "storage_log (store_wifi_credentials ssid (Some password) s) = storage_log s @
      [(''wifi_creds'', cred_ssid (store_wifi_credentials ssid (Some password) s) @
        cred_pass (store_wifi_credentials ssid (Some password) s))] \<and>
    length (cred_ssid (store_wifi_credentials ssid (Some password) s) @
      cred_pass (store_wifi_credentials ssid (Some password) s)) mod 16 = 0"
  using assms by (cases ssid) (simp_all add: store_wifi_credentials_def length_c_strncpy Let_def MAX_SSID_LEN_def MAX_PSK_LEN_def)

end
