(* ===== verification/Spec2Isabelle.thy ===== *)
theory Spec2Isabelle
  imports Prelude Binary32
    Can_Bus Can_Auth Isotp J1939 J1939_Transfer J1939_Properties
    Diag_Service Diag_Properties
    Memory_Protection Runtime_Stats Asil Control_Flow Asil_Monitor Error_Handler
    Task_Monitor Task_Properties
    Event_Manager Signal_Manager Power_Manager
    Emergency_Handler Wifi_Provisioning V2v_Broadcast Sensor_Nodes Vcu_Can
    V2x_Router Road_Monitor Infrastructure Vcu_Main
    Float_Arith Voting Redundancy Sensor_Validation Sensor_Properties Sensor_Triples
    Drive_Nodes Node_Start V2i_Handler Runtime_Report Mqtt_Publish Secure_Storage
begin

text \<open>
  A verification development for the firmware of a vehicle diagnostics system: seven sensor nodes
  and a central unit on a CAN bus, written in C for Zephyr. Paths are those under \<^verbatim>\<open>src/\<close>.

  \<^bold>\<open>The program.\<close> Every sensor node (\<^verbatim>\<open>brake_node\<close>, \<^verbatim>\<open>collision_node\<close>, \<^verbatim>\<open>tpms_node\<close>, \<^verbatim>\<open>temp_node\<close>,
  \<^verbatim>\<open>gps_node\<close>, \<^verbatim>\<open>battery_node\<close>, \<^verbatim>\<open>speed_node\<close>) reads its sensor in a thread or an interrupt and sends
  frames with \<^verbatim>\<open>send_sensor_data\<close>. The central unit \<^verbatim>\<open>vcu\<close> receives them in \<^verbatim>\<open>can_handler\<close>, publishes
  the values over MQTT, broadcasts some of them to other vehicles over BLE, takes part in messages
  between vehicles and infrastructure, and is provisioned for WiFi over BLE. The directory \<^verbatim>\<open>common\<close> holds
  what both use: the CAN transports J1939 and ISO-TP, message authentication, the diagnostic
  server, and the safety functions (monitor, goals, tasks, memory, control flow, errors, sensor
  validation, redundancy, statistics).

  \<^bold>\<open>Conventions.\<close> A C integer is a word of its width and wraps; a float is its 32 bits. A struct is a
  record, an enum a datatype, an array a list of its length, or of its live part where a counter
  says how much is in use. A routine that can leave defined behaviour returns \<open>fault + 'a\<close> with the
  faults \<open>Out_Of_Bounds\<close>, \<open>Null_Call\<close>, \<open>Div_By_Zero\<close> and \<open>Bad_Conversion\<close>; one that may enter the safe
  state, from which nothing returns, has the outcome \<open>Running\<close> or \<open>Halted\<close>. A mutex makes a routine one
  step. Time is a counter that \<^verbatim>\<open>k_sleep\<close> advances, or an argument. Endless threads are functions of
  the list of what their rounds read, so a statement about any such list is one about any number of
  rounds; no fuel is used anywhere. A busy loop or a blocking call that has not returned is \<open>None\<close>, and so is
  the recursion of \<^verbatim>\<open>mqtt_client_init\<close>, a partial function. What the repository calls and does not
  define (Zephyr, the drivers, mbedTLS, the JSON and MQTT libraries, declared but undefined
  routines, undeclared constants) is a parameter of the definitions that use it, or its calls are
  recorded in order.

  \<^bold>\<open>The library.\<close> \<open>Prelude\<close> has words, checked buffers, faults and the locales
  \<open>invariant_machine\<close>, \<open>fallible_machine\<close> (a step keeps an invariant or stops with an allowed fault),
  \<open>guarded_machine\<close> (a step faults exactly when a stated condition holds, and so does a run) and
  \<open>bounded_table\<close>. The first two are interpreted on the J1939 receiver, the region table, the statistics and
  other state machines, \<open>guarded_machine\<close> on the diagnostic server and on the sensor validation, whose
  faults are characterised exactly, \<open>bounded_table\<close> on the tables of handlers, tasks, goals and checkpoints. \<open>Can_Bus\<close>
  has \<open>can_tx\<close>, what senders rely on. \<open>Voting\<close> has \<open>agreement\<close> and \<open>reflexive_agreement\<close>, the vote over
  three channels, interpreted on both implementations of it. \<open>Binary32\<close> and \<open>Float_Arith\<close> are IEEE single
  precision: decoding, comparison, and the four operations as correctly rounded quotients of
  naturals, ties to even, without fused operations; with exactness of representable results,
  monotonicity of rounding and the bound on its error.

  \<^bold>\<open>The model.\<close>
  \<^item> Bus: \<open>Can_Bus\<close> (\<^verbatim>\<open>can_ids.h\<close>, \<^verbatim>\<open>can_fd.c\<close>, \<^verbatim>\<open>sensor_common.c\<close>); \<open>Can_Auth\<close> (\<^verbatim>\<open>can_auth.c\<close>):
    authentication and verification are inverse, and only authenticated frames verify; \<open>Isotp\<close>
    (\<^verbatim>\<open>isotp.c\<close>): segmentation of long messages byte for byte, the round trip of short ones; \<open>J1939\<close>,
    \<open>J1939_Transfer\<close> and \<open>J1939_Properties\<close> (\<^verbatim>\<open>j1939.c\<close>): sender, receiver and both end to end,
    delivery, admission, the timeout that stops long messages, memory safety of the receive path.
  \<^item> Diagnostics: \<open>Diag_Service\<close> and \<open>Diag_Properties\<close> (\<^verbatim>\<open>diag_service.c\<close>): sessions, lockout, the
    predictable key, and exactly which requests overflow a buffer.
  \<^item> Safety: \<open>Asil\<close> (\<^verbatim>\<open>asil.c\<close>), \<open>Asil_Monitor\<close> (\<^verbatim>\<open>asil_monitor.c\<close>), \<open>Control_Flow\<close> (\<^verbatim>\<open>control_flow.c\<close>),
    \<open>Error_Handler\<close> (\<^verbatim>\<open>error_handler.c\<close>), \<open>Task_Monitor\<close> and \<open>Task_Properties\<close> (\<^verbatim>\<open>task_monitor.c\<close>),
    \<open>Memory_Protection\<close> (\<^verbatim>\<open>memory_protection.c\<close>), \<open>Runtime_Stats\<close> and \<open>Runtime_Report\<close>
    (\<^verbatim>\<open>runtime_stats.c\<close>): when the node stops, what is counted, the invariant of the region table, the
    repair of redundant memory in any reachable table, statistics against their definition, and the trend test in double
    arithmetic against the exact inequality.
  \<^item> Redundancy: \<open>Redundancy\<close> (\<^verbatim>\<open>redundancy.c\<close>), \<open>Sensor_Validation\<close>, \<open>Sensor_Properties\<close> and \<open>Sensor_Triples\<close>
    (\<^verbatim>\<open>sensor_validation.c\<close>): both voters refine the abstract vote of \<open>Voting\<close>, one faulty channel,
    whatever its bits, is masked while the two others agree; exactly which readings leave the arrays, and
    that the counters of a sensor balance otherwise; the verdicts on single readings are those of a
    reference in which only every second accepted reading is compared with the one before.
  \<^item> Services: \<open>Event_Manager\<close>, \<open>Signal_Manager\<close>, \<open>Power_Manager\<close> (the files of these names under \<^verbatim>\<open>common\<close>),
    \<open>Secure_Storage\<close> (\<^verbatim>\<open>secure_storage.c\<close>, \<^verbatim>\<open>dns_client.c\<close>).
  \<^item> Nodes: \<open>Sensor_Nodes\<close> and \<open>Drive_Nodes\<close>, one round of each thread, and \<open>Node_Start\<close>, the whole
    program of each node. The speed and the battery voltage are followed through the float arithmetic of the
    node, the frame and the central unit, the voltage up to the text of the MQTT message; the traffic of all nodes is safe for the central unit.
  \<^item> Central unit: \<open>Vcu_Can\<close> (\<^verbatim>\<open>can_handler\<close>), \<open>Vcu_Main\<close> and \<open>Mqtt_Publish\<close> (\<^verbatim>\<open>main.c\<close>,
    \<^verbatim>\<open>mqtt_handler.c\<close>, \<^verbatim>\<open>secure_boot.c\<close>), \<open>V2v_Broadcast\<close> (\<^verbatim>\<open>v2x_handler.c\<close>), \<open>V2x_Router\<close>, \<open>Road_Monitor\<close> (a
    refinement of a bounded map), \<open>Infrastructure\<close> (\<^verbatim>\<open>infrastructure_manager.c\<close>, \<^verbatim>\<open>traffic_manager.c\<close>),
    \<open>V2i_Handler\<close>, \<open>Emergency_Handler\<close>, \<open>Wifi_Provisioning\<close>.

  \<^bold>\<open>Bounds.\<close> Hypotheses on lengths are the sizes of the C arrays (240 bytes of a packet, 256 of a
  message, 8 of a frame). Where the arithmetic wraps or a float is out of range the statements say
  up to where they hold: regions that do not end beyond the address space, at most 3640 pulses in a
  round, magnitudes below \<open>2 ^ 127\<close> for floats that are added.

  \<^bold>\<open>Not modelled.\<close> Log output, thread creation and stacks, since nothing of the program's state depends on
  them; preemption inside a routine that takes no mutex; the state after a second
  \<^verbatim>\<open>task_monitor_init\<close>, which leaves null task names behind; the BLE service table; the branch of the router that
  \<^verbatim>\<open>CONFIG_V2X_EXPERIMENTAL\<close> disables; routines that are declared and have no definition; the tests, scripts
  and build files. Left for later: the interleaving of the threads of the central unit with its
  interrupt routines, and the composition of the error handler with the components that report to it.
\<close>

end
